(* ===== verification/Prelude.thy ===== *)
theory Prelude
  imports Main "HOL-Library.Word" "HOL-Library.Sublist"
begin

text \<open>
  Shared vocabulary of the development.

  The Go program signals an unrecoverable error by calling \<^verbatim>\<open>die\<close>, which panics with a
  \<^verbatim>\<open>dieError\<close>; \<^verbatim>\<open>main\<close> and the API guard recover it.  Effects performed before the panic stay
  performed.  A stateful Go function is therefore a \<open>prog\<close>: it takes the state and returns either the
  message it died with (\<open>Inl\<close>) or its result (\<open>Inr\<close>), and in both cases the state it left behind.

  The theory also fixes the two's-complement reading of Go's \<^verbatim>\<open>int64\<close>, the theorem collections the
  component theories fill, and a few list facts several components share.
\<close>

named_theorems go_str "evaluation and characterisation of the Go string functions"
named_theorems prog_simps "unfolding of the state-and-panic programs"
named_theorems store_simps "reading the peers table after a statement"

section \<open>Programs that may die\<close>

type_synonym ('s, 'a) prog = "'s \<Rightarrow> (string + 'a) \<times> 's"

definition finish :: "'a \<Rightarrow> ('s, 'a) prog" where
  "finish a = (\<lambda>s. (Inr a, s))"

text \<open>Parts of messages: \<^verbatim>\<open>%q\<close>, here quotes around the text as it is, and a dash, in UTF-8.\<close>

definition quoted :: "string \<Rightarrow> string" where
  "quoted s = CHR 0x22 # s @ [CHR 0x22]"

definition dash :: string where
  "dash = [CHR 0xE2, CHR 0x80, CHR 0x94]"

definition die :: "string \<Rightarrow> ('s, 'a) prog" where
  "die msg = (\<lambda>s. (Inl msg, s))"

definition and_then :: "('s, 'a) prog \<Rightarrow> ('a \<Rightarrow> ('s, 'b) prog) \<Rightarrow> ('s, 'b) prog" where
  "and_then p f = (\<lambda>s. case p s of (Inl e, s') \<Rightarrow> (Inl e, s') | (Inr a, s') \<Rightarrow> f a s')"

text \<open>A deferred \<^verbatim>\<open>recover\<close> that runs a cleanup and panics again with the same value.\<close>

definition cleanup_on_die :: "('s, 'a) prog \<Rightarrow> ('s \<Rightarrow> 's) \<Rightarrow> ('s, 'a) prog" where
  "cleanup_on_die p c = (\<lambda>s. case p s of (Inl e, s') \<Rightarrow> (Inl e, c s') | (Inr a, s') \<Rightarrow> (Inr a, s'))"

lemma finish_run [simp, prog_simps]: "finish a s = (Inr a, s)"
  by (simp add: finish_def)

lemma die_run [simp, prog_simps]: "die msg s = (Inl msg, s)"
  by (simp add: die_def)

lemma and_then_Inl [simp, prog_simps]: "p s = (Inl e, s') \<Longrightarrow> and_then p f s = (Inl e, s')"
  by (simp add: and_then_def)

lemma and_then_Inr [simp, prog_simps]: "p s = (Inr a, s') \<Longrightarrow> and_then p f s = f a s'"
  by (simp add: and_then_def)

lemma and_then_Inr_iff:
  "and_then p f s = (Inr b, s'') \<longleftrightarrow> (\<exists>a s'. p s = (Inr a, s') \<and> f a s' = (Inr b, s''))"
  by (auto simp: and_then_def split: prod.splits sum.splits)

lemma and_then_Inl_iff:
  "and_then p f s = (Inl e, s'') \<longleftrightarrow>
     p s = (Inl e, s'') \<or> (\<exists>a s'. p s = (Inr a, s') \<and> f a s' = (Inl e, s''))"
  by (auto simp: and_then_def split: prod.splits sum.splits)

text \<open>Lifting a fallible pure computation, and a pure update of the state.\<close>

definition lift_sum :: "string + 'a \<Rightarrow> ('s, 'a) prog" where
  "lift_sum r = (\<lambda>s. (r, s))"

definition modify :: "('s \<Rightarrow> 's) \<Rightarrow> ('s, unit) prog" where
  "modify f = (\<lambda>s. (Inr (), f s))"

definition gets :: "('s \<Rightarrow> 'a) \<Rightarrow> ('s, 'a) prog" where
  "gets f = (\<lambda>s. (Inr (f s), s))"

lemma lift_sum_run [simp, prog_simps]: "lift_sum r s = (r, s)"
  by (simp add: lift_sum_def)

lemma modify_run [simp, prog_simps]: "modify f s = (Inr (), f s)"
  by (simp add: modify_def)

lemma gets_run [simp, prog_simps]: "gets f s = (Inr (f s), s)"
  by (simp add: gets_def)

section \<open>Signed 64-bit integers\<close>

text \<open>
  Go's \<^verbatim>\<open>int64\<close> is kept as an \<open>int\<close> in the range \<open>[-2^63, 2^63)\<close>; \<open>i64\<close> writes out the wrap-around
  of an arithmetic result.
\<close>

definition i64 :: "int \<Rightarrow> int" where
  "i64 x = (x + 2 ^ 63) mod 2 ^ 64 - 2 ^ 63"

definition in_i64 :: "int \<Rightarrow> bool" where
  "in_i64 x \<longleftrightarrow> - (2 ^ 63) \<le> x \<and> x < 2 ^ 63"

lemma i64_id [simp]: "in_i64 x \<Longrightarrow> i64 x = x"
  by (simp add: i64_def in_i64_def)

lemma i64_in_range: "in_i64 (i64 x)"
proof -
  have "0 \<le> (x + 2 ^ 63) mod 2 ^ 64" and "(x + 2 ^ 63) mod 2 ^ 64 < (2 :: int) ^ 64"
    by simp_all
  then show ?thesis by (simp add: i64_def in_i64_def)
qed

lemma i64_0 [simp]: "i64 0 = 0"
  by (simp add: i64_def)

lemma i64_sint: "i64 x = sint (word_of_int x :: 64 word)"
  by (simp add: i64_def sint_sbintrunc' signed_take_bit_eq_take_bit_shift take_bit_eq_mod)

section \<open>Lists\<close>

lemma find_Some_iff2: "find P xs = Some x \<Longrightarrow> x \<in> set xs \<and> P x"
  by (auto simp: find_Some_iff)

lemma find_distinct:
  assumes "distinct (map f xs)" and "x \<in> set xs"
  shows "find (\<lambda>y. f y = f x) xs = Some x"
  using assms by (induction xs) (auto simp: rev_image_eqI)

lemma find_append: "find P (xs @ ys) = (case find P xs of None \<Rightarrow> find P ys | Some x \<Rightarrow> Some x)"
  by (induction xs) auto

lemma map_eq_self: "(\<And>x. x \<in> set xs \<Longrightarrow> f x = x) \<Longrightarrow> map f xs = xs"
  by (induction xs) auto

end
