(* ===== verification/GoStrings.thy ===== *)
theory GoStrings
  imports Prelude "HOL-Library.Char_ord" "HOL-Library.List_Lexorder"
begin

text \<open>
  The functions of Go's \<^verbatim>\<open>strings\<close> and \<^verbatim>\<open>strconv\<close> packages the program uses, on byte strings.  A Go
  string is a sequence of bytes, which is what \<open>string\<close> is here.  White space is the set
  \<^verbatim>\<open>unicode.IsSpace\<close>, given as the byte sequences that encode it, so \<^verbatim>\<open>TrimSpace\<close> and \<^verbatim>\<open>Fields\<close> act
  on UTF-8 as the library does.  The lemmas are the ones the parsers of the development need: split and
  join invert each other, and trimming or splitting text without white space changes nothing.
\<close>

section \<open>Split and join\<close>

fun split_on :: "char \<Rightarrow> string \<Rightarrow> string list" where
  "split_on c [] = [[]]"
| "split_on c (x # xs) =
     (if x = c then [] # split_on c xs
      else (case split_on c xs of [] \<Rightarrow> [[x]] | w # ws \<Rightarrow> (x # w) # ws))"

fun join :: "string \<Rightarrow> string list \<Rightarrow> string" where
  "join sep [] = []"
| "join sep [w] = w"
| "join sep (w # v # ws) = w @ sep @ join sep (v # ws)"

lemma split_on_not_Nil [simp]: "split_on c s \<noteq> []"
  by (induction s) (auto split: list.splits)

lemma split_on_no_sep: "c \<notin> set s \<Longrightarrow> split_on c s = [s]"
  by (induction s) auto

lemma split_on_append:
  "c \<notin> set w \<Longrightarrow> split_on c (w @ c # s) = w # split_on c s"
  by (induction w) auto

lemma split_on_elem_no_sep: "w \<in> set (split_on c s) \<Longrightarrow> c \<notin> set w"
proof (induction s arbitrary: w)
  case (Cons x xs)
  then show ?case by (cases "split_on c xs") (auto split: if_splits)
qed simp

lemma join_split_on [simp]: "join [c] (split_on c s) = s"
proof (induction s)
  case (Cons x xs)
  obtain w ws where "split_on c xs = w # ws" by (cases "split_on c xs") auto
  with Cons show ?case by (cases ws) auto
qed simp

lemma split_on_join:
  "ws \<noteq> [] \<Longrightarrow> \<forall>w\<in>set ws. c \<notin> set w \<Longrightarrow> split_on c (join [c] ws) = ws"
proof (induction "[c]" ws rule: join.induct)
  case (2 w)
  then show ?case by (simp add: split_on_no_sep)
next
  case (3 w v ws)
  then show ?case by (simp add: split_on_append)
qed simp

lemma split_on_append2:
  "split_on c (a @ c # b) = split_on c a @ split_on c b"
proof (induction a)
  case (Cons x xs)
  obtain w ws where "split_on c xs = w # ws" by (cases "split_on c xs") auto
  with Cons show ?case by auto
qed simp

lemma join_append:
  "xs \<noteq> [] \<Longrightarrow> ys \<noteq> [] \<Longrightarrow> join sep (xs @ ys) = join sep xs @ sep @ join sep ys"
proof (induction sep xs rule: join.induct)
  case (2 sep w)
  then obtain v vs where "ys = v # vs" by (cases ys) auto
  then show ?case by simp
qed auto

section \<open>White space\<close>

text \<open>The UTF-8 encodings of the code points for which \<^verbatim>\<open>unicode.IsSpace\<close> holds.\<close>

definition ws_seqs :: "string list" where
  "ws_seqs =
    [[CHR 0x09], [CHR 0x0A], [CHR 0x0B], [CHR 0x0C], [CHR 0x0D], [CHR 0x20],
     [CHR 0xC2, CHR 0x85], [CHR 0xC2, CHR 0xA0], [CHR 0xE1, CHR 0x9A, CHR 0x80],
     [CHR 0xE2, CHR 0x80, CHR 0x80], [CHR 0xE2, CHR 0x80, CHR 0x81],
     [CHR 0xE2, CHR 0x80, CHR 0x82], [CHR 0xE2, CHR 0x80, CHR 0x83],
     [CHR 0xE2, CHR 0x80, CHR 0x84], [CHR 0xE2, CHR 0x80, CHR 0x85],
     [CHR 0xE2, CHR 0x80, CHR 0x86], [CHR 0xE2, CHR 0x80, CHR 0x87],
     [CHR 0xE2, CHR 0x80, CHR 0x88], [CHR 0xE2, CHR 0x80, CHR 0x89],
     [CHR 0xE2, CHR 0x80, CHR 0x8A], [CHR 0xE2, CHR 0x80, CHR 0xA8],
     [CHR 0xE2, CHR 0x80, CHR 0xA9], [CHR 0xE2, CHR 0x80, CHR 0xAF],
     [CHR 0xE2, CHR 0x81, CHR 0x9F], [CHR 0xE3, CHR 0x80, CHR 0x80]]"

definition has_prefix :: "string \<Rightarrow> string \<Rightarrow> bool" where
  "has_prefix s p \<longleftrightarrow> take (length p) s = p"

definition has_suffix :: "string \<Rightarrow> string \<Rightarrow> bool" where
  "has_suffix s p \<longleftrightarrow> has_prefix (rev s) (rev p)"

definition trim_prefix :: "string \<Rightarrow> string \<Rightarrow> string" where
  "trim_prefix s p = (if has_prefix s p then drop (length p) s else s)"

text \<open>The length of the white-space code point at the front (0 if there is none).\<close>

definition ws_len :: "string \<Rightarrow> nat" where
  "ws_len s = (case find (has_prefix s) ws_seqs of None \<Rightarrow> 0 | Some w \<Rightarrow> length w)"

definition ws_len_end :: "string \<Rightarrow> nat" where
  "ws_len_end r = (case find (\<lambda>w. has_prefix r (rev w)) ws_seqs of None \<Rightarrow> 0 | Some w \<Rightarrow> length w)"

function trim_left_by :: "(string \<Rightarrow> nat) \<Rightarrow> string \<Rightarrow> string" where
  "trim_left_by f s = (if f s = 0 \<or> s = [] then s else trim_left_by f (drop (f s) s))"
  by pat_completeness auto
termination
  by (relation "measure (length \<circ> snd)") auto

declare trim_left_by.simps [simp del]

definition trim_space :: "string \<Rightarrow> string" where
  "trim_space s = rev (trim_left_by ws_len_end (rev (trim_left_by ws_len s)))"

text \<open>\<^verbatim>\<open>strings.Fields\<close>: maximal runs without white space.\<close>

function fields_acc :: "string \<Rightarrow> string \<Rightarrow> string list" where
  "fields_acc acc [] = (if acc = [] then [] else [rev acc])"
| "fields_acc acc (c # s) =
     (if ws_len (c # s) = 0 then fields_acc (c # acc) s
      else (if acc = [] then [] else [rev acc]) @ fields_acc [] (drop (ws_len (c # s)) (c # s)))"
  by pat_completeness auto
termination
  by (relation "measure (length \<circ> snd)") auto

definition str_fields :: "string \<Rightarrow> string list" where
  "str_fields s = fields_acc [] s"


text \<open>A printable ASCII byte neither starts nor ends a white-space code point.\<close>

definition printable :: "char \<Rightarrow> bool" where
  "printable c \<longleftrightarrow> 33 \<le> (of_char c :: nat) \<and> (of_char c :: nat) \<le> 126"

definition word_like :: "string \<Rightarrow> bool" where
  "word_like s \<longleftrightarrow> s \<noteq> [] \<and> list_all printable s"

lemma ws_seqs_ends:
  "\<forall>w\<in>set ws_seqs. w \<noteq> [] \<and> \<not> printable (hd w) \<and> \<not> printable (last w)"
  by (simp add: ws_seqs_def printable_def)

lemma has_prefix_iff: "has_prefix s p \<longleftrightarrow> (\<exists>r. s = p @ r)"
  unfolding has_prefix_def by (metis append_eq_conv_conj append_take_drop_id)

lemma has_prefix_append [simp, go_str]: "has_prefix (p @ r) p"
  by (auto simp: has_prefix_iff)

lemma has_prefix_Nil [simp, go_str]: "has_prefix s []" "has_prefix [] p \<longleftrightarrow> p = []"
  by (auto simp: has_prefix_iff)

lemma has_prefix_Cons [simp, go_str]:
  "has_prefix (x # s) (y # p) \<longleftrightarrow> x = y \<and> has_prefix s p"
  by (auto simp: has_prefix_iff)

lemma trim_prefix_append [simp, go_str]: "trim_prefix (p @ r) p = r"
  by (simp add: trim_prefix_def)

lemma ws_len_printable [simp, go_str]: "printable c \<Longrightarrow> ws_len (c # s) = 0"
proof -
  assume pc: "printable c"
  have "find (has_prefix (c # s)) ws_seqs = None"
  proof (subst find_None_iff, safe)
    fix w assume w: "w \<in> set ws_seqs" "has_prefix (c # s) w"
    then have "w \<noteq> []" "\<not> printable (hd w)" using ws_seqs_ends by auto
    with w(2) pc show False by (cases w) auto
  qed
  then show ?thesis by (simp add: ws_len_def)
qed

lemma ws_len_end_printable [simp, go_str]: "printable c \<Longrightarrow> ws_len_end (c # s) = 0"
proof -
  assume pc: "printable c"
  have "find (\<lambda>w. has_prefix (c # s) (rev w)) ws_seqs = None"
  proof (subst find_None_iff, safe)
    fix w assume w: "w \<in> set ws_seqs" "has_prefix (c # s) (rev w)"
    then have "w \<noteq> []" "\<not> printable (last w)" using ws_seqs_ends by auto
    with w(2) pc show False by (cases w rule: rev_cases) auto
  qed
  then show ?thesis by (simp add: ws_len_end_def)
qed

lemma ws_len_Nil [simp]: "ws_len [] = 0" "ws_len_end [] = 0"
  by (simp_all add: ws_len_def ws_len_end_def ws_seqs_def)

lemma printable_space [simp]: "\<not> printable CHR '' ''"
  by (simp add: printable_def)

lemma ws_len_space [simp, go_str]: "ws_len (CHR '' '' # s) = 1"
  by (simp add: ws_len_def ws_seqs_def)

lemma trim_left_by_0 [simp]: "f s = 0 \<Longrightarrow> trim_left_by f s = s"
  by (simp add: trim_left_by.simps)

lemma trim_left_by_Nil [simp]: "trim_left_by f [] = []"
  by (simp add: trim_left_by.simps)

lemma trim_left_space: "trim_left_by ws_len (CHR '' '' # s) = trim_left_by ws_len s"
  by (subst trim_left_by.simps) simp

text \<open>Text that starts and ends with a printable byte is not changed by \<^verbatim>\<open>TrimSpace\<close>.\<close>

definition tight :: "string \<Rightarrow> bool" where
  "tight s \<longleftrightarrow> s = [] \<or> printable (hd s) \<and> printable (last s)"

lemma word_like_tight: "word_like s \<Longrightarrow> tight s"
  by (auto simp: word_like_def tight_def list_all_iff)

lemma trim_space_tight [simp, go_str]: "tight s \<Longrightarrow> trim_space s = s"
proof -
  assume t: "tight s"
  show ?thesis
  proof (cases "s = []")
    case False
    with t have "ws_len s = 0" by (cases s) (auto simp: tight_def)
    moreover have "ws_len_end (rev s) = 0"
      using t False by (cases s rule: rev_cases) (auto simp: tight_def)
    ultimately show ?thesis by (simp add: trim_space_def)
  qed (simp add: trim_space_def)
qed

lemma trim_space_leading: "tight s \<Longrightarrow> trim_space (CHR '' '' # s) = s"
  using trim_space_tight [of s] by (simp add: trim_space_def trim_left_space)

lemma fields_acc_word:
  "list_all printable w \<Longrightarrow> fields_acc acc (w @ s) = fields_acc (rev w @ acc) s"
  by (induction w arbitrary: acc) auto

lemma str_fields_word [go_str]: "word_like w \<Longrightarrow> str_fields w = [w]"
  using fields_acc_word [of w "[]" "[]"] by (simp add: str_fields_def word_like_def)

lemma str_fields_Cons [go_str]: "word_like w \<Longrightarrow> str_fields (w @ CHR '' '' # s) = w # str_fields s"
  using fields_acc_word [of w "[]" "CHR '' '' # s"] by (simp add: str_fields_def word_like_def)

lemma str_fields_join:
  "ws \<noteq> [] \<Longrightarrow> \<forall>w\<in>set ws. word_like w \<Longrightarrow> str_fields (join '' '' ws) = ws"
proof (induction "'' ''" ws rule: join.induct)
  case (2 w)
  then show ?case by (simp add: str_fields_word)
next
  case (3 w v ws)
  then show ?case by (simp add: str_fields_Cons)
qed simp

lemma str_fields_Nil [simp, go_str]: "str_fields [] = []"
  by (simp add: str_fields_def)


section \<open>Searching, cutting and replacing\<close>

fun str_index :: "string \<Rightarrow> string \<Rightarrow> nat option" where
  "str_index [] t = (if t = [] then Some 0 else None)"
| "str_index (x # s) t =
     (if has_prefix (x # s) t then Some 0 else map_option Suc (str_index s t))"

definition contains :: "string \<Rightarrow> string \<Rightarrow> bool" where
  "contains s t \<longleftrightarrow> str_index s t \<noteq> None"

text \<open>\<^verbatim>\<open>strings.Replace(s, old, new, 1)\<close> and \<^verbatim>\<open>strings.ReplaceAll\<close> for a non-empty \<open>old\<close>.\<close>

fun replace_first :: "string \<Rightarrow> string \<Rightarrow> string \<Rightarrow> string" where
  "replace_first [] old new = []"
| "replace_first (x # s) old new =
     (if has_prefix (x # s) old then new @ drop (length old) (x # s)
      else x # replace_first s old new)"

function replace_all :: "string \<Rightarrow> string \<Rightarrow> string \<Rightarrow> string" where
  "replace_all [] old new = []"
| "replace_all (x # s) old new =
     (if old \<noteq> [] \<and> has_prefix (x # s) old then new @ replace_all (drop (length old) (x # s)) old new
      else x # replace_all s old new)"
  by pat_completeness auto
termination
  by (relation "measure (\<lambda>(s, old, new). length s)") (auto simp: neq_Nil_conv)

definition to_lower :: "string \<Rightarrow> string" where
  "to_lower = map (\<lambda>c. if 65 \<le> (of_char c :: nat) \<and> (of_char c :: nat) \<le> 90
                         then char_of ((of_char c :: nat) + 32) else c)"

definition trim_right_char :: "char \<Rightarrow> string \<Rightarrow> string" where
  "trim_right_char c s = rev (dropWhile (\<lambda>x. x = c) (rev s))"

definition trim_char :: "char \<Rightarrow> string \<Rightarrow> string" where
  "trim_char c s = trim_right_char c (dropWhile (\<lambda>x. x = c) s)"

text \<open>\<^verbatim>\<open>strings.Cut\<close> at a single byte, and the cut at the first \<open>=\<close> of the configuration parsers.\<close>

definition cut_at :: "char \<Rightarrow> string \<Rightarrow> (string \<times> string) option" where
  "cut_at c s = (if c \<in> set s then Some (takeWhile (\<lambda>x. x \<noteq> c) s, tl (dropWhile (\<lambda>x. x \<noteq> c) s)) else None)"

lemma cut_at_append [simp, go_str]: "c \<notin> set k \<Longrightarrow> cut_at c (k @ c # v) = Some (k, v)"
  by (induction k) (auto simp: cut_at_def)

lemma str_index_None: "str_index s t = None \<longleftrightarrow> (\<nexists>a b. s = a @ t @ b)"
proof (induction s)
  case (Cons x s)
  show ?case
  proof (cases "has_prefix (x # s) t")
    case True
    then show ?thesis by (auto simp: has_prefix_iff intro: exI [of _ "[]"])
  next
    case False
    have "(\<exists>a b. x # s = a @ t @ b) \<longleftrightarrow> (\<exists>a b. s = a @ t @ b)"
    proof
      assume "\<exists>a b. x # s = a @ t @ b"
      then obtain a b where ab: "x # s = a @ t @ b" by blast
      with False have "a \<noteq> []" by (auto simp: has_prefix_iff)
      with ab show "\<exists>a b. s = a @ t @ b" by (cases a) auto
    qed (metis append_Cons)
    with False Cons.IH show ?thesis by simp
  qed
qed simp

lemma contains_iff: "contains s t \<longleftrightarrow> (\<exists>a b. s = a @ t @ b)"
  using str_index_None [of s t] by (auto simp: contains_def)

lemma replace_all_absent: "\<not> contains s old \<Longrightarrow> replace_all s old new = s"
proof (induction s)
  case (Cons x s)
  have "\<not> contains s old"
    using Cons.prems unfolding contains_iff by (metis append_Cons)
  moreover have "\<not> has_prefix (x # s) old"
    using Cons.prems unfolding contains_iff has_prefix_iff by (metis append_Nil)
  ultimately show ?case using Cons.IH by simp
qed simp

lemma replace_first_absent: "\<not> contains s old \<Longrightarrow> replace_first s old new = s"
proof (induction s)
  case (Cons x s)
  have "\<not> contains s old"
    using Cons.prems unfolding contains_iff by (metis append_Cons)
  moreover have "\<not> has_prefix (x # s) old"
    using Cons.prems unfolding contains_iff has_prefix_iff by (metis append_Nil)
  ultimately show ?case using Cons.IH by simp
qed simp

lemma trim_right_char_append: "trim_right_char c (s @ [c]) = trim_right_char c s"
  by (simp add: trim_right_char_def)

lemma trim_right_char_id: "s = [] \<or> last s \<noteq> c \<Longrightarrow> trim_right_char c s = s"
  by (cases s rule: rev_cases) (auto simp: trim_right_char_def)

lemma trim_right_char_last: "trim_right_char c s \<noteq> [] \<Longrightarrow> last (trim_right_char c s) \<noteq> c"
proof -
  assume ne: "trim_right_char c s \<noteq> []"
  then have d: "dropWhile (\<lambda>x. x = c) (rev s) \<noteq> []" by (simp add: trim_right_char_def)
  then have "hd (dropWhile (\<lambda>x. x = c) (rev s)) \<noteq> c" by (rule hd_dropWhile)
  with d show ?thesis by (simp add: trim_right_char_def last_rev)
qed

end
