(* ===== verification/GoStrconv.thy ===== *)
theory GoStrconv
  imports GoStrings
begin

text \<open>
  The parts of Go's \<^verbatim>\<open>strconv\<close> the program uses: decimal printing (\<^verbatim>\<open>Itoa\<close>, \<^verbatim>\<open>%d\<close>), padding and \<^verbatim>\<open>ParseInt(s, 10, 64)\<close>
  (which \<^verbatim>\<open>Atoi\<close> equals on a 64-bit machine), with the value it returns beside the error: 0 after a
  syntax error, the nearest bound after a range error.  The round-trip lemma says that parsing what was
  printed gives the number back.
\<close>

section \<open>Printing\<close>

definition digit :: "nat \<Rightarrow> char" where
  "digit d = char_of (48 + d)"

fun nat_str :: "nat \<Rightarrow> string" where
  "nat_str n = (if n < 10 then [digit n] else nat_str (n div 10) @ [digit (n mod 10)])"

declare nat_str.simps [simp del]

definition itoa :: "int \<Rightarrow> string" where
  "itoa i = (if i < 0 then CHR ''-'' # nat_str (nat (- i)) else nat_str (nat i))"

text \<open>\<^verbatim>\<open>%-40s\<close> and its like fill with blanks on the right, counting the characters of a UTF-8 text.\<close>

definition rune_count :: "string \<Rightarrow> nat" where
  "rune_count s = length (filter (\<lambda>c. (of_char c :: nat) < 128 \<or> 192 \<le> (of_char c :: nat)) s)"

definition pad_right :: "nat \<Rightarrow> string \<Rightarrow> string" where
  "pad_right n s = s @ replicate (n - rune_count s) CHR '' ''"

section \<open>Parsing\<close>

datatype num_error = ErrSyntax | ErrRange

definition is_digit :: "char \<Rightarrow> bool" where
  "is_digit c \<longleftrightarrow> 48 \<le> (of_char c :: nat) \<and> (of_char c :: nat) \<le> 57"

definition digit_val :: "char \<Rightarrow> nat" where
  "digit_val c = of_char c - 48"

text \<open>\<^verbatim>\<open>ParseUint\<close>: the range error is raised at the digit that overflows, before the rest is read.\<close>

fun parse_digits :: "nat \<Rightarrow> string \<Rightarrow> num_error + nat" where
  "parse_digits acc [] = Inr acc"
| "parse_digits acc (c # s) =
     (if \<not> is_digit c then Inl ErrSyntax
      else (let n = acc * 10 + digit_val c in
            if 2 ^ 64 \<le> n then Inl ErrRange else parse_digits n s))"

definition parse_uint64 :: "string \<Rightarrow> num_error + nat" where
  "parse_uint64 s = (if s = [] then Inl ErrSyntax else parse_digits 0 s)"

definition parse_int64 :: "string \<Rightarrow> int \<times> num_error option" where
  "parse_int64 s =
     (let neg = has_prefix s ''-'';
          body = (if neg \<or> has_prefix s ''+'' then tl s else s)
      in case parse_uint64 body of
           Inl ErrSyntax \<Rightarrow> (0, Some ErrSyntax)
         | Inl ErrRange \<Rightarrow> (if neg then - (2 ^ 63) else 2 ^ 63 - 1, Some ErrRange)
         | Inr n \<Rightarrow>
             if \<not> neg \<and> 2 ^ 63 \<le> n then (2 ^ 63 - 1, Some ErrRange)
             else if neg \<and> 2 ^ 63 < n then (- (2 ^ 63), Some ErrRange)
             else (if neg then - int n else int n, None))"

definition atoi :: "string \<Rightarrow> int option" where
  "atoi s = (case parse_int64 s of (n, None) \<Rightarrow> Some n | (_, Some _) \<Rightarrow> None)"

section \<open>Round trip\<close>

lemma of_char_digit [simp]: "d < 10 \<Longrightarrow> (of_char (digit d) :: nat) = 48 + d"
  by (simp add: digit_def)

lemma digit_props [simp]: "d < 10 \<Longrightarrow> is_digit (digit d) \<and> digit_val (digit d) = d \<and> printable (digit d)"
  by (simp add: is_digit_def digit_val_def printable_def)

lemma is_digit_printable: "is_digit c \<Longrightarrow> printable c"
  by (simp add: is_digit_def printable_def)

lemma nat_str_digits: "list_all is_digit (nat_str n) \<and> nat_str n \<noteq> []"
proof (induction n rule: nat_str.induct)
  case (1 n)
  then show ?case by (subst (1 2) nat_str.simps) auto
qed

lemma word_like_nat_str [simp]: "word_like (nat_str n)"
  using nat_str_digits [of n] by (auto simp: word_like_def list_all_iff is_digit_printable)

lemma parse_digits_append:
  "parse_digits acc s = Inr m \<Longrightarrow> parse_digits acc (s @ t) = parse_digits m t"
  by (induction acc s rule: parse_digits.induct) (auto simp: Let_def split: if_splits)

lemma parse_digits_nat_str: "n < 2 ^ 64 \<Longrightarrow> parse_digits 0 (nat_str n) = Inr n"
proof (induction n rule: nat_str.induct)
  case (1 n)
  show ?case
  proof (cases "n < 10")
    case True
    then show ?thesis by (subst nat_str.simps) simp
  next
    case False
    have "parse_digits 0 (nat_str (n div 10)) = Inr (n div 10)"
      using 1 False by simp
    moreover have "n div 10 * 10 + n mod 10 = n" by simp
    ultimately show ?thesis
      using False 1(2) by (subst nat_str.simps) (simp add: parse_digits_append)
  qed
qed

lemma nat_str_hd: "\<exists>c s. nat_str n = c # s \<and> is_digit c"
  using nat_str_digits [of n] by (cases "nat_str n") auto

lemma is_digit_not_sign: "is_digit c \<Longrightarrow> c \<noteq> CHR ''-'' \<and> c \<noteq> CHR ''+''"
  by (auto simp: is_digit_def)

lemma parse_int64_itoa: "in_i64 i \<Longrightarrow> parse_int64 (itoa i) = (i, None)"
proof -
  assume r: "in_i64 i"
  have u: "parse_uint64 (nat_str (nat \<bar>i\<bar>)) = Inr (nat \<bar>i\<bar>)"
    using r parse_digits_nat_str [of "nat \<bar>i\<bar>"] nat_str_digits [of "nat \<bar>i\<bar>"]
    by (auto simp: parse_uint64_def in_i64_def)
  show ?thesis
  proof (cases "i < 0")
    case True
    then show ?thesis using u r by (simp add: parse_int64_def itoa_def in_i64_def Let_def)
  next
    case False
    then obtain c s where cs: "nat_str (nat i) = c # s" "is_digit c" using nat_str_hd by blast
    then show ?thesis using u r False is_digit_not_sign [of c]
      by (auto simp: parse_int64_def itoa_def in_i64_def Let_def)
  qed
qed

lemma atoi_itoa [simp]: "in_i64 i \<Longrightarrow> atoi (itoa i) = Some i"
  by (simp add: atoi_def parse_int64_itoa)

lemma parse_int64_in_range: "in_i64 (fst (parse_int64 s))"
  by (auto simp: parse_int64_def in_i64_def Let_def split: sum.splits num_error.splits)

end
