(* ===== verification/GoTime.thy ===== *)
theory GoTime
  imports GoStrconv
begin

text \<open>
  Time as the program uses it: an instant is the number of nanoseconds since the Unix epoch, in UTC.
  \<open>format_rfc3339\<close> is \<^verbatim>\<open>Format(time.RFC3339)\<close> of a UTC instant, \<open>parse_rfc3339\<close> is
  \<^verbatim>\<open>time.Parse(time.RFC3339, s)\<close> with what that parser accepts beyond the strict syntax (a one-digit
  hour, a fraction after \<^verbatim>\<open>.\<close> or \<^verbatim>\<open>,\<close>), and \<open>add_days\<close> is \<^verbatim>\<open>AddDate(0, 0, d)\<close>.  Dates are computed
  with years that start in March, so that the leap day is the last day of a year; the round-trip lemma
  shows that a stored expiry is read back as the second it was written for.
\<close>

section \<open>Calendar\<close>

definition days_from_civil :: "int \<Rightarrow> int \<Rightarrow> int \<Rightarrow> int" where
  "days_from_civil y m d =
     (let y' = (if m \<le> 2 then y - 1 else y);
          era = y' div 400;
          yoe = y' mod 400;
          doy = (153 * ((m + 9) mod 12) + 2) div 5 + d - 1
      in era * 146097 + (yoe * 365 + yoe div 4 - yoe div 100 + doy) - 719468)"

definition civil_from_days :: "int \<Rightarrow> int \<times> int \<times> int" where
  "civil_from_days z =
     (let z' = z + 719468;
          era = z' div 146097;
          doe = z' mod 146097;
          c = doe div 36524 - doe div 36524 div 4;
          d1 = doe - 36524 * c;
          q = d1 div 1461;
          d2 = d1 mod 1461;
          r = d2 div 365 - d2 div 365 div 4;
          doy = d2 - 365 * r;
          mp = (5 * doy + 2) div 153;
          m = (if mp < 10 then mp + 3 else mp - 9);
          y = era * 400 + 100 * c + 4 * q + r
      in (if m \<le> 2 then y + 1 else y, m, doy - (153 * mp + 2) div 5 + 1))"

definition is_leap :: "int \<Rightarrow> bool" where
  "is_leap y \<longleftrightarrow> y mod 4 = 0 \<and> (y mod 100 \<noteq> 0 \<or> y mod 400 = 0)"

definition days_in :: "int \<Rightarrow> int \<Rightarrow> int" where
  "days_in m y =
     (if m = 2 then (if is_leap y then 29 else 28)
      else if m \<in> {4, 6, 9, 11} then 30 else 31)"

text \<open>The pieces of \<open>civil_from_days\<close> and their ranges.\<close>

lemma era_parts:
  fixes doe :: int
  assumes "0 \<le> doe" and "doe < 146097"
  defines "c \<equiv> doe div 36524 - doe div 36524 div 4"
  defines "d1 \<equiv> doe - 36524 * c"
  defines "q \<equiv> d1 div 1461"
  defines "d2 \<equiv> d1 mod 1461"
  defines "r \<equiv> d2 div 365 - d2 div 365 div 4"
  defines "doy \<equiv> d2 - 365 * r"
  shows "0 \<le> c" "c < 4" "0 \<le> q" "q < 25" "0 \<le> r" "r < 4" "0 \<le> doy" "doy < 366"
    and "doe = 36524 * c + 1461 * q + 365 * r + doy"
proof -
  show c0: "0 \<le> c" and c4: "c < 4" using assms(1,2) unfolding c_def by linarith+
  have "doe div 36524 = c \<or> c = 3 \<and> doe = 146096"
    using assms(1,2) unfolding c_def by linarith
  then have d1: "0 \<le> d1" "d1 \<le> 36524"
    using assms(1,2) unfolding d1_def by auto
  then show "0 \<le> q" and q: "q < 25" unfolding q_def by linarith+
  have d2: "0 \<le> d2" "d2 < 1461" unfolding d2_def by simp_all
  then show r0: "0 \<le> r" and r4: "r < 4" unfolding r_def by linarith+
  have "d2 div 365 = r \<or> r = 3 \<and> d2 = 1460"
    using d2 unfolding r_def by linarith
  then show "0 \<le> doy" "doy < 366"
    using d2 unfolding doy_def by auto
  show "doe = 36524 * c + 1461 * q + 365 * r + doy"
    unfolding doy_def d2_def q_def d1_def by simp
qed

lemma year_of_era:
  fixes c q r :: int
  assumes "0 \<le> c" "c < 4" "0 \<le> q" "q < 25" "0 \<le> r" "r < 4"
  defines "yoe \<equiv> 100 * c + 4 * q + r"
  shows "yoe div 100 = c" "yoe div 4 = 25 * c + q" "0 \<le> yoe" "yoe < 400"
proof -
  show "yoe div 100 = c" using assms unfolding yoe_def by linarith
  show "yoe div 4 = 25 * c + q" "0 \<le> yoe" "yoe < 400"
    using assms unfolding yoe_def by linarith+
qed


lemma month_parts:
  fixes doy :: int
  assumes "0 \<le> doy" and "doy < 366"
  defines "mp \<equiv> (5 * doy + 2) div 153"
  defines "m \<equiv> if mp < 10 then mp + 3 else mp - 9"
  defines "d \<equiv> doy - (153 * mp + 2) div 5 + 1"
  shows "1 \<le> m" "m \<le> 12" "(m + 9) mod 12 = mp" "1 \<le> d"
    and "d \<le> (if m = 2 then (if doy = 365 then 29 else 28) else if m \<in> {4, 6, 9, 11} then 30 else 31)"
proof -
  have mp: "0 \<le> mp" "mp < 12" using assms(1,2) unfolding mp_def by linarith+
  then have cases: "mp \<in> {0, 1, 2, 3, 4, 5, 6, 7, 8, 9, 10, 11}"
    unfolding insert_iff empty_iff by presburger
  show "1 \<le> m" "m \<le> 12" "(m + 9) mod 12 = mp" using cases unfolding m_def by auto
  have doy: "153 * mp \<le> 5 * doy + 2" "5 * doy + 2 < 153 * mp + 153" unfolding mp_def by linarith+
  then show "1 \<le> d" unfolding d_def by linarith
  show "d \<le> (if m = 2 then (if doy = 365 then 29 else 28) else if m \<in> {4, 6, 9, 11} then 30 else 31)"
    using cases doy assms(2) unfolding m_def d_def by auto
qed

lemma civil_from_days_correct:
  assumes "civil_from_days z = (y, m, d)"
  shows "days_from_civil y m d = z" and "1 \<le> m" "m \<le> 12" "1 \<le> d" "d \<le> days_in m y"
proof -
  define doe where "doe = (z + 719468) mod 146097"
  define c where "c = doe div 36524 - doe div 36524 div 4"
  define d1 where "d1 = doe - 36524 * c"
  define q where "q = d1 div 1461"
  define d2 where "d2 = d1 mod 1461"
  define r where "r = d2 div 365 - d2 div 365 div 4"
  define doy where "doy = d2 - 365 * r"
  define mp where "mp = (5 * doy + 2) div 153"
  define era where "era = (z + 719468) div 146097"
  define Y where "Y = era * 400 + 100 * c + 4 * q + r"
  have doe: "0 \<le> doe" "doe < 146097" unfolding doe_def by simp_all
  note E = era_parts [OF doe, folded c_def, folded d1_def, folded q_def d2_def, folded r_def,
      folded doy_def]
  have eq: "civil_from_days z = (if (if mp < 10 then mp + 3 else mp - 9) \<le> 2 then Y + 1 else Y,
      if mp < 10 then mp + 3 else mp - 9, doy - (153 * mp + 2) div 5 + 1)"
    unfolding civil_from_days_def Let_def doe_def c_def d1_def q_def d2_def r_def doy_def mp_def
      era_def Y_def by (rule refl)
  have m: "m = (if mp < 10 then mp + 3 else mp - 9)"
    and d: "d = doy - (153 * mp + 2) div 5 + 1"
    using trans [OF sym [OF assms] eq] by (simp_all only: prod.inject)
  have y: "y = (if m \<le> 2 then Y + 1 else Y)"
    unfolding m using trans [OF sym [OF assms] eq] by (simp only: prod.inject)
  note M = month_parts [OF E(7,8), folded mp_def, folded m d]
  note yoe = year_of_era [OF E(1,2,3,4,5,6)]
  show m1: "1 \<le> m" and "m \<le> 12" and "1 \<le> d" using M by simp_all
  have Y': "(if m \<le> 2 then y - 1 else y) = Y" by (simp add: y)
  have Ye: "Y div 400 = era" using yoe(3,4) unfolding Y_def by linarith
  have "400 * (Y div 400) + Y mod 400 = Y" by (rule mult_div_mod_eq)
  then have Ym: "Y mod 400 = 100 * c + 4 * q + r" using Ye Y_def by linarith
  have "days_from_civil y m d =
      era * 146097 + ((100 * c + 4 * q + r) * 365 + (25 * c + q) - c + doy) - 719468"
    unfolding days_from_civil_def Let_def Y' Ye Ym yoe M(3) d by simp
  also have "\<dots> = era * 146097 + doe - 719468" using E(9) by simp
  also have "\<dots> = z" unfolding era_def doe_def by simp
  finally show "days_from_civil y m d = z" .
  have leap: "is_leap (Y + 1)" if "doy = 365"
  proof -
    have d2: "0 \<le> d2" "d2 < 1461" unfolding d2_def by simp_all
    have "d2 div 365 = r \<or> r = 3 \<and> d2 = 1460" using d2 unfolding r_def by linarith
    moreover have "d2 div 365 \<noteq> r" using that d2 unfolding doy_def by linarith
    ultimately have r: "r = 3" "d2 = 1460" by simp_all
    have d1: "d1 = 1461 * q + 1460" using r(2) unfolding q_def d2_def by (metis mult_div_mod_eq)
    have "doe div 36524 = c \<or> c = 3 \<and> doe = 146096"
      using doe unfolding c_def by linarith
    moreover have "q < 24" if "doe div 36524 = c" using that d1 doe unfolding d1_def by linarith
    ultimately have "q < 24 \<or> c = 3" by blast
    have Y1: "Y + 1 = 4 * (era * 100 + 25 * c + q + 1)" unfolding Y_def r(1) by simp
    have "(Y + 1) mod 4 = 0" unfolding Y1 by simp
    moreover have "(Y + 1) mod 400 = 0" if "c = 3" "q = 24" using that unfolding Y1 by simp
    moreover have "(Y + 1) mod 100 \<noteq> 0" if "q < 24"
    proof -
      have "Y + 1 = (era * 4 + c) * 100 + (4 * q + 4)" unfolding Y1 by simp
      then have "(Y + 1) mod 100 = (4 * q + 4) mod 100" by (simp only: mod_mult_self3)
      also have "\<dots> = 4 * q + 4" using that E(3) by (intro mod_pos_pos_trivial) linarith+
      finally show ?thesis using E(3) by simp
    qed
    moreover note \<open>q < 24 \<or> c = 3\<close> E(4)
    ultimately show ?thesis unfolding is_leap_def by fastforce
  qed
  show "d \<le> days_in m y"
    using M(5) leap m1 unfolding days_in_def y by (auto split: if_splits)
qed

section \<open>RFC 3339 text\<close>

text \<open>\<^verbatim>\<open>appendInt\<close>: at least \<open>w\<close> digits, the sign in front.\<close>

definition pad :: "nat \<Rightarrow> int \<Rightarrow> string" where
  "pad w n =
     (let s = nat_str (nat \<bar>n\<bar>)
      in (if n < 0 then ''-'' else []) @ replicate (w - length s) (CHR ''0'') @ s)"

definition second :: int where "second = 1000000000"
definition day_secs :: int where "day_secs = 86400"

definition format_rfc3339 :: "int \<Rightarrow> string" where
  "format_rfc3339 t =
     (let s = t div second;
          days = s div day_secs;
          sod = s mod day_secs;
          (y, m, d) = civil_from_days days
      in pad 4 y @ ''-'' @ pad 2 m @ ''-'' @ pad 2 d @ ''T'' @
         pad 2 (sod div 3600) @ '':'' @ pad 2 (sod div 60 mod 60) @ '':'' @ pad 2 (sod mod 60) @ ''Z'')"

text \<open>The steps of the parser: a literal, and a number of one or two digits.\<close>

fun lit :: "char \<Rightarrow> string \<Rightarrow> string option" where
  "lit c [] = None"
| "lit c (x # s) = (if x = c then Some s else None)"

definition dig :: "char \<Rightarrow> int" where "dig c = int (digit_val c)"

fun getnum :: "bool \<Rightarrow> string \<Rightarrow> (int \<times> string) option" where
  "getnum fixed [] = None"
| "getnum fixed [a] = (if \<not> is_digit a \<or> fixed then None else Some (dig a, []))"
| "getnum fixed (a # b # s) =
     (if \<not> is_digit a then None
      else if \<not> is_digit b then (if fixed then None else Some (dig a, b # s))
      else Some (dig a * 10 + dig b, s))"

fun get_year :: "string \<Rightarrow> (int \<times> string) option" where
  "get_year (a # b # c # d # s) =
     (if is_digit a \<and> is_digit b \<and> is_digit c \<and> is_digit d
      then Some (dig a * 1000 + dig b * 100 + dig c * 10 + dig d, s) else None)"
| "get_year _ = None"

text \<open>The optional fraction after the seconds, cut to nanoseconds.\<close>

fun frac_value :: "nat \<Rightarrow> string \<Rightarrow> int" where
  "frac_value 0 s = 0"
| "frac_value (Suc n) [] = 0"
| "frac_value (Suc n) (c # s) = dig c * 10 ^ n + frac_value n s"

definition get_frac :: "string \<Rightarrow> int \<times> string" where
  "get_frac s =
     (case s of
        p # c # r \<Rightarrow>
          if (p = CHR ''.'' \<or> p = CHR '','') \<and> is_digit c
          then (frac_value 9 (takeWhile is_digit (c # r)), dropWhile is_digit (c # r))
          else (0, s)
      | _ \<Rightarrow> (0, s))"

text \<open>\<^verbatim>\<open>Z07:00\<close>: the offset in seconds, and nothing may follow it.\<close>

definition get_zone :: "string \<Rightarrow> int option" where
  "get_zone s =
     (if s = ''Z'' then Some 0
      else case s of
        [sg, h1, h2, c, m1, m2] \<Rightarrow>
          (if c \<noteq> CHR '':'' then None
           else case (getnum True [h1, h2], getnum True [m1, m2]) of
             (Some (h, _), Some (m, _)) \<Rightarrow>
               if h > 24 \<or> m > 60 then None
               else if sg = CHR ''+'' then Some ((h * 60 + m) * 60)
               else if sg = CHR ''-'' then Some (- ((h * 60 + m) * 60))
               else None
           | _ \<Rightarrow> None)
      | _ \<Rightarrow> None)"

definition bounded :: "int \<Rightarrow> int \<Rightarrow> (int \<times> string) option \<Rightarrow> (int \<times> string) option" where
  "bounded lo hi r = (case r of Some (n, s) \<Rightarrow> if lo \<le> n \<and> n \<le> hi then r else None | None \<Rightarrow> None)"

definition parse_date :: "string \<Rightarrow> ((int \<times> int \<times> int) \<times> string) option" where
  "parse_date s0 =
     Option.bind (get_year s0) (\<lambda>(y, s1).
     Option.bind (lit CHR ''-'' s1) (\<lambda>s2.
     Option.bind (bounded 1 12 (getnum True s2)) (\<lambda>(m, s3).
     Option.bind (lit CHR ''-'' s3) (\<lambda>s4.
     Option.bind (getnum True s4) (\<lambda>(d, s5). Some ((y, m, d), s5))))))"

definition parse_clock :: "string \<Rightarrow> (int \<times> string) option" where
  "parse_clock s0 =
     Option.bind (lit CHR ''T'' s0) (\<lambda>s1.
     Option.bind (bounded 0 23 (getnum False s1)) (\<lambda>(h, s2).
     Option.bind (lit CHR '':'' s2) (\<lambda>s3.
     Option.bind (bounded 0 59 (getnum True s3)) (\<lambda>(mi, s4).
     Option.bind (lit CHR '':'' s4) (\<lambda>s5.
     Option.bind (bounded 0 59 (getnum True s5)) (\<lambda>(sec, s6). Some (h * 3600 + mi * 60 + sec, s6)))))))"

definition parse_rfc3339 :: "string \<Rightarrow> int option" where
  "parse_rfc3339 s0 =
     Option.bind (parse_date s0) (\<lambda>((y, m, d), s1).
     Option.bind (parse_clock s1) (\<lambda>(sod, s2).
       let (ns, s3) = get_frac s2
       in Option.bind (get_zone s3) (\<lambda>off.
            if 1 \<le> d \<and> d \<le> days_in m y
            then Some ((days_from_civil y m d * day_secs + sod - off) * second + ns)
            else None)))"

definition add_days :: "int \<Rightarrow> int \<Rightarrow> int" where
  "add_days t d = t + d * day_secs * second"

text \<open>\<^verbatim>\<open>AddDate(n, 0, 0)\<close>: the same day of a later year; a leap day that year does not have is the first of March.\<close>

definition add_years :: "int \<Rightarrow> int \<Rightarrow> int" where
  "add_years t n =
     (let days = t div (day_secs * second); (y, m, d) = civil_from_days days
      in days_from_civil (y + n) m d * day_secs * second + t mod (day_secs * second))"

section \<open>A later year is later\<close>

lemma days_from_civil_later:
  assumes "1 \<le> n"
  shows "days_from_civil y m d + 365 \<le> days_from_civil (y + n) m d"
proof -
  have flat: "era * 146097 + (yoe * 365 + yoe div 4 - yoe div 100 + x) = 365 * z + z div 4 - z div 100 + z div 400 + x"
    if "era = z div 400" "yoe = z mod 400" for era yoe z x :: int
  proof -
    have z: "z = 400 * era + yoe" using that mult_div_mod_eq [of 400 z] by simp
    have "z div 4 = 100 * era + yoe div 4" "z div 100 = 4 * era + yoe div 100" unfolding z by linarith+
    moreover have "z div 400 = era" by (simp add: that(1))
    ultimately show ?thesis using z by linarith
  qed
  have mono: "z div 4 - z div 100 + z div 400 \<le> (z + n) div 4 - (z + n) div 100 + (z + n) div 400" for z
  proof -
    have 1: "z div 400 \<le> (z + n) div 400" "z div 4 \<le> (z + n) div 4" using assms by (auto intro: zdiv_mono1)
    have 2: "b div 25 - a div 25 \<le> b - a" if "a \<le> b" for a b :: int using that by linarith
    have 3: "z div 100 = z div 4 div 25" "(z + n) div 100 = (z + n) div 4 div 25"
      using zdiv_zmult2_eq [of 25 z 4] zdiv_zmult2_eq [of 25 "z + n" 4] by simp_all
    show ?thesis unfolding 3 using 1(1) 2 [OF 1(2)] by linarith
  qed
  have "365 * z + z div 4 - z div 100 + z div 400 + 365 \<le>
      365 * (z + n) + (z + n) div 4 - (z + n) div 100 + (z + n) div 400" for z
  proof -
    have "365 * z + a1 - a2 + a3 + 365 \<le> 365 * (z + n) + b1 - b2 + b3"
      if "a1 - a2 + a3 \<le> b1 - b2 + b3" for a1 a2 a3 b1 b2 b3 :: int using that assms by simp
    from this [OF mono] show ?thesis .
  qed
  note later = this [of "if m \<le> 2 then y - 1 else y"]
  have day: "days_from_civil v m d = 365 * (if m \<le> 2 then v - 1 else v) + (if m \<le> 2 then v - 1 else v) div 4 -
      (if m \<le> 2 then v - 1 else v) div 100 + (if m \<le> 2 then v - 1 else v) div 400 +
      ((153 * ((m + 9) mod 12) + 2) div 5 + d - 1) - 719468" for v
    unfolding days_from_civil_def Let_def flat [OF refl refl] by (rule refl)
  have "(if m \<le> 2 then y + n - 1 else y + n) = (if m \<le> 2 then y - 1 else y) + n" by simp
  moreover have "a + x - k + 365 \<le> b + x - k" if "a + 365 \<le> b" for a b x k :: int using that by linarith
  ultimately show ?thesis unfolding day using later by (simp only:)
qed

lemma add_years_later:
  assumes "1 \<le> n"
  shows "t + 365 * day_secs * second \<le> add_years t n"
proof -
  let ?u = "day_secs * second"
  obtain y m d where c: "civil_from_days (t div ?u) = (y, m, d)" by (metis prod_cases3)
  have "(t div ?u + 365) * ?u \<le> days_from_civil (y + n) m d * ?u"
    using days_from_civil_later [OF assms, of y m d] civil_from_days_correct(1) [OF c]
    by (intro mult_right_mono) (simp_all add: day_secs_def second_def)
  moreover have "t = t div ?u * ?u + t mod ?u" by (rule div_mult_mod_eq [symmetric])
  ultimately show ?thesis unfolding add_years_def Let_def c by (simp add: algebra_simps)
qed
section \<open>Round trip\<close>

lemma nat_str_small: "n < 10 \<Longrightarrow> nat_str n = [digit n]"
  by (subst nat_str.simps) simp

lemma nat_str_step: "10 \<le> n \<Longrightarrow> nat_str n = nat_str (n div 10) @ [digit (n mod 10)]"
  by (subst nat_str.simps) simp

lemma dig_digit: "0 \<le> n \<Longrightarrow> n < 10 \<Longrightarrow> dig (digit (nat n)) = n \<and> is_digit (digit (nat n))"
  by (simp add: dig_def)

lemma digit_0: "digit 0 = CHR ''0''"
  by code_simp

lemma replicate_3: "replicate 3 x = [x, x, x]" "replicate 2 x = [x, x]"
  by (simp_all add: numeral_3_eq_3 numeral_2_eq_2)

lemma pad_2:
  assumes "0 \<le> n" "n < 100"
  shows "pad 2 n = [digit (nat (n div 10)), digit (nat (n mod 10))]"
proof (cases "n < 10")
  case True
  with assms show ?thesis by (simp add: pad_def nat_str_small digit_0)
next
  case False
  with assms show ?thesis
    by (simp add: pad_def nat_str_small nat_str_step nat_div_distrib nat_mod_distrib)
qed

lemma pad_4_nat:
  assumes "k < 10000"
  shows "pad 4 (int k) = [digit (k div 1000), digit (k div 100 mod 10), digit (k div 10 mod 10), digit (k mod 10)]"
proof -
  have step: "k div 100 = k div 10 div 10" "k div 1000 = k div 10 div 10 div 10"
    by (simp_all add: div_mult2_eq [symmetric])
  consider "k < 10" | "10 \<le> k" "k < 100" | "100 \<le> k" "k < 1000" | "1000 \<le> k" by linarith
  then show ?thesis
  proof cases
    case 1
    then show ?thesis by (simp add: pad_def nat_str_small digit_0 replicate_3)
  next
    case 2
    then show ?thesis by (simp add: pad_def nat_str_small nat_str_step digit_0 replicate_3)
  next
    case 3
    then have "10 \<le> k div 10" "k div 10 div 10 < 10" by linarith+
    with 3 show ?thesis by (simp add: pad_def nat_str_small nat_str_step digit_0 step)
  next
    case 4
    with assms have "10 \<le> k div 10" "10 \<le> k div 10 div 10" "k div 10 div 10 div 10 < 10" by linarith+
    with 4 show ?thesis by (simp add: pad_def nat_str_small nat_str_step step)
  qed
qed

lemma pad_4:
  assumes "0 \<le> n" "n < 10000"
  shows "pad 4 n = [digit (nat (n div 1000)), digit (nat (n div 100 mod 10)),
    digit (nat (n div 10 mod 10)), digit (nat (n mod 10))]"
  using pad_4_nat [of "nat n"] assms by (simp add: nat_div_distrib nat_mod_distrib)

lemma getnum_pad_2: "0 \<le> n \<Longrightarrow> n < 100 \<Longrightarrow> getnum fixed (pad 2 n @ s) = Some (n, s)"
  using dig_digit [of "n div 10"] dig_digit [of "n mod 10"] by (simp add: pad_2)

lemma get_year_pad_4:
  assumes "0 \<le> n" "n < 10000"
  shows "get_year (pad 4 n @ s) = Some (n, s)"
proof -
  have r: "0 \<le> n div 1000" "n div 1000 < 10" "0 \<le> n div 100 mod 10" "n div 100 mod 10 < 10"
    "0 \<le> n div 10 mod 10" "n div 10 mod 10 < 10" "0 \<le> n mod 10" "n mod 10 < 10"
    using assms by simp_all
  have "n div 100 = n div 10 div 10" "n div 1000 = n div 100 div 10"
    by (simp_all add: zdiv_zmult2_eq [symmetric])
  then have "n div 1000 * 1000 + n div 100 mod 10 * 100 + n div 10 mod 10 * 10 + n mod 10 = n"
    using mult_div_mod_eq [of 10 n] mult_div_mod_eq [of 10 "n div 10"] mult_div_mod_eq [of 10 "n div 100"]
    by linarith
  moreover note dig_digit [of "n div 1000", OF r(1,2)] dig_digit [of "n div 100 mod 10", OF r(3,4)]
    dig_digit [of "n div 10 mod 10", OF r(5,6)] dig_digit [of "n mod 10", OF r(7,8)]
  ultimately show ?thesis unfolding pad_4 [OF assms] append.simps get_year.simps by metis
qed

definition year_of :: "int \<Rightarrow> int" where
  "year_of t = fst (civil_from_days (t div second div day_secs))"

lemma clock_split:
  fixes sod :: int
  assumes "0 \<le> sod" "sod < 86400"
  shows "0 \<le> sod div 3600" "sod div 3600 < 24" "sod div 3600 * 3600 + sod div 60 mod 60 * 60 + sod mod 60 = sod"
proof -
  show "0 \<le> sod div 3600" "sod div 3600 < 24" using assms by linarith+
  have "sod div 3600 = sod div 60 div 60" by (simp add: zdiv_zmult2_eq [symmetric])
  then show "sod div 3600 * 3600 + sod div 60 mod 60 * 60 + sod mod 60 = sod"
    using mult_div_mod_eq [of 60 sod] mult_div_mod_eq [of 60 "sod div 60"] by linarith
qed

lemma parse_clock_pads:
  assumes "0 \<le> h" "h < 24" "0 \<le> mi" "mi < 60" "0 \<le> sec" "sec < 60"
  shows "parse_clock (''T'' @ pad 2 h @ '':'' @ pad 2 mi @ '':'' @ pad 2 sec @ r) =
    Some (h * 3600 + mi * 60 + sec, r)"
  using assms by (simp add: parse_clock_def getnum_pad_2 bounded_def)

theorem parse_format_rfc3339:
  assumes "0 \<le> year_of t" "year_of t \<le> 9999"
  shows "parse_rfc3339 (format_rfc3339 t) = Some (t div second * second)"
proof -
  define s where "s = t div second"
  define sod where "sod = s mod day_secs"
  obtain y m d where c: "civil_from_days (s div day_secs) = (y, m, d)" by (cases "civil_from_days (s div day_secs)")
  have y: "0 \<le> y" "y < 10000" using assms c by (simp_all add: year_of_def s_def)
  note C = civil_from_days_correct [OF c]
  have d: "d < 100" using C(5) by (auto simp: days_in_def split: if_splits)
  have sod: "0 \<le> sod" "sod < 86400" by (simp_all add: sod_def day_secs_def)
  note S = clock_split [OF sod]
  let ?clock = "''T'' @ pad 2 (sod div 3600) @ '':'' @ pad 2 (sod div 60 mod 60) @ '':'' @ pad 2 (sod mod 60) @ ''Z''"
  have f: "format_rfc3339 t = pad 4 y @ ''-'' @ pad 2 m @ ''-'' @ pad 2 d @ ?clock"
    using c by (simp add: format_rfc3339_def Let_def s_def sod_def)
  have date: "parse_date (pad 4 y @ ''-'' @ pad 2 m @ ''-'' @ pad 2 d @ r) = Some ((y, m, d), r)" for r
    using y C(2,3,4) d by (simp add: parse_date_def get_year_pad_4 getnum_pad_2 bounded_def)
  have "parse_date (format_rfc3339 t) = Some ((y, m, d), ?clock)" unfolding f by (rule date)
  moreover have "parse_clock ?clock = Some (sod, ''Z'')"
    using parse_clock_pads [OF S(1,2), of "sod div 60 mod 60" "sod mod 60" "''Z''"] S(3) by simp
  moreover have "days_from_civil y m d * day_secs + sod = s"
    unfolding C(1) sod_def by simp
  ultimately show ?thesis
    using C(4,5) by (simp add: parse_rfc3339_def get_frac_def get_zone_def s_def)
qed

end
