(* ===== verification/Types.thy ===== *)
theory Types
  imports GoStrconv
begin

text \<open>
  The two structs every component passes around, with the fields and the names of main.go: \<^verbatim>\<open>Config\<close>
  (the JSON configuration file) and \<^verbatim>\<open>Peer\<close> (a user: WireGuard identity, OpenVPN identity, quota and
  usage).  Byte counters are Go \<^verbatim>\<open>int64\<close> values, kept as \<open>int\<close>.
\<close>

record config =
  Interface :: string
  WGConf :: string
  Params :: string
  DBPath :: string
  ClientsDir :: string
  APIListen :: string
  APIToken :: string
  BasePath :: string
  TLSCert :: string
  TLSKey :: string
  IntervalS :: int
  IPSet :: string
  AdminUser :: string
  AdminPassHash :: string
  OvpnMgmt :: string
  OvpnStatus :: string
  OvpnDir :: string
  OvpnSubnet :: string
  OvpnPort :: string
  OvpnProto :: string
  OvpnEndpoint :: string
  OvpnDNS :: string
  OvpnUser :: string
  OvpnGroup :: string
  OvpnMSSFix :: string
  OvpnTunMTU :: string

record peer =
  ID :: int
  Username :: string
  PublicKey :: string
  PrivateKey :: string
  PSK :: string
  Address :: string
  QuotaBytes :: int
  UsedBytes :: int
  LastRx :: int
  LastTx :: int
  ExpiresAt :: string
  Enabled :: bool
  Blocked :: bool
  OvpnCN :: string
  OvpnIP :: string
  OvpnEnabled :: bool
  UsedOvpnBytes :: int
  LastOvpnBytes :: int
  OvpnCert :: string
  OvpnKey :: string

text \<open>Go's zero values, the starting point of struct literals that name only some fields.\<close>

definition zero_config :: config where
  "zero_config = \<lparr>Interface = [], WGConf = [], Params = [], DBPath = [], ClientsDir = [],
     APIListen = [], APIToken = [], BasePath = [], TLSCert = [], TLSKey = [], IntervalS = 0,
     IPSet = [], AdminUser = [], AdminPassHash = [], OvpnMgmt = [], OvpnStatus = [], OvpnDir = [],
     OvpnSubnet = [], OvpnPort = [], OvpnProto = [], OvpnEndpoint = [], OvpnDNS = [], OvpnUser = [],
     OvpnGroup = [], OvpnMSSFix = [], OvpnTunMTU = []\<rparr>"

text \<open>The column defaults of the \<^verbatim>\<open>peers\<close> table (main.go, \<^verbatim>\<open>openDB\<close>): enabled, everything else empty.\<close>

definition default_row :: peer where
  "default_row = \<lparr>ID = 0, Username = [], PublicKey = [], PrivateKey = [], PSK = [], Address = [],
     QuotaBytes = 0, UsedBytes = 0, LastRx = 0, LastTx = 0, ExpiresAt = [], Enabled = True,
     Blocked = False, OvpnCN = [], OvpnIP = [], OvpnEnabled = False, UsedOvpnBytes = 0,
     LastOvpnBytes = 0, OvpnCert = [], OvpnKey = []\<rparr>"

end
