(* ===== verification/Store.thy ===== *)
theory Store
  imports Types
begin

text \<open>
  The \<^verbatim>\<open>peers\<close> table of main.go (\<^verbatim>\<open>openDB\<close>, \<^verbatim>\<open>allPeers\<close>, \<^verbatim>\<open>getPeer\<close>) and the SQL statements the program
  runs on it.  The table is the list of its rows in id order, with the AUTOINCREMENT counter.  The
  schema's constraints are the code's own: usernames are unique, and the two partial indexes make
  non-empty public keys and non-empty WireGuard addresses unique; there is none on \<^verbatim>\<open>ovpn_ip\<close>.  A
  statement that would break a constraint fails and changes nothing.  The columns \<^verbatim>\<open>created_at\<close>,
  \<^verbatim>\<open>updated_at\<close> and \<^verbatim>\<open>notes\<close> are written but never read by the program and are left out; SQLite is taken
  not to fail for any other reason.

  The locale \<open>keyed_table\<close> is what the components rely on; the table is an interpretation of it.
\<close>

record store =
  rows :: "peer list"
  row_seq :: int

definition empty_store :: store where
  "empty_store = \<lparr>rows = [], row_seq = 0\<rparr>"

definition allPeers :: "store \<Rightarrow> peer list" where
  "allPeers st = rows st"

definition getPeer :: "store \<Rightarrow> string \<Rightarrow> peer option" where
  "getPeer st u = find (\<lambda>r. Username r = u) (rows st)"

text \<open>The unique indexes: which of them a row would violate against the other rows.\<close>

definition conflict :: "peer list \<Rightarrow> peer \<Rightarrow> string option" where
  "conflict rs p =
     (if list_ex (\<lambda>r. Username r = Username p) rs
      then Some ''UNIQUE constraint failed: peers.username''
      else if PublicKey p \<noteq> [] \<and> list_ex (\<lambda>r. PublicKey r = PublicKey p) rs
      then Some ''UNIQUE constraint failed: peers.public_key''
      else if Address p \<noteq> [] \<and> list_ex (\<lambda>r. Address r = Address p) rs
      then Some ''UNIQUE constraint failed: peers.address''
      else None)"

definition sql_insert :: "peer \<Rightarrow> store \<Rightarrow> string + store" where
  "sql_insert p st =
     (case conflict (rows st) p of
        Some e \<Rightarrow> Inl e
      | None \<Rightarrow> Inr (st\<lparr>rows := rows st @ [p\<lparr>ID := row_seq st + 1\<rparr>], row_seq := row_seq st + 1\<rparr>))"

text \<open>\<^verbatim>\<open>UPDATE peers SET ... WHERE id=?\<close>; the assignments are a function that keeps the id.\<close>

definition update_rows :: "int \<Rightarrow> (peer \<Rightarrow> peer) \<Rightarrow> peer list \<Rightarrow> peer list" where
  "update_rows i f = map (\<lambda>r. if ID r = i then f r else r)"

definition sql_update :: "int \<Rightarrow> (peer \<Rightarrow> peer) \<Rightarrow> store \<Rightarrow> string + store" where
  "sql_update i f st =
     (case find (\<lambda>r. ID r = i) (rows st) of
        None \<Rightarrow> Inr st
      | Some r \<Rightarrow>
          (case conflict (filter (\<lambda>q. ID q \<noteq> i) (rows st)) (f r) of
             Some e \<Rightarrow> Inl e
           | None \<Rightarrow> Inr (st\<lparr>rows := update_rows i f (rows st)\<rparr>)))"

text \<open>The same statement where the code ignores its error.\<close>

definition sql_update_ign :: "int \<Rightarrow> (peer \<Rightarrow> peer) \<Rightarrow> store \<Rightarrow> store" where
  "sql_update_ign i f st = (case sql_update i f st of Inl _ \<Rightarrow> st | Inr st' \<Rightarrow> st')"

definition sql_delete :: "int \<Rightarrow> store \<Rightarrow> store" where
  "sql_delete i st = st\<lparr>rows := filter (\<lambda>r. ID r \<noteq> i) (rows st)\<rparr>"

section \<open>The table invariant\<close>

definition nonempty_distinct :: "string list \<Rightarrow> bool" where
  "nonempty_distinct xs \<longleftrightarrow> distinct (filter (\<lambda>x. x \<noteq> []) xs)"

definition store_inv :: "store \<Rightarrow> bool" where
  "store_inv st \<longleftrightarrow>
     sorted_wrt (<) (map ID (rows st)) \<and>
     list_all (\<lambda>r. ID r \<le> row_seq st) (rows st) \<and>
     distinct (map Username (rows st)) \<and>
     nonempty_distinct (map PublicKey (rows st)) \<and>
     nonempty_distinct (map Address (rows st))"

lemma nonempty_distinct_snoc:
  "nonempty_distinct (xs @ [x]) \<longleftrightarrow> nonempty_distinct xs \<and> (x = [] \<or> x \<notin> set xs)"
  by (auto simp: nonempty_distinct_def)

lemma nonempty_distinct_filter:
  "nonempty_distinct (map g xs) \<Longrightarrow> nonempty_distinct (map g (filter P xs))"
  by (induction xs) (auto simp: nonempty_distinct_def split: if_splits)

lemma distinct_map_filter': "distinct (map g xs) \<Longrightarrow> distinct (map g (filter P xs))"
  by (induction xs) auto

lemma list_ex_eq_image: "list_ex (\<lambda>r. f r = x) rs \<longleftrightarrow> x \<in> f ` set rs"
  by (auto simp: list_ex_iff)

lemma conflict_None:
  "conflict rs p = None \<longleftrightarrow>
     Username p \<notin> Username ` set rs \<and>
     (PublicKey p = [] \<or> PublicKey p \<notin> PublicKey ` set rs) \<and>
     (Address p = [] \<or> Address p \<notin> Address ` set rs)"
  by (simp add: conflict_def list_ex_eq_image)

lemma store_inv_empty [simp]: "store_inv empty_store"
  by (simp add: store_inv_def empty_store_def nonempty_distinct_def)

lemma store_inv_ids: "store_inv st \<Longrightarrow> distinct (map ID (rows st))"
  using strict_sorted_iff [of "map ID (rows st)"] by (simp add: store_inv_def)

lemma sql_insert_inv: "store_inv st \<Longrightarrow> sql_insert p st = Inr st' \<Longrightarrow> store_inv st'"
  unfolding sql_insert_def
  by (auto simp: store_inv_def sorted_wrt_append list_all_iff conflict_None nonempty_distinct_snoc
      add_increasing2 split: option.splits)

lemma filter_rows_inv: "store_inv st \<Longrightarrow> store_inv (st\<lparr>rows := filter P (rows st)\<rparr>)"
  unfolding store_inv_def
  by (auto simp: sorted_wrt_filter sorted_wrt_map list_all_iff distinct_map_filter'
      intro: nonempty_distinct_filter)

lemma sql_delete_inv: "store_inv st \<Longrightarrow> store_inv (sql_delete i st)"
  unfolding sql_delete_def by (rule filter_rows_inv)

text \<open>An update of one row keeps the invariant when it keeps the id and the constraint check passes.\<close>

lemma update_rows_simps [simp]:
  "update_rows i f [] = []"
  "update_rows i f (r # rs) = (if ID r = i then f r else r) # update_rows i f rs"
  by (simp_all add: update_rows_def)

lemma update_rows_other: "i \<notin> ID ` set rs \<Longrightarrow> update_rows i f rs = rs"
  by (induction rs) auto

lemma map_update_rows_same:
  "(\<And>r. g (f r) = g r) \<Longrightarrow> map g (update_rows i f rs) = map g rs"
  by (induction rs) auto

lemma set_update_rows:
  "set (update_rows i f rs) = f ` {r \<in> set rs. ID r = i} \<union> {r \<in> set rs. ID r \<noteq> i}"
  by (induction rs) auto

lemma find_update_rows:
  assumes "\<And>r. ID (f r) = ID r"
  shows "find (\<lambda>r. ID r = j) (update_rows i f rs) =
    map_option (\<lambda>r. if ID r = i then f r else r) (find (\<lambda>r. ID r = j) rs)"
  using assms by (induction rs) auto

lemma others_of_head:
  "distinct (map ID (r # rs)) \<Longrightarrow> {q \<in> set (r # rs). ID q \<noteq> ID r} = set rs"
  by (auto simp: image_iff)

lemma distinct_update_rows:
  assumes d: "distinct (map ID rs)" and i: "\<And>r. ID (f r) = ID r"
    and fresh: "\<And>r. r \<in> set rs \<Longrightarrow> ID r = i \<Longrightarrow> g (f r) \<notin> g ` {q \<in> set rs. ID q \<noteq> i}"
    and g: "distinct (map g rs)"
  shows "distinct (map g (update_rows i f rs))"
  using d fresh g
proof (induction rs)
  case (Cons r rs)
  show ?case
  proof (cases "ID r = i")
    case True
    then have o: "update_rows i f rs = rs" using Cons.prems(1) by (auto intro: update_rows_other)
    have others: "{q \<in> set (r # rs). ID q \<noteq> i} = set rs"
      using others_of_head [OF Cons.prems(1)] True by simp
    have "g (f r) \<notin> g ` set rs"
      using Cons.prems(2) [of r] True unfolding others by simp
    with True o Cons.prems(3) show ?thesis by simp
  next
    case False
    have "distinct (map g (update_rows i f rs))"
      using Cons.prems by (intro Cons.IH) auto
    moreover have "g r \<notin> g ` set (update_rows i f rs)"
    proof
      assume "g r \<in> g ` set (update_rows i f rs)"
      then consider q where "q \<in> set rs" "ID q = i" "g r = g (f q)" | "g r \<in> g ` set rs"
        by (auto simp: set_update_rows)
      then show False
      proof cases
        case 1
        then show False using Cons.prems(2) [of q] False by (auto simp: image_iff)
      next
        case 2
        then show False using Cons.prems(3) by auto
      qed
    qed
    ultimately show ?thesis using False by simp
  qed
qed simp

lemma nonempty_distinct_update_rows:
  assumes d: "distinct (map ID rs)" and i: "\<And>r. ID (f r) = ID r"
    and fresh: "\<And>r. r \<in> set rs \<Longrightarrow> ID r = i \<Longrightarrow> g (f r) = [] \<or> g (f r) \<notin> g ` {q \<in> set rs. ID q \<noteq> i}"
    and g: "nonempty_distinct (map g rs)"
  shows "nonempty_distinct (map g (update_rows i f rs))"
  using d fresh g
proof (induction rs)
  case (Cons r rs)
  have g': "nonempty_distinct (map g rs)" and gr: "g r = [] \<or> g r \<notin> g ` set rs"
    using Cons.prems(3) by (auto simp: nonempty_distinct_def split: if_splits)
  show ?case
  proof (cases "ID r = i")
    case True
    then have o: "update_rows i f rs = rs" using Cons.prems(1) by (auto intro: update_rows_other)
    have others: "{q \<in> set (r # rs). ID q \<noteq> i} = set rs"
      using others_of_head [OF Cons.prems(1)] True by simp
    have "g (f r) = [] \<or> g (f r) \<notin> g ` set rs"
      using Cons.prems(2) [of r] True unfolding others by simp
    with True o g' show ?thesis by (auto simp: nonempty_distinct_def)
  next
    case False
    have "nonempty_distinct (map g (update_rows i f rs))"
      using Cons.prems(1,2) g' by (intro Cons.IH) fastforce+
    moreover have "g r = [] \<or> g r \<notin> g ` set (update_rows i f rs)"
    proof (rule disjCI)
      assume a: "\<not> g r \<notin> g ` set (update_rows i f rs)"
      show "g r = []"
      proof (rule ccontr)
        assume ne: "g r \<noteq> []"
        from a consider q where "q \<in> set rs" "ID q = i" "g r = g (f q)" | "g r \<in> g ` set rs"
          by (auto simp: set_update_rows)
        then show False
        proof cases
          case 1
          then show False using Cons.prems(2) [of q] False ne by (auto simp: image_iff)
        next
          case 2
          then show False using gr ne by auto
        qed
      qed
    qed
    ultimately show ?thesis using False by (auto simp: nonempty_distinct_def)
  qed
qed simp


lemma sql_update_inv:
  assumes inv: "store_inv st" and ok: "sql_update i f st = Inr st'" and id: "\<And>r. ID (f r) = ID r"
  shows "store_inv st'"
proof (cases "find (\<lambda>r. ID r = i) (rows st)")
  case None
  then show ?thesis using ok inv by (simp add: sql_update_def)
next
  case (Some r)
  have r: "r \<in> set (rows st)" "ID r = i" using find_Some_iff2 [OF Some] by auto
  have one: "q = r" if "q \<in> set (rows st)" "ID q = i" for q
    using store_inv_ids [OF inv] that r by (metis (mono_tags) distinct_map inj_onD)
  have c: "conflict (filter (\<lambda>q. ID q \<noteq> i) (rows st)) (f r) = None"
    and st': "st' = st\<lparr>rows := update_rows i f (rows st)\<rparr>"
    using ok Some by (auto simp: sql_update_def split: option.splits)
  note fresh = c [unfolded conflict_None set_filter]
  have ids: "distinct (map ID (rows st))" using inv by (rule store_inv_ids)
  have "map ID (update_rows i f (rows st)) = map ID (rows st)"
    by (rule map_update_rows_same) (rule id)
  moreover have "list_all (\<lambda>r. ID r \<le> row_seq st) (update_rows i f (rows st))"
    using inv id by (auto simp: store_inv_def list_all_iff set_update_rows)
  moreover have "distinct (map Username (update_rows i f (rows st)))"
    using inv fresh one by (intro distinct_update_rows [OF ids id]) (auto simp: store_inv_def)
  moreover have "nonempty_distinct (map PublicKey (update_rows i f (rows st)))"
    using inv fresh one by (intro nonempty_distinct_update_rows [OF ids id]) (auto simp: store_inv_def)
  moreover have "nonempty_distinct (map Address (update_rows i f (rows st)))"
    using inv fresh one by (intro nonempty_distinct_update_rows [OF ids id]) (auto simp: store_inv_def)
  ultimately show ?thesis using inv by (simp add: st' store_inv_def)
qed

lemma sql_update_ign_inv:
  "store_inv st \<Longrightarrow> (\<And>r. ID (f r) = ID r) \<Longrightarrow> store_inv (sql_update_ign i f st)"
  using sql_update_inv by (fastforce simp: sql_update_ign_def split: sum.splits)

text \<open>Assignments that leave the three unique columns alone always succeed.\<close>

definition keeps_keys :: "(peer \<Rightarrow> peer) \<Rightarrow> bool" where
  "keeps_keys f \<longleftrightarrow>
     (\<forall>r. ID (f r) = ID r \<and> Username (f r) = Username r \<and> PublicKey (f r) = PublicKey r \<and>
          Address (f r) = Address r)"

lemma sql_update_keeps_keys:
  assumes inv: "store_inv st" and f: "keeps_keys f"
  shows "sql_update i f st = Inr (st\<lparr>rows := update_rows i f (rows st)\<rparr>)"
proof (cases "find (\<lambda>r. ID r = i) (rows st)")
  case None
  then have "i \<notin> ID ` set (rows st)" by (auto simp: find_None_iff)
  then show ?thesis using None by (simp add: sql_update_def update_rows_other)
next
  case (Some r)
  have r: "r \<in> set (rows st)" "ID r = i" using find_Some_iff2 [OF Some] by auto
  have nd: "g r \<notin> g ` {q \<in> set (rows st). ID q \<noteq> i}" if "distinct (map g (rows st))" for g :: "peer \<Rightarrow> string"
  proof
    assume "g r \<in> g ` {q \<in> set (rows st). ID q \<noteq> i}"
    then obtain q where q: "q \<in> set (rows st)" "ID q \<noteq> i" "g r = g q" by auto
    have "r = q" using that q r by (metis distinct_map inj_onD)
    with q r show False by simp
  qed
  have nn: "g r = [] \<or> g r \<notin> g ` {q \<in> set (rows st). ID q \<noteq> i}"
    if "nonempty_distinct (map g (rows st))" for g :: "peer \<Rightarrow> string"
  proof (cases "g r = []")
    case False
    have "distinct (map g (filter (\<lambda>q. g q \<noteq> []) (rows st)))"
      using that by (simp add: nonempty_distinct_def filter_map comp_def)
    then have "q = r" if "q \<in> set (rows st)" "g q = g r" for q
      using that False r by (auto simp: distinct_map inj_on_def)
    then show ?thesis using r by auto
  qed simp
  have "conflict (filter (\<lambda>q. ID q \<noteq> i) (rows st)) (f r) = None"
    using f inv nd [of Username] nn [of PublicKey] nn [of Address]
    by (auto simp: conflict_None keeps_keys_def store_inv_def)
  with Some show ?thesis by (simp add: sql_update_def)
qed

lemma sql_update_ign_keeps_keys:
  "store_inv st \<Longrightarrow> keeps_keys f \<Longrightarrow>
     sql_update_ign i f st = st\<lparr>rows := update_rows i f (rows st)\<rparr>"
  by (simp add: sql_update_ign_def sql_update_keeps_keys)


section \<open>The interface\<close>

locale keyed_table =
  fixes all_rows :: "'s \<Rightarrow> 'r list"
    and row_id :: "'r \<Rightarrow> int"
    and row_key :: "'r \<Rightarrow> string"
    and insert_row :: "'r \<Rightarrow> 's \<Rightarrow> string + 's"
    and delete_row :: "int \<Rightarrow> 's \<Rightarrow> 's"
    and invar :: "'s \<Rightarrow> bool"
  assumes ids_distinct: "invar s \<Longrightarrow> distinct (map row_id (all_rows s))"
    and keys_distinct: "invar s \<Longrightarrow> distinct (map row_key (all_rows s))"
    and insert_invar: "invar s \<Longrightarrow> insert_row r s = Inr s' \<Longrightarrow> invar s'"
    and insert_rows: "invar s \<Longrightarrow> insert_row r s = Inr s' \<Longrightarrow>
      \<exists>r'. row_key r' = row_key r \<and> all_rows s' = all_rows s @ [r']"
    and delete_invar: "invar s \<Longrightarrow> invar (delete_row i s)"
    and delete_rows: "all_rows (delete_row i s) = filter (\<lambda>r. row_id r \<noteq> i) (all_rows s)"
begin

lemma lookup_unique:
  "invar s \<Longrightarrow> r \<in> set (all_rows s) \<Longrightarrow> find (\<lambda>q. row_key q = row_key r) (all_rows s) = Some r"
  by (rule find_distinct [OF keys_distinct])

lemma lookup_key_None:
  "find (\<lambda>q. row_key q = u) (all_rows s) = None \<longleftrightarrow> u \<notin> row_key ` set (all_rows s)"
  by (auto simp: find_None_iff)

lemma insert_then_lookup:
  assumes "invar s" and "insert_row r s = Inr s'"
  shows "\<exists>r'. find (\<lambda>q. row_key q = row_key r) (all_rows s') = Some r' \<and>
    row_key r' = row_key r \<and> all_rows s' = all_rows s @ [r']"
proof -
  obtain r' where r': "row_key r' = row_key r" "all_rows s' = all_rows s @ [r']"
    using insert_rows [OF assms] by blast
  have "find (\<lambda>q. row_key q = row_key r') (all_rows s') = Some r'"
    using insert_invar [OF assms] by (rule lookup_unique) (simp add: r')
  with r' show ?thesis by auto
qed

lemma insert_other_lookup:
  assumes "invar s" and "insert_row r s = Inr s'" and "u \<noteq> row_key r"
  shows "find (\<lambda>q. row_key q = u) (all_rows s') = find (\<lambda>q. row_key q = u) (all_rows s)"
proof -
  obtain r' where "row_key r' = row_key r" "all_rows s' = all_rows s @ [r']"
    using insert_rows [OF assms(1,2)] by blast
  with assms(3) show ?thesis by (simp add: find_append split: option.splits)
qed

lemma delete_then_lookup:
  assumes "invar s" and "find (\<lambda>q. row_key q = u) (all_rows s) = Some r"
  shows "find (\<lambda>q. row_key q = u) (all_rows (delete_row (row_id r) s)) = None"
proof -
  have r: "r \<in> set (all_rows s)" "row_key r = u" using find_Some_iff2 [OF assms(2)] by auto
  have "q = r" if "q \<in> set (all_rows s)" "row_key q = u" for q
    using keys_distinct [OF assms(1)] that r by (metis distinct_map inj_onD)
  then show ?thesis by (auto simp: delete_rows find_None_iff)
qed

text \<open>Deleting the row just inserted gives the rows back: the rollback of a failed creation.\<close>

lemma delete_inserted:
  assumes "invar s" and "insert_row r s = Inr s'"
    and "find (\<lambda>q. row_key q = row_key r) (all_rows s') = Some r'"
  shows "all_rows (delete_row (row_id r') s') = all_rows s"
proof -
  obtain q where q: "find (\<lambda>q. row_key q = row_key r) (all_rows s') = Some q" "all_rows s' = all_rows s @ [q]"
    using insert_then_lookup [OF assms(1,2)] by blast
  with assms(3) have "q = r'" by simp
  moreover have "distinct (map row_id (all_rows s'))"
    using insert_invar [OF assms(1,2)] by (rule ids_distinct)
  ultimately show ?thesis
    using q(2) by (auto simp: delete_rows filter_id_conv image_iff)
qed

end

interpretation peers: keyed_table allPeers ID Username sql_insert sql_delete store_inv
proof
  show "store_inv s \<Longrightarrow> distinct (map ID (allPeers s))" for s
    by (simp add: allPeers_def store_inv_ids)
  show "store_inv s \<Longrightarrow> distinct (map Username (allPeers s))" for s
    by (simp add: allPeers_def store_inv_def)
  show "store_inv s \<Longrightarrow> sql_insert r s = Inr s' \<Longrightarrow> store_inv s'" for s r s'
    by (rule sql_insert_inv)
  show "\<exists>r'. Username r' = Username r \<and> allPeers s' = allPeers s @ [r']"
    if "sql_insert r s = Inr s'" for r s s'
    using that by (auto simp: sql_insert_def allPeers_def split: option.splits)
  show "store_inv s \<Longrightarrow> store_inv (sql_delete i s)" for s i
    by (rule sql_delete_inv)
  show "allPeers (sql_delete i s) = filter (\<lambda>r. ID r \<noteq> i) (allPeers s)" for i s
    by (simp add: allPeers_def sql_delete_def)
qed

lemma getPeer_find: "getPeer st u = find (\<lambda>r. Username r = u) (allPeers st)"
  by (simp add: getPeer_def allPeers_def)

lemma getPeer_Some: "getPeer st u = Some r \<Longrightarrow> r \<in> set (rows st) \<and> Username r = u"
  unfolding getPeer_def by (rule find_Some_iff2)

lemma getPeer_member: "store_inv st \<Longrightarrow> r \<in> set (rows st) \<Longrightarrow> getPeer st (Username r) = Some r"
  using peers.lookup_unique [of st r] by (simp add: getPeer_find allPeers_def)

lemma getPeer_update:
  assumes "\<And>r. Username (f r) = Username r"
  shows "getPeer (st\<lparr>rows := update_rows i f (rows st)\<rparr>) u =
    map_option (\<lambda>r. if ID r = i then f r else r) (getPeer st u)"
proof -
  have "find (\<lambda>r. Username r = u) (update_rows i f rs) =
    map_option (\<lambda>r. if ID r = i then f r else r) (find (\<lambda>r. Username r = u) rs)" for rs
    using assms by (induction rs) auto
  then show ?thesis by (simp add: getPeer_def)
qed

section \<open>Reachable tables\<close>

text \<open>No statement of the program assigns the id or the name of a user.\<close>

inductive table_step :: "store \<Rightarrow> store \<Rightarrow> bool" where
  stmt_insert: "sql_insert p st = Inr st' \<Longrightarrow> table_step st st'"
| stmt_update: "sql_update i f st = Inr st' \<Longrightarrow> (\<And>r. ID (f r) = ID r \<and> Username (f r) = Username r) \<Longrightarrow> table_step st st'"
| stmt_delete: "table_step st (st\<lparr>rows := filter P (rows st)\<rparr>)"

inductive reachable_table :: "store \<Rightarrow> bool" where
  table_empty: "reachable_table empty_store"
| table_next: "reachable_table st \<Longrightarrow> table_step st st' \<Longrightarrow> reachable_table st'"

lemma table_step_inv: "table_step st st' \<Longrightarrow> store_inv st \<Longrightarrow> store_inv st'"
  by (induction rule: table_step.induct) (auto intro: sql_insert_inv sql_update_inv filter_rows_inv)

lemma reachable_table_inv: "reachable_table st \<Longrightarrow> store_inv st"
  by (induction rule: reachable_table.induct) (auto intro: table_step_inv)

text \<open>An id names one user for ever: what a later table has under an id that was already given out is the user it was.\<close>

definition same_users :: "store \<Rightarrow> store \<Rightarrow> bool" where
  "same_users st st' \<longleftrightarrow>
     row_seq st \<le> row_seq st' \<and>
     (\<forall>p\<in>set (rows st'). ID p \<le> row_seq st \<longrightarrow> (\<exists>q\<in>set (rows st). ID q = ID p \<and> Username q = Username p))"

lemma table_step_same_users: "table_step st st' \<Longrightarrow> same_users st st'"
proof (induction rule: table_step.induct)
  case (stmt_update i f st st')
  then show ?case
    by (fastforce simp: sql_update_def same_users_def set_update_rows split: option.splits)
qed (auto simp: same_users_def sql_insert_def split: option.splits)

lemma same_users_trans: "same_users st st' \<Longrightarrow> same_users st' st'' \<Longrightarrow> same_users st st''"
  unfolding same_users_def by (metis order_trans)

lemma table_steps_same_users: "table_step\<^sup>*\<^sup>* st st' \<Longrightarrow> same_users st st'"
proof (induction rule: rtranclp_induct)
  case base
  show ?case by (auto simp: same_users_def)
next
  case (step st' st'')
  then show ?case by (blast intro: same_users_trans table_step_same_users)
qed

lemma late_id:
  assumes "same_users st st'" "store_inv st" "p \<in> set (allPeers st)" "q \<in> set (allPeers st')" "ID q = ID p"
  shows "ID q \<le> row_seq st \<and> Username q = Username p"
proof -
  have i: "ID q \<le> row_seq st" using assms by (simp add: store_inv_def allPeers_def list_all_iff)
  then obtain p' where "p' \<in> set (rows st)" "ID p' = ID q" "Username p' = Username q"
    using assms(1,4) by (auto simp: same_users_def allPeers_def)
  moreover from this have "p' = p"
    using store_inv_ids [OF assms(2)] assms(3,5) by (auto simp: allPeers_def distinct_map inj_on_def)
  ultimately show ?thesis using i by simp
qed

lemma other_row_kept:
  assumes "q \<in> set (allPeers st)" "ID q \<noteq> i"
  shows "q \<in> set (allPeers (sql_update_ign i f st))" "q \<in> set (allPeers (sql_delete i st))"
  using assms by (auto simp: allPeers_def sql_delete_def sql_update_ign_def sql_update_def set_update_rows split: option.split sum.split)

lemma table_steps_inv: "table_step\<^sup>*\<^sup>* st st' \<Longrightarrow> store_inv st \<Longrightarrow> store_inv st'"
  by (induction rule: rtranclp_induct) (auto intro: table_step_inv)

text \<open>What the invariant says of the users of a table.\<close>

definition users_unique :: "store \<Rightarrow> bool" where
  "users_unique st \<longleftrightarrow>
     distinct (map Username (allPeers st)) \<and> sorted_wrt (<) (map ID (allPeers st)) \<and>
     (\<forall>p\<in>set (allPeers st). getPeer st (Username p) = Some p) \<and>
     (\<forall>p\<in>set (allPeers st). \<forall>q\<in>set (allPeers st). p \<noteq> q \<longrightarrow>
        (PublicKey p \<noteq> [] \<longrightarrow> PublicKey p \<noteq> PublicKey q) \<and> (Address p \<noteq> [] \<longrightarrow> Address p \<noteq> Address q))"

lemma store_inv_users_unique:
  assumes inv: "store_inv st"
  shows "users_unique st"
proof -
  have one: "p = q" if "nonempty_distinct (map g (rows st))" "p \<in> set (rows st)" "q \<in> set (rows st)"
    "g p \<noteq> []" "g p = g q" for g :: "peer \<Rightarrow> string" and p q
    using that by (auto simp: nonempty_distinct_def filter_map comp_def distinct_map inj_on_def)
  show ?thesis
    using inv one [of PublicKey] one [of Address] getPeer_member [OF inv]
    by (auto simp: users_unique_def store_inv_def allPeers_def)
qed

section \<open>Properties\<close>

text \<open>
  Whatever statements the program runs, from an empty table on: no two users share a name, a WireGuard
  public key or a WireGuard address, ids only grow, and every user is found under its name.
\<close>

theorem reachable_tables_unique:
  assumes "reachable_table st"
  shows "users_unique st"
  by (rule store_inv_users_unique) (rule reachable_table_inv [OF assms])

lemma reachable_tables_unique_witness:
  "\<exists>st. sql_insert (default_row\<lparr>Username := ''ann''\<rparr>) empty_store = Inr st \<and>
     getPeer st ''ann'' = Some (default_row\<lparr>Username := ''ann'', ID := 1\<rparr>)"
proof -
  let ?p = "default_row\<lparr>Username := ''ann''\<rparr>"
  let ?st = "\<lparr>rows = [?p\<lparr>ID := 1\<rparr>], row_seq = 1\<rparr>"
  have i: "sql_insert ?p empty_store = Inr ?st"
    by (simp add: sql_insert_def empty_store_def conflict_def)
  have "reachable_table ?st"
    using table_next [OF table_empty stmt_insert [OF i]] .
  from reachable_tables_unique [OF this] have "getPeer ?st (Username (?p\<lparr>ID := 1\<rparr>)) = Some (?p\<lparr>ID := 1\<rparr>)"
    by (simp add: users_unique_def allPeers_def)
  then show ?thesis using i by simp
qed

end
