(* ===== verification/Addr.thy ===== *)
theory Addr
  imports GoStrconv
begin

unbundle bit_operations_syntax

text \<open>
  IPv4 addresses and networks: what the program uses of Go's \<^verbatim>\<open>net\<close> package (\<^verbatim>\<open>ParseCIDR\<close>,
  \<^verbatim>\<open>IP.String\<close>, \<^verbatim>\<open>IPNet.Contains\<close>, \<^verbatim>\<open>CIDRMask\<close>, \<^verbatim>\<open>IPMask.Size\<close>) and its own byte-level \<^verbatim>\<open>nextIP\<close>
  (main.go) and \<^verbatim>\<open>broadcastAddr\<close>, \<^verbatim>\<open>netsOverlap\<close> (subnet.go).  An address is its four bytes, as the code
  handles it; \<open>ip_word\<close> reads them as one 32-bit word, and the lemmas show that the byte loops
  implement the word operations and that membership in a network is equality of the high bits.
  IPv6 text is outside the model: \<open>parse_cidr\<close> refuses it.
\<close>

type_synonym u8 = "8 word"

datatype ip4 = IP4 u8 u8 u8 u8

fun last_byte :: "ip4 \<Rightarrow> u8" where
  "last_byte (IP4 a b c d) = d"

fun ip_and :: "ip4 \<Rightarrow> ip4 \<Rightarrow> ip4" where
  "ip_and (IP4 a b c d) (IP4 e f g h) = IP4 (a AND e) (b AND f) (c AND g) (d AND h)"

fun ip_or_not :: "ip4 \<Rightarrow> ip4 \<Rightarrow> ip4" where
  "ip_or_not (IP4 a b c d) (IP4 e f g h) = IP4 (a OR NOT e) (b OR NOT f) (c OR NOT g) (d OR NOT h)"

text \<open>One byte of \<^verbatim>\<open>CIDRMask\<close>: \<open>n\<close> leading ones, at most eight.\<close>

definition mask_byte :: "nat \<Rightarrow> u8" where
  "mask_byte n = (if 8 \<le> n then 0xFF else NOT (drop_bit n 0xFF))"

definition cidr_mask :: "nat \<Rightarrow> ip4" where
  "cidr_mask n = IP4 (mask_byte n) (mask_byte (n - 8)) (mask_byte (n - 16)) (mask_byte (n - 24))"

record ipnet =
  net_ip :: ip4
  net_mask :: ip4

text \<open>\<^verbatim>\<open>Mask.Size()\<close>: the number of leading ones of a canonical mask.\<close>

definition mask_ones :: "ip4 \<Rightarrow> nat option" where
  "mask_ones m = find (\<lambda>n. cidr_mask n = m) [0..<33]"

definition net_contains :: "ipnet \<Rightarrow> ip4 \<Rightarrow> bool" where
  "net_contains n ip \<longleftrightarrow> ip_and (net_ip n) (net_mask n) = ip_and ip (net_mask n)"

definition network_addr :: "ipnet \<Rightarrow> ip4" where
  "network_addr n = ip_and (net_ip n) (net_mask n)"

definition broadcastAddr :: "ipnet \<Rightarrow> ip4" where
  "broadcastAddr n = ip_or_not (network_addr n) (net_mask n)"

definition netsOverlap :: "ipnet \<Rightarrow> ipnet \<Rightarrow> bool" where
  "netsOverlap a b \<longleftrightarrow> net_contains a (net_ip b) \<or> net_contains b (net_ip a)"

text \<open>The loop runs from the last byte to the first and stops at the first byte that did not wrap.\<close>

fun nextIP :: "ip4 \<Rightarrow> ip4" where
  "nextIP (IP4 a b c d) =
     (if d + 1 \<noteq> 0 then IP4 a b c (d + 1)
      else if c + 1 \<noteq> 0 then IP4 a b (c + 1) 0
      else if b + 1 \<noteq> 0 then IP4 a (b + 1) 0 0
      else IP4 (a + 1) 0 0 0)"

section \<open>Text form\<close>

fun ip_str :: "ip4 \<Rightarrow> string" where
  "ip_str (IP4 a b c d) =
     join ''.'' [nat_str (unat a), nat_str (unat b), nat_str (unat c), nat_str (unat d)]"

definition parse_octet :: "string \<Rightarrow> u8 option" where
  "parse_octet s =
     (if 1 < length s \<and> hd s = CHR ''0'' then None
      else case parse_uint64 s of
             Inl _ \<Rightarrow> None
           | Inr n \<Rightarrow> if 255 < n then None else Some (of_nat n))"

definition parse_ip4 :: "string \<Rightarrow> ip4 option" where
  "parse_ip4 s =
     (case map parse_octet (split_on CHR ''.'' s) of
        [Some a, Some b, Some c, Some d] \<Rightarrow> Some (IP4 a b c d)
      | _ \<Rightarrow> None)"

text \<open>\<^verbatim>\<open>net.ParseCIDR\<close> on IPv4 text: the address as written and the network it lies in.\<close>

definition mk_net :: "ip4 \<Rightarrow> nat \<Rightarrow> ipnet" where
  "mk_net ip n = \<lparr>net_ip = ip_and ip (cidr_mask n), net_mask = cidr_mask n\<rparr>"

definition parse_cidr :: "string \<Rightarrow> (ip4 \<times> ipnet) option" where
  "parse_cidr s =
     (case cut_at CHR ''/'' s of
        None \<Rightarrow> None
      | Some (addr, m) \<Rightarrow>
          (case (parse_ip4 addr, parse_uint64 m) of
             (Some ip, Inr n) \<Rightarrow> if n \<le> 32 then Some (ip, mk_net ip n) else None
           | _ \<Rightarrow> None))"

definition cidr_str :: "ip4 \<Rightarrow> nat \<Rightarrow> string" where
  "cidr_str ip n = ip_str ip @ ''/'' @ nat_str n"

text \<open>\<^verbatim>\<open>IPNet.String()\<close>; a mask that is not canonical prints in hexadecimal, which no network here has.\<close>

definition net_str :: "ipnet \<Rightarrow> string" where
  "net_str n = (case mask_ones (net_mask n) of None \<Rightarrow> ''<nil>'' | Some k \<Rightarrow> cidr_str (net_ip n) k)"

section \<open>Addresses as 32-bit words\<close>

fun ip_word :: "ip4 \<Rightarrow> 32 word" where
  "ip_word (IP4 a b c d) = word_cat (word_cat a b :: 16 word) (word_cat c d :: 16 word)"

definition ip_nat :: "ip4 \<Rightarrow> nat" where
  "ip_nat ip = unat (ip_word ip)"

lemma bit_ip_word:
  "bit (ip_word (IP4 a b c d)) n \<longleftrightarrow>
     n < 32 \<and> (if n < 8 then bit d n else if n < 16 then bit c (n - 8)
               else if n < 24 then bit b (n - 16) else bit a (n - 24))"
  by (auto simp: ip_word.simps bit_word_cat_iff)

declare ip_word.simps [simp del]

lemma unat_word_cat8: "unat (word_cat (x :: u8) (y :: u8) :: 16 word) = unat x * 256 + unat y"
proof -
  have "unat x < 256" "unat y < 256" using unsigned_less [of x, where 'a = nat] unsigned_less [of y, where 'a = nat] by simp_all
  then show ?thesis
    by (simp add: word_cat_eq unat_word_ariths push_bit_eq_mult unsigned_ucast_eq take_bit_nat_eq_self nat_less_le)
qed

lemma unat_word_cat16:
  "unat (word_cat (x :: 16 word) (y :: 16 word) :: 32 word) = unat x * 65536 + unat y"
proof -
  have "unat x < 65536" "unat y < 65536" using unsigned_less [of x, where 'a = nat] unsigned_less [of y, where 'a = nat] by simp_all
  then show ?thesis
    by (simp add: word_cat_eq unat_word_ariths push_bit_eq_mult unsigned_ucast_eq take_bit_nat_eq_self nat_less_le)
qed

lemma ip_nat_IP4:
  "ip_nat (IP4 a b c d) = unat a * 16777216 + unat b * 65536 + unat c * 256 + unat d"
  by (simp add: ip_nat_def ip_word.simps unat_word_cat8 unat_word_cat16)


lemma u8_less: "unat (w :: u8) < 256"
  using unsigned_less [of w, where 'a = nat] by simp

lemma ip_nat_bytes:
  "unat a = ip_nat (IP4 a b c d) div 16777216"
  "unat b = ip_nat (IP4 a b c d) div 65536 mod 256"
  "unat c = ip_nat (IP4 a b c d) div 256 mod 256"
  "unat d = ip_nat (IP4 a b c d) mod 256"
proof -
  define N where "N = ip_nat (IP4 a b c d)"
  define H where "H = unat a * 256 + unat b"
  define M where "M = H * 256 + unat c"
  have N: "N = M * 256 + unat d"
    by (simp add: N_def M_def H_def ip_nat_IP4)
  have d: "N mod 256 = unat d" and c: "N div 256 = M"
    using u8_less [of d] by (simp_all add: N)
  have M: "M mod 256 = unat c" "M div 256 = H"
    using u8_less [of c] by (simp_all add: M_def)
  have H: "H mod 256 = unat b" "H div 256 = unat a"
    using u8_less [of b] by (simp_all add: H_def)
  have b: "N div 65536 = H"
    using div_mult2_eq [of N 256 256] by (simp add: c M)
  have a: "N div 16777216 = unat a"
    using div_mult2_eq [of N 65536 256] by (simp add: b H)
  show "unat a = ip_nat (IP4 a b c d) div 16777216"
    "unat b = ip_nat (IP4 a b c d) div 65536 mod 256"
    "unat c = ip_nat (IP4 a b c d) div 256 mod 256"
    "unat d = ip_nat (IP4 a b c d) mod 256"
    using a b c d M H unfolding N_def by simp_all
qed

lemma ip_word_inj: "ip_word x = ip_word y \<Longrightarrow> x = y"
proof (cases x; cases y)
  fix a b c d a' b' c' d'
  assume e: "ip_word x = ip_word y" and xy: "x = IP4 a b c d" "y = IP4 a' b' c' d'"
  then have "ip_nat (IP4 a b c d) = ip_nat (IP4 a' b' c' d')" by (simp add: ip_nat_def)
  then show "x = y"
    unfolding xy by (metis ip_nat_bytes word_unat_eq_iff)
qed

lemma ip_word_eq_iff [simp]: "ip_word x = ip_word y \<longleftrightarrow> x = y"
  using ip_word_inj by blast

lemma ip_nat_eq_iff [simp]: "ip_nat x = ip_nat y \<longleftrightarrow> x = y"
  by (simp add: ip_nat_def flip: word_unat_eq_iff)

lemma ip_word_and: "ip_word (ip_and x y) = ip_word x AND ip_word y"
  by (cases x; cases y; rule bit_word_eqI) (auto simp: bit_ip_word bit_and_iff)

lemma ip_word_or_not: "ip_word (ip_or_not x y) = ip_word x OR NOT (ip_word y)"
  by (cases x; cases y; rule bit_word_eqI)
    (auto simp: bit_ip_word bit_or_iff bit_not_iff)

lemma ip_word_cidr_mask: "n \<le> 32 \<Longrightarrow> ip_word (cidr_mask n) = NOT (mask (32 - n))"
proof -
  assume "n \<le> 32"
  then have "n \<in> set [0..<33]" by simp
  moreover have "list_all (\<lambda>n. ip_word (cidr_mask n) = NOT (mask (32 - n))) [0..<33]"
    by code_simp
  ultimately show ?thesis by (auto simp: list_all_iff)
qed

lemma cidr_mask_inj:
  assumes "n \<le> 32" and "k \<le> 32" and "cidr_mask n = cidr_mask k"
  shows "n = k"
proof -
  have "distinct (map cidr_mask [0..<33])" by code_simp
  then have "inj_on cidr_mask {0..<33}" by (simp add: distinct_map)
  then show ?thesis by (rule inj_onD) (use assms in auto)
qed

lemma mask_ones_cidr_mask [simp]: "n \<le> 32 \<Longrightarrow> mask_ones (cidr_mask n) = Some n"
proof -
  assume n: "n \<le> 32"
  have "distinct (map cidr_mask [0..<33])" by code_simp
  then show ?thesis unfolding mask_ones_def
    by (rule find_distinct) (use n in auto)
qed

text \<open>The byte-wise successor is addition of one on the word.\<close>

lemma ip_word_nextIP: "ip_word (nextIP x) = ip_word x + 1"
proof -
  obtain a b c d where x: "x = IP4 a b c d" by (cases x)
  have succ: "unat (w + 1) = (if unat w = 255 then 0 else unat w + 1)"
    and zero: "w + 1 = 0 \<longleftrightarrow> unat w = 255" for w :: u8
  proof -
    have "unat w \<noteq> 255 \<Longrightarrow> Suc (unat w) < 256" using u8_less [of w] by linarith
    then show *: "unat (w + 1) = (if unat w = 255 then 0 else unat w + 1)"
      by (auto simp: unat_word_ariths)
    show "w + 1 = 0 \<longleftrightarrow> unat w = 255"
      by (simp add: word_unat_eq_iff *)
  qed
  have "ip_nat (nextIP x) = (ip_nat x + 1) mod 2 ^ 32"
    using u8_less [of a] u8_less [of b] u8_less [of c] u8_less [of d]
    by (auto simp: x ip_nat_IP4 zero succ)
  then have "unat (ip_word (nextIP x)) = unat (ip_word x + 1)"
    by (simp add: ip_nat_def unat_word_ariths)
  then show ?thesis by (simp add: word_unat_eq_iff)
qed


section \<open>Networks\<close>

text \<open>A network as \<^verbatim>\<open>ParseCIDR\<close> builds it, with \<open>k\<close> leading ones.\<close>

definition is_net :: "ipnet \<Rightarrow> nat \<Rightarrow> bool" where
  "is_net n k \<longleftrightarrow> k \<le> 32 \<and> net_mask n = cidr_mask k \<and> ip_and (net_ip n) (cidr_mask k) = net_ip n"

lemma ip_and_assoc_mask: "ip_and (ip_and x m) m = ip_and x m"
  by (cases x; cases m) (simp add: and.assoc)

lemma is_net_mk_net [simp]: "k \<le> 32 \<Longrightarrow> is_net (mk_net ip k) k"
  by (simp add: is_net_def mk_net_def ip_and_assoc_mask)

lemma and_NOT_mask_eq_iff:
  fixes x y :: "32 word"
  shows "x AND NOT (mask n) = y AND NOT (mask n) \<longleftrightarrow> drop_bit n x = drop_bit n y"
proof
  assume e: "x AND NOT (mask n) = y AND NOT (mask n)"
  show "drop_bit n x = drop_bit n y"
  proof (rule bit_word_eqI)
    fix i assume "i < LENGTH(32)"
    have "bit (x AND NOT (mask n)) (n + i) = bit (y AND NOT (mask n)) (n + i)" using e by simp
    then show "bit (drop_bit n x) i = bit (drop_bit n y) i"
      by (auto simp: bit_and_iff bit_not_iff bit_mask_iff bit_drop_bit_eq dest: bit_imp_le_length)
  qed
next
  assume e: "drop_bit n x = drop_bit n y"
  show "x AND NOT (mask n) = y AND NOT (mask n)"
  proof (rule bit_word_eqI)
    fix i assume "i < LENGTH(32)"
    have "bit (drop_bit n x) (i - n) = bit (drop_bit n y) (i - n)" using e by simp
    then show "bit (x AND NOT (mask n)) i = bit (y AND NOT (mask n)) i"
      by (auto simp: bit_and_iff bit_not_iff bit_mask_iff bit_drop_bit_eq)
  qed
qed

text \<open>Membership is equality of the high bits, that is of the quotients by the network's size.\<close>

definition net_size :: "nat \<Rightarrow> nat" where
  "net_size k = 2 ^ (32 - k)"

lemma net_size_pos [simp]: "0 < net_size k"
  by (simp add: net_size_def)

lemma unat_drop_bit_div: "unat (drop_bit m (w :: 32 word)) = unat w div 2 ^ m"
  unfolding unat_drop_bit_eq by (simp add: drop_bit_eq_div)

lemma net_contains_iff:
  "is_net n k \<Longrightarrow> net_contains n x \<longleftrightarrow> ip_nat x div net_size k = ip_nat (net_ip n) div net_size k"
proof -
  assume n: "is_net n k"
  have "net_contains n x \<longleftrightarrow>
      ip_word (net_ip n) AND NOT (mask (32 - k)) = ip_word x AND NOT (mask (32 - k))"
    using n by (simp add: net_contains_def is_net_def flip: ip_word_eq_iff)
      (simp add: ip_word_and ip_word_cidr_mask)
  also have "\<dots> \<longleftrightarrow> drop_bit (32 - k) (ip_word x) = drop_bit (32 - k) (ip_word (net_ip n))"
    by (auto simp: and_NOT_mask_eq_iff)
  also have "\<dots> \<longleftrightarrow> unat (drop_bit (32 - k) (ip_word x)) = unat (drop_bit (32 - k) (ip_word (net_ip n)))"
    by (simp add: word_unat_eq_iff)
  also have "\<dots> \<longleftrightarrow> ip_nat x div net_size k = ip_nat (net_ip n) div net_size k"
    by (simp add: unat_drop_bit_div ip_nat_def net_size_def del: drop_bit_eq_div)
  finally show ?thesis .
qed


lemma unat_and_not_mask:
  "n \<le> 32 \<Longrightarrow> unat ((x :: 32 word) AND NOT (mask n)) = unat x div 2 ^ n * 2 ^ n"
proof -
  assume "n \<le> 32"
  have "x AND NOT (mask n) = push_bit n (drop_bit n x)"
    by (rule bit_word_eqI)
      (auto simp: bit_and_iff bit_not_iff bit_mask_iff bit_push_bit_iff bit_drop_bit_eq)
  moreover have "unat (push_bit n (drop_bit n x)) = unat x div 2 ^ n * 2 ^ n"
  proof -
    have "unat x div 2 ^ n * 2 ^ n \<le> unat x" by (rule div_times_less_eq_dividend)
    also have "\<dots> < 2 ^ 32" using unsigned_less [of x, where 'a = nat] by simp
    finally have "take_bit 32 (unat x div 2 ^ n * 2 ^ n) = unat x div 2 ^ n * 2 ^ n"
      by (rule take_bit_nat_eq_self)
    moreover have "unat (push_bit n (drop_bit n x)) = take_bit 32 (unat x div 2 ^ n * 2 ^ n)"
      unfolding unsigned_push_bit_eq unat_drop_bit_div by (simp add: push_bit_eq_mult)
    ultimately show ?thesis by simp
  qed
  ultimately show ?thesis by simp
qed

lemma ip_nat_masked:
  "k \<le> 32 \<Longrightarrow> ip_nat (ip_and x (cidr_mask k)) = ip_nat x div net_size k * net_size k"
  by (simp add: ip_nat_def ip_word_and ip_word_cidr_mask net_size_def unat_and_not_mask)

lemma is_net_base: "is_net n k \<Longrightarrow> ip_nat (net_ip n) div net_size k * net_size k = ip_nat (net_ip n)"
  using ip_nat_masked [of k "net_ip n"] by (simp add: is_net_def)

lemma net_base_dvd: "is_net n k \<Longrightarrow> net_size k dvd ip_nat (net_ip n)"
  by (metis dvd_triv_right is_net_base)

lemma ip_nat_less: "ip_nat x < 2 ^ 32"
  using unsigned_less [of "ip_word x", where 'a = nat] by (simp add: ip_nat_def)

text \<open>Membership as a range of numbers.\<close>

lemma net_contains_range:
  assumes "is_net n k"
  shows "net_contains n x \<longleftrightarrow>
    ip_nat (net_ip n) \<le> ip_nat x \<and> ip_nat x < ip_nat (net_ip n) + net_size k"
proof -
  obtain q where q: "ip_nat (net_ip n) = net_size k * q"
    using net_base_dvd [OF assms] by (auto simp: dvd_def)
  have "net_contains n x \<longleftrightarrow> ip_nat x div net_size k = q"
    by (simp add: net_contains_iff [OF assms] q)
  also have "\<dots> \<longleftrightarrow> net_size k * q \<le> ip_nat x \<and> ip_nat x < net_size k * q + net_size k"
    using net_size_pos [of k]
    by (metis add.commute dividend_less_div_times div_nat_eqI div_times_less_eq_dividend
        mult.commute mult_Suc_right)
  finally show ?thesis by (simp add: q)
qed

lemma net_contains_self: "is_net n k \<Longrightarrow> net_contains n (net_ip n)"
  by (simp add: net_contains_def)

lemma network_addr_is_net [simp]: "is_net n k \<Longrightarrow> network_addr n = net_ip n"
  by (simp add: network_addr_def is_net_def)

lemma mask_ones_is_net [simp]: "is_net n k \<Longrightarrow> mask_ones (net_mask n) = Some k"
  by (simp add: is_net_def)

text \<open>The broadcast address is the last address of the network.\<close>

lemma ip_nat_broadcast:
  assumes n: "is_net n k"
  shows "ip_nat (broadcastAddr n) = ip_nat (net_ip n) + net_size k - 1"
proof -
  have k: "k \<le> 32" using n by (simp add: is_net_def)
  define w where "w = ip_word (net_ip n)"
  have wm: "w AND NOT (mask (32 - k)) = w"
    using n k by (simp add: is_net_def w_def flip: ip_word_eq_iff) (simp add: ip_word_and ip_word_cidr_mask)
  have "w AND mask (32 - k) = 0"
    by (subst wm [symmetric]) (simp add: and.assoc)
  then have "w OR mask (32 - k) = w + mask (32 - k)"
    by (simp add: disjunctive_add_eq_or)
  then have "ip_word (broadcastAddr n) = w + mask (32 - k)"
    using n k by (simp add: broadcastAddr_def ip_word_or_not is_net_def ip_word_cidr_mask w_def
        network_addr_def)
  moreover have "unat (mask (32 - k) :: 32 word) = net_size k - 1"
  proof -
    have "unat (mask (32 - k) :: 32 word) = mask (32 - k)"
      by (rule bit_eqI) (auto simp: bit_unsigned_iff bit_mask_iff)
    then show ?thesis by (simp add: net_size_def mask_eq_exp_minus_1)
  qed
  moreover have "unat w + (net_size k - 1) < 2 ^ 32"
  proof -
    have d: "net_size k dvd unat w" using net_base_dvd [OF n] by (simp add: w_def ip_nat_def)
    have "net_size k dvd 2 ^ 32" unfolding net_size_def by (rule le_imp_power_dvd) simp
    then obtain q r where q: "unat w = net_size k * q" "2 ^ 32 = net_size k * r"
      using d by (auto simp: dvd_def)
    have "net_size k * q < net_size k * r"
      using unsigned_less [of w, where 'a = nat] by (simp flip: q)
    then have "Suc q \<le> r" by simp
    then have "net_size k * Suc q \<le> net_size k * r" by (rule mult_le_mono2)
    then have "unat w + net_size k \<le> 2 ^ 32" unfolding q by (simp add: add.commute)
    then show ?thesis using net_size_pos [of k] by linarith
  qed
  moreover obtain m where "net_size k = Suc m"
    using net_size_pos [of k] gr0_implies_Suc by blast
  ultimately show ?thesis
    by (simp add: ip_nat_def w_def unat_word_ariths)
qed


lemma net_contains_broadcast: "is_net n k \<Longrightarrow> net_contains n (broadcastAddr n)"
  using net_size_pos [of k] unfolding net_contains_range ip_nat_broadcast by linarith

lemma ip_nat_next: "ip_nat (nextIP x) = (ip_nat x + 1) mod 2 ^ 32"
  by (simp add: ip_nat_def ip_word_nextIP unat_word_ariths)

text \<open>Two networks overlap exactly when they share an address; then one contains the other.\<close>

lemma net_nested:
  assumes a: "is_net a k" and b: "is_net b j" and le: "k \<le> j"
    and sh: "net_contains a x" "net_contains b x" and y: "net_contains b y"
  shows "net_contains a y"
proof -
  have "net_size j dvd net_size k"
    using le by (simp add: net_size_def le_imp_power_dvd)
  then obtain m where m: "net_size k = net_size j * m" by (auto simp: dvd_def)
  have "ip_nat x div net_size j = ip_nat y div net_size j"
    using sh y by (simp add: net_contains_iff [OF b])
  then have "ip_nat x div net_size k = ip_nat y div net_size k"
    by (simp add: m div_mult2_eq)
  with sh(1) show ?thesis by (simp add: net_contains_iff [OF a])
qed

lemma netsOverlap_iff:
  assumes a: "is_net a k" and b: "is_net b j"
  shows "netsOverlap a b \<longleftrightarrow> (\<exists>x. net_contains a x \<and> net_contains b x)"
proof
  assume "netsOverlap a b"
  then show "\<exists>x. net_contains a x \<and> net_contains b x"
    using net_contains_self [OF a] net_contains_self [OF b] by (auto simp: netsOverlap_def)
next
  assume "\<exists>x. net_contains a x \<and> net_contains b x"
  then obtain x where x: "net_contains a x" "net_contains b x" by blast
  show "netsOverlap a b"
    using net_nested [OF a b _ x net_contains_self [OF b]]
      net_nested [OF b a _ x(2) x(1) net_contains_self [OF a]]
    unfolding netsOverlap_def by (cases "k \<le> j") auto
qed

lemma netsOverlap_sym: "netsOverlap a b = netsOverlap b a"
  by (auto simp: netsOverlap_def)

section \<open>Text round trips\<close>

lemma parse_octet_nat_str [simp]: "parse_octet (nat_str (unat (a :: u8))) = Some a"
proof -
  have lt: "unat a < 256" by (rule u8_less)
  have p: "parse_uint64 (nat_str (unat a)) = Inr (unat a)"
    using parse_digits_nat_str [of "unat a"] nat_str_digits [of "unat a"] lt
    by (auto simp: parse_uint64_def)
  have "\<not> (1 < length (nat_str n) \<and> hd (nat_str n) = CHR ''0'')" for n
  proof (induction n rule: nat_str.induct)
    case (1 n)
    show ?case
    proof (cases "n < 10")
      case False
      have ne: "nat_str (n div 10) \<noteq> []" using nat_str_digits by blast
      have "hd (nat_str (n div 10)) \<noteq> CHR ''0''"
      proof (cases "n div 10 < 10")
        case True
        then show ?thesis using False
          by (subst nat_str.simps) (auto simp: digit_def dest!: arg_cong [where f = "of_char :: char \<Rightarrow> nat"])
      next
        case False': False
        have "1 < length (nat_str (n div 10))"
          using False' nat_str_digits [of "n div 10 div 10"]
          by (subst nat_str.simps) (auto simp: length_greater_0_conv [symmetric] simp del: length_greater_0_conv)
        with 1 False show ?thesis by auto
      qed
      with False ne show ?thesis by (subst (1 2) nat_str.simps) (auto simp: hd_append)
    qed (subst nat_str.simps, simp)
  qed
  then have z: "\<not> (1 < length (nat_str (unat a)) \<and> hd (nat_str (unat a)) = CHR ''0'')" by blast
  show ?thesis unfolding parse_octet_def if_not_P [OF z] p using lt by simp
qed

lemma parse_ip4_ip_str [simp]: "parse_ip4 (ip_str x) = Some x"
proof (cases x)
  case (IP4 a b c d)
  have nodot: "CHR ''.'' \<notin> set (nat_str n)" for n
    using nat_str_digits [of n] by (auto simp: list_all_iff is_digit_def)
  have "split_on CHR ''.'' (ip_str x) = [nat_str (unat a), nat_str (unat b), nat_str (unat c), nat_str (unat d)]"
    using split_on_join [of "[nat_str (unat a), nat_str (unat b), nat_str (unat c), nat_str (unat d)]" "CHR ''.''"]
    by (simp add: IP4 nodot)
  then show ?thesis by (simp add: parse_ip4_def IP4)
qed

lemma ip_str_inj [simp]: "ip_str x = ip_str y \<longleftrightarrow> x = y"
  by (metis option.inject parse_ip4_ip_str)

lemma ip_str_chars: "c \<in> set (ip_str x) \<Longrightarrow> is_digit c \<or> c = CHR ''.''"
proof (cases x)
  case (IP4 a b c' d)
  assume "c \<in> set (ip_str x)"
  then show ?thesis
    using nat_str_digits [of "unat a"] nat_str_digits [of "unat b"] nat_str_digits [of "unat c'"]
      nat_str_digits [of "unat d"]
    by (auto simp: IP4 list_all_iff)
qed

lemma ip_str_word_like [simp]: "word_like (ip_str x)"
proof -
  have "printable c" if "c \<in> set (ip_str x)" for c
    using ip_str_chars [OF that] is_digit_printable [of c] by (auto simp: printable_def)
  moreover have "ip_str x \<noteq> []" by (cases x) simp
  ultimately show ?thesis by (auto simp: word_like_def list_all_iff)
qed

lemma parse_cidr_cidr_str [simp]:
  "k \<le> 32 \<Longrightarrow> parse_cidr (cidr_str ip k) = Some (ip, mk_net ip k)"
proof -
  assume k: "k \<le> 32"
  have "CHR ''/'' \<notin> set (ip_str ip)"
    using ip_str_chars [of "CHR ''/''" ip] by (auto simp: is_digit_def)
  moreover have "parse_uint64 (nat_str k) = Inr k"
    using parse_digits_nat_str [of k] nat_str_digits [of k] k by (auto simp: parse_uint64_def)
  ultimately show ?thesis using k by (simp add: parse_cidr_def cidr_str_def)
qed

lemma parse_cidr_Some:
  "parse_cidr s = Some (ip, n) \<Longrightarrow> \<exists>k. is_net n k \<and> k \<le> 32 \<and> n = mk_net ip k"
  unfolding parse_cidr_def
  by (auto split: option.splits prod.splits sum.splits if_splits)
    (blast intro: is_net_mk_net)

lemma net_str_is_net: "is_net n k \<Longrightarrow> net_str n = cidr_str (net_ip n) k"
  by (simp add: net_str_def)

lemma mk_net_net_ip: "is_net n k \<Longrightarrow> mk_net (net_ip n) k = n"
  by (simp add: mk_net_def is_net_def)

text \<open>Printing a network and parsing it again gives the network back.\<close>

lemma parse_cidr_net_str: "is_net n k \<Longrightarrow> parse_cidr (net_str n) = Some (net_ip n, n)"
  by (simp add: net_str_is_net mk_net_net_ip is_net_def [THEN iffD1, THEN conjunct1])

end
