(* ===== verification/World.thy ===== *)
theory World
  imports GoTime Store Addr
begin

text \<open>
  The machine around the program.  A \<open>world\<close> holds what the Go code reads and changes: the database, the
  configuration file, the other files, the clock, and an abstract state of the operating system on
  which commands act.  The commands themselves (\<^verbatim>\<open>wg\<close>, \<^verbatim>\<open>ipset\<close>, \<^verbatim>\<open>iptables\<close>, \<^verbatim>\<open>ip\<close>, \<^verbatim>\<open>systemctl\<close>) are not part
  of the repository: they are the parameter \<open>exec\<close> of a record \<open>os\<close>, with the OpenVPN management socket
  (\<open>dial\<close>), the random generator (\<open>random_hex\<close>) and the errors of file operations (\<open>fs_err\<close>) beside it.  Time
  does not pass inside one operation.

  A file is its text and its modification time.  Paths are the strings the code uses, cleaned
  lexically by \<open>path_join\<close> (\<^verbatim>\<open>filepath.Join\<close>); directories have no entry of their own.
\<close>

record finfo =
  content :: string
  mtime :: int

type_synonym fs = "string \<Rightarrow> finfo option"

record 'k os =
  exec :: "string \<Rightarrow> string list \<Rightarrow> string \<Rightarrow> fs \<Rightarrow> 'k \<Rightarrow> (string \<times> string option) \<times> 'k"
  dial :: "string \<Rightarrow> string \<Rightarrow> 'k \<Rightarrow> string + string list"
  random_hex :: "nat \<Rightarrow> 'k \<Rightarrow> string \<times> 'k"
  fs_err :: "string \<Rightarrow> string \<Rightarrow> string option"

record 'k world =
  db :: store
  conf :: "config option"
  files :: fs
  kern :: 'k
  now :: int

section \<open>Commands\<close>

text \<open>\<^verbatim>\<open>run\<close> (main.go): the combined output and the error, if any.  \<open>exec_in\<close> also feeds standard input.\<close>

definition exec_in :: "'k os \<Rightarrow> string \<Rightarrow> string list \<Rightarrow> string \<Rightarrow> 'k world \<Rightarrow> (string \<times> string option) \<times> 'k world" where
  "exec_in os name args inp w =
     (case exec os name args inp (files w) (kern w) of (r, k) \<Rightarrow> (r, w\<lparr>kern := k\<rparr>))"

definition run :: "'k os \<Rightarrow> string \<Rightarrow> string list \<Rightarrow> 'k world \<Rightarrow> (string \<times> string option) \<times> 'k world" where
  "run os name args = exec_in os name args []"

text \<open>A command whose output and error the code ignores.\<close>

definition runq :: "'k os \<Rightarrow> string \<Rightarrow> string list \<Rightarrow> 'k world \<Rightarrow> 'k world" where
  "runq os name args w = snd (run os name args w)"

definition mustRun :: "'k os \<Rightarrow> string \<Rightarrow> string list \<Rightarrow> ('k world, string) prog" where
  "mustRun os name args w =
     (case run os name args w of
        ((out, None), w') \<Rightarrow> (Inr out, w')
      | ((out, Some e), w') \<Rightarrow>
          (Inl (name @ '' '' @ join '' '' args @ '': '' @ e @ '': '' @ trim_space out), w'))"

lemma run_frame [simp]:
  "db (snd (run os name args w)) = db w" "files (snd (run os name args w)) = files w"
  "now (snd (run os name args w)) = now w" "conf (snd (run os name args w)) = conf w"
  by (simp_all add: run_def exec_in_def split: prod.splits)

lemma runq_frame [simp]:
  "db (runq os name args w) = db w" "files (runq os name args w) = files w"
  "now (runq os name args w) = now w" "conf (runq os name args w) = conf w"
  by (simp_all add: runq_def)

lemma mustRun_frame:
  "mustRun os name args w = (r, w') \<Longrightarrow>
     db w' = db w \<and> files w' = files w \<and> now w' = now w \<and> conf w' = conf w"
  by (auto simp: mustRun_def run_def exec_in_def split: prod.splits option.splits)

section \<open>Files\<close>

definition file_text :: "'k world \<Rightarrow> string \<Rightarrow> string option" where
  "file_text w path = map_option content (files w path)"

text \<open>\<^verbatim>\<open>os.WriteFile\<close>, \<^verbatim>\<open>os.Remove\<close> and \<^verbatim>\<open>os.Rename\<close>: the new world and the error.\<close>

definition write_file :: "'k os \<Rightarrow> string \<Rightarrow> string \<Rightarrow> 'k world \<Rightarrow> string option \<times> 'k world" where
  "write_file os path text w =
     (case fs_err os ''write'' path of
        Some e \<Rightarrow> (Some e, w)
      | None \<Rightarrow> (None, w\<lparr>files := (files w)(path \<mapsto> \<lparr>content = text, mtime = now w\<rparr>)\<rparr>))"

definition remove_file :: "'k os \<Rightarrow> string \<Rightarrow> 'k world \<Rightarrow> string option \<times> 'k world" where
  "remove_file os path w =
     (case fs_err os ''remove'' path of
        Some e \<Rightarrow> (Some e, w)
      | None \<Rightarrow>
          if files w path = None then (Some ''no such file or directory'', w)
          else (None, w\<lparr>files := (files w)(path := None)\<rparr>))"

definition rename_file :: "'k os \<Rightarrow> string \<Rightarrow> string \<Rightarrow> 'k world \<Rightarrow> string option \<times> 'k world" where
  "rename_file os a b w =
     (case fs_err os ''rename'' b of
        Some e \<Rightarrow> (Some e, w)
      | None \<Rightarrow>
          (case files w a of
             None \<Rightarrow> (Some ''no such file or directory'', w)
           | Some f \<Rightarrow> (None, w\<lparr>files := ((files w)(a := None))(b \<mapsto> f)\<rparr>)))"

text \<open>A file operation whose error makes the program die, with the message in front of it.\<close>

definition or_die :: "string \<Rightarrow> ('k world \<Rightarrow> string option \<times> 'k world) \<Rightarrow> ('k world, unit) prog" where
  "or_die msg f w = (case f w of (None, w') \<Rightarrow> (Inr (), w') | (Some e, w') \<Rightarrow> (Inl (msg @ e), w'))"

text \<open>Reading the configuration file (main.go, \<^verbatim>\<open>loadConfig\<close>); the JSON codec is not modelled.\<close>

definition loadConfig :: "('k world, config) prog" where
  "loadConfig w =
     (case conf w of
        None \<Rightarrow> (Inl ''cannot read /etc/wgmgr/config.json (run `wgmgr init` first)'', w)
      | Some c \<Rightarrow> (Inr c, w))"

definition saveConfig :: "'k os \<Rightarrow> config \<Rightarrow> ('k world, unit) prog" where
  "saveConfig os c w =
     (case fs_err os ''write'' ''/etc/wgmgr/config.json'' of
        Some e \<Rightarrow> (Inl (''write config: '' @ e), w)
      | None \<Rightarrow> (Inr (), w\<lparr>conf := Some c\<rparr>))"

section \<open>Paths\<close>

text \<open>
  \<^verbatim>\<open>filepath.Clean\<close> on the elements of a path: empty elements and \<^verbatim>\<open>.\<close> vanish, \<^verbatim>\<open>..\<close> removes the
  element before it, and stays only at the front of a relative path.
\<close>

fun clean_elems :: "bool \<Rightarrow> string list \<Rightarrow> string list \<Rightarrow> string list" where
  "clean_elems rooted acc [] = rev acc"
| "clean_elems rooted acc (e # es) =
     (if e = [] \<or> e = ''.'' then clean_elems rooted acc es
      else if e = ''..'' then
        (case acc of
           [] \<Rightarrow> if rooted then clean_elems rooted [] es else clean_elems rooted [e] es
         | a # as \<Rightarrow> if a = ''..'' then clean_elems rooted (e # acc) es else clean_elems rooted as es)
      else clean_elems rooted (e # acc) es)"

definition path_clean :: "string \<Rightarrow> string" where
  "path_clean p =
     (let rooted = has_prefix p ''/'';
          body = join ''/'' (clean_elems rooted [] (split_on CHR ''/'' p))
      in if rooted then ''/'' @ body else if body = [] then ''.'' else body)"

definition path_join :: "string \<Rightarrow> string \<Rightarrow> string" where
  "path_join a b =
     (if a = [] \<and> b = [] then []
      else if a = [] then path_clean b
      else if b = [] then path_clean a
      else path_clean (a @ ''/'' @ b))"

text \<open>A name that \<open>path_join\<close> keeps as one element below the directory.\<close>

definition plain_name :: "string \<Rightarrow> bool" where
  "plain_name n \<longleftrightarrow> n \<noteq> [] \<and> n \<noteq> ''.'' \<and> n \<noteq> ''..'' \<and> CHR ''/'' \<notin> set n"

definition clean_dir :: "string \<Rightarrow> bool" where
  "clean_dir d \<longleftrightarrow> d \<noteq> [] \<and> d \<noteq> ''/'' \<and> d \<noteq> ''.'' \<and> path_clean d = d"

lemma clean_elems_snoc:
  assumes "plain_name n"
  shows "clean_elems r acc (es @ [n]) = clean_elems r acc es @ [n]"
  using assms
  by (induction r acc es rule: clean_elems.induct) (auto simp: plain_name_def split: list.splits)

lemma join_snoc: "xs \<noteq> [] \<Longrightarrow> join s (xs @ [n]) = join s xs @ s @ n"
  by (induction s xs rule: join.induct) auto

lemma path_join_plain:
  assumes d: "clean_dir d" and n: "plain_name n"
  shows "path_join d n = d @ ''/'' @ n"
proof -
  define r where "r = has_prefix d ''/''"
  have ne: "d \<noteq> []" "n \<noteq> []" using d n by (auto simp: clean_dir_def plain_name_def)
  have r': "has_prefix (d @ ''/'' @ n) ''/'' = r"
    using ne by (cases d) (auto simp: r_def)
  have es: "split_on CHR ''/'' (d @ ''/'' @ n) = split_on CHR ''/'' d @ [n]"
    using n split_on_append [of "CHR ''/''" d n] split_on_no_sep [of "CHR ''/''" n]
    by (simp add: plain_name_def split_on_append2)
  define ds where "ds = clean_elems r [] (split_on CHR ''/'' d)"
  have "ds \<noteq> []"
    using d unfolding clean_dir_def path_clean_def r_def ds_def by (auto simp: Let_def split: if_splits)
  then have B: "join ''/'' (clean_elems r [] (split_on CHR ''/'' (d @ ''/'' @ n))) = join ''/'' ds @ ''/'' @ n"
    unfolding es by (simp add: clean_elems_snoc [OF n] join_snoc ds_def)
  have D: "(if r then ''/'' @ join ''/'' ds else join ''/'' ds) = d"
    using d unfolding clean_dir_def path_clean_def r_def ds_def
    by (auto simp: Let_def split: if_splits)
  have "path_join d n = path_clean (d @ ''/'' @ n)" using ne by (simp add: path_join_def)
  also have "\<dots> = (if r then ''/'' @ join ''/'' ds else join ''/'' ds) @ ''/'' @ n"
    unfolding path_clean_def Let_def r' B by simp
  finally show ?thesis unfolding D .
qed

lemma path_join_plain_inj:
  "clean_dir d \<Longrightarrow> plain_name m \<Longrightarrow> plain_name n \<Longrightarrow> path_join d m = path_join d n \<longleftrightarrow> m = n"
  by (simp add: path_join_plain)

end
