(* ===== verification/Pool.thy ===== *)
theory Pool
  imports Addr
begin

text \<open>
  Address allocation: \<^verbatim>\<open>hostAllocatable\<close> and \<^verbatim>\<open>nextFreeHost\<close> of subnet.go.  The locale
  \<open>address_pool\<close> is the interface both users of the allocator (the WireGuard and the OpenVPN address
  assignment) rely on: an allocated address is usable and free, and allocation fails only when no
  usable address is left.  The code's allocator is an interpretation of it, and is shown besides to
  return the lowest such address.
\<close>

definition hostAllocatable :: "ip4 \<Rightarrow> ipnet \<Rightarrow> bool" where
  "hostAllocatable ip n \<longleftrightarrow>
     net_contains n ip \<and>
     \<not> (last_byte ip = 0 \<or> last_byte ip = 255) \<and>
     ip \<noteq> network_addr n \<and> ip \<noteq> broadcastAddr n"

text \<open>The loop of \<^verbatim>\<open>nextFreeHost\<close>: \<open>k\<close> iterations are left.\<close>

fun free_loop :: "ipnet \<Rightarrow> (string \<Rightarrow> bool) \<Rightarrow> nat \<Rightarrow> ip4 \<Rightarrow> string option" where
  "free_loop n used k ip =
     (if k = 0 then None
      else if hostAllocatable ip n \<and> \<not> used (ip_str ip) then Some (ip_str ip)
      else free_loop n used (k - 1) (nextIP ip))"

declare free_loop.simps [simp del]

definition nextFreeHost :: "ipnet \<Rightarrow> (string \<Rightarrow> bool) \<Rightarrow> string option" where
  "nextFreeHost n used =
     (case mask_ones (net_mask n) of
        None \<Rightarrow> None
      | Some ones \<Rightarrow> free_loop n used (2 ^ (32 - ones)) (network_addr n))"

section \<open>The interface of an address pool\<close>

locale address_pool =
  fixes alloc :: "('a \<Rightarrow> bool) \<Rightarrow> 'a option"
    and usable :: "'a \<Rightarrow> bool"
  assumes alloc_Some: "alloc used = Some x \<Longrightarrow> usable x \<and> \<not> used x"
    and alloc_None: "alloc used = None \<Longrightarrow> usable x \<Longrightarrow> used x"
begin

lemma alloc_None_iff: "alloc used = None \<longleftrightarrow> (\<forall>x. usable x \<longrightarrow> used x)"
  by (metis alloc_None alloc_Some option.exhaust)

lemma alloc_succeeds: "usable x \<Longrightarrow> \<not> used x \<Longrightarrow> \<exists>y. alloc used = Some y"
  using alloc_None by blast

lemma alloc_distinct:
  "distinct xs \<Longrightarrow> alloc used = Some x \<Longrightarrow> (\<And>y. y \<in> set xs \<Longrightarrow> used y) \<Longrightarrow> distinct (x # xs)"
  using alloc_Some by auto

text \<open>Allocation keeps succeeding until every usable address is taken.\<close>

lemma alloc_capacity:
  assumes "finite {x. used x}" and "finite {x. usable x}" and "card {x. used x} < card {x. usable x}"
  shows "\<exists>y. alloc used = Some y \<and> usable y \<and> \<not> used y"
proof -
  have "\<not> {x. usable x} \<subseteq> {x. used x}"
    using assms by (meson card_mono linorder_not_less)
  then obtain x where "usable x" "\<not> used x" by blast
  then show ?thesis using alloc_succeeds alloc_Some by blast
qed

end

section \<open>The code's allocator\<close>

abbreviation nth_ip :: "nat \<Rightarrow> ip4 \<Rightarrow> ip4" where
  "nth_ip i \<equiv> nextIP ^^ i"

lemma free_loop_Some_iff:
  "free_loop n used k ip = Some s \<longleftrightarrow>
     (\<exists>i<k. s = ip_str (nth_ip i ip) \<and> hostAllocatable (nth_ip i ip) n \<and> \<not> used s \<and>
            (\<forall>j<i. hostAllocatable (nth_ip j ip) n \<longrightarrow> used (ip_str (nth_ip j ip))))"
proof (induction k arbitrary: ip)
  case 0
  show ?case by (simp add: free_loop.simps)
next
  case (Suc k)
  let ?take = "\<lambda>ip. hostAllocatable ip n \<and> \<not> used (ip_str ip)"
  show ?case
  proof (cases "?take ip")
    case True
    then show ?thesis
      by (subst free_loop.simps)
        (auto intro: exI [of _ 0] dest: spec [where x = 0] simp: not_less_eq gr0_conv_Suc)
  next
    case False
    have "free_loop n used (Suc k) ip = free_loop n used k (nextIP ip)"
      using False by (subst free_loop.simps) auto
    also have "\<dots> = Some s \<longleftrightarrow>
      (\<exists>i<k. s = ip_str (nth_ip (Suc i) ip) \<and> hostAllocatable (nth_ip (Suc i) ip) n \<and> \<not> used s \<and>
            (\<forall>j<i. hostAllocatable (nth_ip (Suc j) ip) n \<longrightarrow> used (ip_str (nth_ip (Suc j) ip))))"
      by (simp add: Suc.IH funpow_swap1)
    also have "\<dots> \<longleftrightarrow> (\<exists>i<Suc k. s = ip_str (nth_ip i ip) \<and> hostAllocatable (nth_ip i ip) n \<and> \<not> used s \<and>
            (\<forall>j<i. hostAllocatable (nth_ip j ip) n \<longrightarrow> used (ip_str (nth_ip j ip))))"
      using False by (auto simp: Ex_less_Suc2 All_less_Suc2)
    finally show ?thesis .
  qed
qed

lemma free_loop_None_iff:
  "free_loop n used k ip = None \<longleftrightarrow>
     (\<forall>i<k. hostAllocatable (nth_ip i ip) n \<longrightarrow> used (ip_str (nth_ip i ip)))"
proof (induction k arbitrary: ip)
  case (Suc k)
  show ?case
    by (subst free_loop.simps) (auto simp: Suc.IH All_less_Suc2 funpow_swap1)
qed (simp add: free_loop.simps)

lemma ip_nat_nth: "ip_nat (nth_ip i x) = (ip_nat x + i) mod 2 ^ 32"
proof (induction i)
  case 0
  show ?case using ip_nat_less [of x] by simp
next
  case (Suc i)
  then show ?case by (simp add: ip_nat_next mod_Suc_eq)
qed

text \<open>A network whose mask is canonical; the loop visits exactly its addresses, lowest first.\<close>

definition canonical :: "ipnet \<Rightarrow> ipnet" where
  "canonical n = \<lparr>net_ip = network_addr n, net_mask = net_mask n\<rparr>"

lemma canonical_is_net: "mask_ones (net_mask n) = Some k \<Longrightarrow> is_net (canonical n) k"
  unfolding mask_ones_def
  by (drule find_Some_iff2) (auto simp: is_net_def canonical_def network_addr_def ip_and_assoc_mask)

lemma canonical_same [simp]:
  "net_ip (canonical n) = network_addr n"
  "net_contains (canonical n) x = net_contains n x"
  "network_addr (canonical n) = network_addr n"
  "broadcastAddr (canonical n) = broadcastAddr n"
  by (simp_all add: canonical_def net_contains_def network_addr_def broadcastAddr_def ip_and_assoc_mask)


lemma net_top: "is_net n k \<Longrightarrow> ip_nat (net_ip n) + net_size k \<le> 2 ^ 32"
  using ip_nat_broadcast [of n k] ip_nat_less [of "broadcastAddr n"] net_size_pos [of k] by simp

lemma net_contains_nth:
  assumes n: "is_net n k"
  shows "net_contains n x \<longleftrightarrow> (\<exists>i<net_size k. x = nth_ip i (net_ip n))"
proof -
  have nat: "i < net_size k \<Longrightarrow> ip_nat (nth_ip i (net_ip n)) = ip_nat (net_ip n) + i" for i
    using net_top [OF n] by (simp add: ip_nat_nth)
  show ?thesis
  proof
    assume "net_contains n x"
    then have r: "ip_nat (net_ip n) \<le> ip_nat x" "ip_nat x < ip_nat (net_ip n) + net_size k"
      using net_contains_range [OF n] by auto
    let ?i = "ip_nat x - ip_nat (net_ip n)"
    have "?i < net_size k" using r by linarith
    moreover have "ip_nat (nth_ip ?i (net_ip n)) = ip_nat x" using nat [of ?i] r by simp
    then have "x = nth_ip ?i (net_ip n)" by simp
    ultimately show "\<exists>i<net_size k. x = nth_ip i (net_ip n)" by blast
  next
    assume "\<exists>i<net_size k. x = nth_ip i (net_ip n)"
    then show "net_contains n x" using nat by (auto simp: net_contains_range [OF n])
  qed
qed

lemma hostAllocatable_contains: "hostAllocatable x n \<Longrightarrow> net_contains n x"
  by (simp add: hostAllocatable_def)

lemma nextFreeHost_lowest_iff:
  assumes k: "mask_ones (net_mask n) = Some k"
  shows "nextFreeHost n used = Some s \<longleftrightarrow>
    (\<exists>x. s = ip_str x \<and> hostAllocatable x n \<and> \<not> used s \<and>
         (\<forall>y. hostAllocatable y n \<longrightarrow> ip_nat y < ip_nat x \<longrightarrow> used (ip_str y)))"
    (is "_ \<longleftrightarrow> (\<exists>x. ?low x)")
proof -
  let ?b = "network_addr n"
  have net: "is_net (canonical n) k" using k by (rule canonical_is_net)
  have b: "net_ip (canonical n) = ?b" by (simp add: canonical_def)
  have nat: "ip_nat (nth_ip i ?b) = ip_nat ?b + i" if "i < net_size k" for i
    using net_top [OF net] that by (simp add: ip_nat_nth b)
  have visit: "hostAllocatable x n \<Longrightarrow> \<exists>i<net_size k. x = nth_ip i ?b" for x
    using net_contains_nth [OF net, of x] by (auto simp: hostAllocatable_def b)
  have "nextFreeHost n used = free_loop n used (net_size k) ?b"
    by (simp add: nextFreeHost_def k net_size_def)
  then have "nextFreeHost n used = Some s \<longleftrightarrow>
     (\<exists>i<net_size k. s = ip_str (nth_ip i ?b) \<and> hostAllocatable (nth_ip i ?b) n \<and> \<not> used s \<and>
            (\<forall>j<i. hostAllocatable (nth_ip j ?b) n \<longrightarrow> used (ip_str (nth_ip j ?b))))"
    by (simp add: free_loop_Some_iff)
  also have "\<dots> \<longleftrightarrow> (\<exists>i<net_size k. ?low (nth_ip i ?b))"
  proof -
    have "(\<forall>j<i. hostAllocatable (nth_ip j ?b) n \<longrightarrow> used (ip_str (nth_ip j ?b))) \<longleftrightarrow>
        (\<forall>y. hostAllocatable y n \<longrightarrow> ip_nat y < ip_nat (nth_ip i ?b) \<longrightarrow> used (ip_str y))"
      if i: "i < net_size k" for i
    proof safe
      fix y assume all: "\<forall>j<i. hostAllocatable (nth_ip j ?b) n \<longrightarrow> used (ip_str (nth_ip j ?b))"
        and y: "hostAllocatable y n" "ip_nat y < ip_nat (nth_ip i ?b)"
      obtain j where j: "j < net_size k" "y = nth_ip j ?b" using visit [OF y(1)] by blast
      then have "j < i" using y(2) nat i by simp
      then show "used (ip_str y)" using all y(1) j(2) by blast
    next
      fix j assume all: "\<forall>y. hostAllocatable y n \<longrightarrow> ip_nat y < ip_nat (nth_ip i ?b) \<longrightarrow> used (ip_str y)"
        and j: "j < i" "hostAllocatable (nth_ip j ?b) n"
      then show "used (ip_str (nth_ip j ?b))" using nat [of j] nat [OF i] i by simp
    qed
    then show ?thesis by blast
  qed
  also have "\<dots> \<longleftrightarrow> (\<exists>x. ?low x)" using visit by blast
  finally show ?thesis .
qed

text \<open>What the pool may hand out, as text.\<close>

definition pool_usable :: "ipnet \<Rightarrow> string \<Rightarrow> bool" where
  "pool_usable n s \<longleftrightarrow>
     mask_ones (net_mask n) \<noteq> None \<and> (\<exists>x. s = ip_str x \<and> hostAllocatable x n)"

lemma nextFreeHost_None:
  assumes "nextFreeHost n used = None" and "pool_usable n s"
  shows "used s"
proof -
  obtain k x where k: "mask_ones (net_mask n) = Some k" and x: "s = ip_str x" "hostAllocatable x n"
    using assms(2) by (auto simp: pool_usable_def)
  have net: "is_net (canonical n) k" using k by (rule canonical_is_net)
  obtain i where "i < net_size k" "x = nth_ip i (network_addr n)"
    using net_contains_nth [OF net, of x] x(2) by (auto simp: hostAllocatable_def)
  with assms(1) x show ?thesis
    by (auto simp: nextFreeHost_def k net_size_def free_loop_None_iff)
qed

interpretation host_pool: address_pool "nextFreeHost n" "pool_usable n" for n
proof
  fix used x
  assume a: "nextFreeHost n used = Some x"
  then obtain k where "mask_ones (net_mask n) = Some k"
    by (auto simp: nextFreeHost_def split: option.splits)
  with a show "pool_usable n x \<and> \<not> used x"
    by (auto simp: nextFreeHost_lowest_iff pool_usable_def)
next
  fix used x
  assume "nextFreeHost n used = None" and "pool_usable n x"
  then show "used x" by (rule nextFreeHost_None)
qed


section \<open>Capacity\<close>

lemma last_byte_nat: "unat (last_byte x) = ip_nat x mod 256"
  by (cases x) (simp add: ip_nat_bytes(4))

lemma ip_nat_surj: "N < 2 ^ 32 \<Longrightarrow> \<exists>x. ip_nat x = N"
  by (rule exI [of _ "nth_ip N (IP4 0 0 0 0)"]) (simp add: ip_nat_nth ip_nat_IP4)

lemma hostAllocatable_nat:
  assumes n: "is_net n k" and k: "k \<le> 24"
  shows "hostAllocatable x n \<longleftrightarrow>
    ip_nat (net_ip n) \<le> ip_nat x \<and> ip_nat x < ip_nat (net_ip n) + net_size k \<and>
    ip_nat x mod 256 \<noteq> 0 \<and> ip_nat x mod 256 \<noteq> 255"
proof -
  have d: "256 dvd net_size k"
    using le_imp_power_dvd [of 8 "32 - k" "2 :: nat"] k by (simp add: net_size_def)
  have b: "256 dvd ip_nat (net_ip n)" using dvd_trans [OF d net_base_dvd [OF n]] .
  obtain q r where q: "ip_nat (net_ip n) = 256 * q" and r: "net_size k = 256 * r"
    using d b by (auto simp: dvd_def)
  have "0 < r" using r net_size_pos [of k] by simp
  then have "ip_nat (broadcastAddr n) = 256 * (q + r - 1) + 255"
    by (cases r) (simp_all add: ip_nat_broadcast [OF n] q r)
  then have bc: "ip_nat (broadcastAddr n) mod 256 = 255"
    by simp
  have nb: "ip_nat (network_addr n) mod 256 = 0" using n by (simp add: q)
  have z: "last_byte x = 0 \<longleftrightarrow> ip_nat x mod 256 = 0"
    by (simp add: word_unat_eq_iff last_byte_nat)
  have o: "last_byte x = 255 \<longleftrightarrow> ip_nat x mod 256 = 255"
    by (simp add: word_unat_eq_iff last_byte_nat)
  show ?thesis
    using nb bc unfolding hostAllocatable_def net_contains_range [OF n] z o by auto
qed

lemma pool_capacity:
  assumes n: "is_net n k" and k: "k \<le> 24"
  shows "card {x. hostAllocatable x n} = 254 * 2 ^ (24 - k)"
proof -
  define M where "M = (2 :: nat) ^ (24 - k)"
  have size: "net_size k = 256 * M"
  proof -
    have e: "32 - k = 8 + (24 - k)" using k by arith
    show ?thesis unfolding net_size_def M_def e power_add by simp
  qed
  have b: "256 dvd ip_nat (net_ip n)"
    using dvd_trans [OF _ net_base_dvd [OF n], of 256] by (simp add: size)
  then obtain Q where Q: "ip_nat (net_ip n) = 256 * Q" by (auto simp: dvd_def)
  let ?f = "\<lambda>(q, r). 256 * q + r :: nat"
  let ?A = "{Q..<Q + M} \<times> {1..(254 :: nat)}"
  have "ip_nat ` {x. hostAllocatable x n} = ?f ` ?A"
  proof (safe)
    fix x assume "hostAllocatable x n"
    then have h: "256 * Q \<le> ip_nat x" "ip_nat x < 256 * (Q + M)" "ip_nat x mod 256 \<noteq> 0"
      "ip_nat x mod 256 \<noteq> 255" by (auto simp: hostAllocatable_nat [OF n k] Q size)
    have "ip_nat x mod 256 < 256" by simp
    moreover have "ip_nat x = ?f (ip_nat x div 256, ip_nat x mod 256)" by simp
    moreover have "Q \<le> ip_nat x div 256" "ip_nat x div 256 < Q + M"
      using h(1,2) by (simp_all add: less_eq_div_iff_mult_less_eq less_mult_imp_div_less mult.commute)
    ultimately show "ip_nat x \<in> ?f ` ?A" using h(3,4)
      by (intro image_eqI [of _ _ "(ip_nat x div 256, ip_nat x mod 256)"]) auto
  next
    fix q r :: nat assume qr: "q \<in> {Q..<Q + M}" "r \<in> {1..254}"
    have top: "256 * Q + 256 * M \<le> 2 ^ 32" using net_top [OF n] by (simp add: Q size)
    from qr have "q < Q + M" "r < 256" by auto
    then have "256 * q + r < 256 * Q + 256 * M" by linarith
    then have "256 * q + r < 2 ^ 32" using top by (rule less_le_trans)
    then obtain x where x: "ip_nat x = 256 * q + r" using ip_nat_surj by blast
    have "(256 * q + r) mod 256 = r" using \<open>r < 256\<close> by simp
    then have "hostAllocatable x n"
      unfolding hostAllocatable_nat [OF n k] Q size x using qr \<open>256 * q + r < 256 * Q + 256 * M\<close>
      by simp
    then show "256 * q + r \<in> ip_nat ` {x. hostAllocatable x n}" using x by (metis image_eqI mem_Collect_eq)
  qed
  moreover have "inj_on ip_nat {x. hostAllocatable x n}" by (simp add: inj_on_def)
  ultimately have "card {x. hostAllocatable x n} = card (?f ` ?A)" by (metis card_image)
  also have "\<dots> = card ?A"
  proof (rule card_image)
    have uniq: "q = q' \<and> r = r'" if "256 * q + r = 256 * q' + r'" "r < 256" "r' < 256" for q r q' r' :: nat
    proof -
      have "(256 * q + r) div 256 = q" "(256 * q' + r') div 256 = q'" using that(2,3) by simp_all
      then have "q = q'" using that(1) by metis
      then show ?thesis using that(1) by simp
    qed
    show "inj_on ?f ?A"
    proof (rule inj_onI)
      fix p p' assume "p \<in> ?A" "p' \<in> ?A" "?f p = ?f p'"
      then show "p = p'"
        using uniq [of "fst p" "snd p" "fst p'" "snd p'"] by (simp add: case_prod_beta prod_eq_iff mem_Times_iff)
    qed
  qed
  also have "\<dots> = 254 * 2 ^ (24 - k)"
    by (simp only: card_cartesian_product card_atLeastLessThan card_atLeastAtMost M_def) simp
  finally show ?thesis .
qed

section \<open>Properties\<close>

text \<open>
  The allocator returns the numerically lowest address of the pool that is usable (not a \<^verbatim>\<open>.0\<close> or
  \<^verbatim>\<open>.255\<close> address, nor the pool's first or last) and not in use, and nothing exactly when there is none.
\<close>

theorem allocator_lowest:
  assumes "mask_ones (net_mask n) = Some k"
  shows "(nextFreeHost n used = Some s \<longleftrightarrow>
      (\<exists>x. s = ip_str x \<and> hostAllocatable x n \<and> \<not> used s \<and>
         (\<forall>y. hostAllocatable y n \<longrightarrow> ip_nat y < ip_nat x \<longrightarrow> used (ip_str y)))) \<and>
    (nextFreeHost n used = None \<longleftrightarrow> (\<forall>x. hostAllocatable x n \<longrightarrow> used (ip_str x)))"
proof -
  have "nextFreeHost n used = None \<longleftrightarrow> (\<forall>x. hostAllocatable x n \<longrightarrow> used (ip_str x))"
    unfolding host_pool.alloc_None_iff pool_usable_def using assms by auto
  then show ?thesis using nextFreeHost_lowest_iff [OF assms] by blast
qed

lemma allocator_lowest_witness:
  "nextFreeHost (mk_net (IP4 10 66 66 1) 30) (\<lambda>s. False) \<noteq> None"
proof -
  have m: "mask_ones (net_mask (mk_net (IP4 10 66 66 1) 30)) = Some 30" by code_simp
  have "hostAllocatable (IP4 10 66 66 2) (mk_net (IP4 10 66 66 1) 30)" by code_simp
  then show ?thesis using allocator_lowest [OF m, of "\<lambda>s. False"] by blast
qed

text \<open>
  A pool of prefix length \<open>k \<le> 24\<close> has exactly \<open>254 * 2^(24-k)\<close> usable addresses, and allocation succeeds
  as long as fewer addresses than that are in use: widening a pool really makes room.
\<close>

theorem pool_has_room:
  assumes "is_net n k" "k \<le> 24" "finite {s. used s}" "card {s. used s} < 254 * 2 ^ (24 - k)"
  shows "card {x. hostAllocatable x n} = 254 * 2 ^ (24 - k) \<and>
    (\<exists>x. nextFreeHost n used = Some (ip_str x) \<and> hostAllocatable x n \<and> \<not> used (ip_str x))"
proof -
  have m: "mask_ones (net_mask n) \<noteq> None" using mask_ones_is_net [OF assms(1)] by simp
  have u: "{s. pool_usable n s} = ip_str ` {x. hostAllocatable x n}"
    using m by (auto simp: pool_usable_def)
  have c: "card {s. pool_usable n s} = 254 * 2 ^ (24 - k)"
    unfolding u using pool_capacity [OF assms(1,2)] by (subst card_image) (simp_all add: inj_on_def)
  then have "finite {s. pool_usable n s}" by (intro card_ge_0_finite) simp
  from host_pool.alloc_capacity [OF assms(3) this] show ?thesis
    using assms(4) c pool_capacity [OF assms(1,2)] by (auto simp: pool_usable_def)
qed

lemma pool_has_room_witness:
  "\<exists>x. nextFreeHost (mk_net (IP4 10 66 66 1) 24) (\<lambda>s. s = ''10.66.66.1'') = Some (ip_str x)"
proof -
  have n: "is_net (mk_net (IP4 10 66 66 1) 24) 24" by (rule is_net_mk_net) simp
  show ?thesis using pool_has_room [OF n, of "\<lambda>s. s = ''10.66.66.1''"] by auto
qed

end
