(* ===== verification/WgConf.thy ===== *)
theory WgConf
  imports World Pool
begin

text \<open>
  The WireGuard side of main.go: reading the head of \<^verbatim>\<open>wg0.conf\<close> (\<open>interfaceHead\<close>), rendering the managed peer
  section (\<open>renderPeerSection\<close>), replacing the file and applying it to the running interface (\<open>renderConf\<close>,
  \<open>applyLive\<close>), the client's configuration text, and creating a WireGuard user (\<open>genKeys\<close>, \<open>nextFreeIP\<close>,
  \<open>create_wg\<close>, the sequence \<^verbatim>\<open>cmdAdd\<close> and the panel's \<^verbatim>\<open>createPeer\<close> share).

  \<^verbatim>\<open>Address\<close> values that are not IPv4 CIDR text are ignored, as the code ignores what it cannot parse.
\<close>

section \<open>The head of the file\<close>

definition nl :: string where "nl = [CHR 0x0A]"

definition lines :: "string \<Rightarrow> string list" where
  "lines s = split_on CHR 0x0A s"

definition peerMarker :: string where
  "peerMarker = ''# >>> wgmgr managed peers (do not edit below) >>>''"

definition isHeadEnd :: "string \<Rightarrow> bool" where
  "isHeadEnd t \<longleftrightarrow> t = peerMarker \<or> t = ''[Peer]'' \<or> has_prefix t ''### Client'' \<or> has_prefix t ''# >>> wgmgr''"

definition head_lines :: "string \<Rightarrow> string list" where
  "head_lines text = takeWhile (\<lambda>l. \<not> isHeadEnd (trim_space l)) (lines text)"

definition confHead :: "string \<Rightarrow> string" where
  "confHead text = join nl (head_lines text)"

text \<open>\<^verbatim>\<open>t[strings.Index(t, "=")+1:]\<close>; without a \<^verbatim>\<open>=\<close> the index is -1 and the whole text is kept.\<close>

definition after_eq :: "string \<Rightarrow> string" where
  "after_eq t = (case cut_at CHR ''='' t of None \<Rightarrow> t | Some (_, v) \<Rightarrow> v)"

definition address_line :: "(ip4 \<times> ipnet) option \<Rightarrow> string \<Rightarrow> (ip4 \<times> ipnet) option" where
  "address_line acc l =
     (let t = trim_space l in
      if has_prefix (to_lower t) ''address'' then
        (case parse_cidr (trim_space (hd (split_on CHR '','' (after_eq t)))) of
           Some r \<Rightarrow> Some r
         | None \<Rightarrow> acc)
      else acc)"

definition head_address :: "string \<Rightarrow> (ip4 \<times> ipnet) option" where
  "head_address text = foldl address_line None (head_lines text)"

definition interfaceHead :: "string \<Rightarrow> ('k world, string \<times> ipnet \<times> ip4) prog" where
  "interfaceHead path w =
     (case file_text w path of
        None \<Rightarrow> (Inl (''read '' @ path), w)
      | Some text \<Rightarrow>
          (case head_address text of
             None \<Rightarrow> (Inl (''could not parse Address/subnet from '' @ path), w)
           | Some (ip, n) \<Rightarrow> (Inr (confHead text, n, ip), w)))"

section \<open>The peer section\<close>

definition peer_lines :: "peer \<Rightarrow> string list" where
  "peer_lines p =
     [[], ''### wgmgr:'' @ Username p, ''[Peer]'', ''PublicKey = '' @ PublicKey p] @
     (if PSK p \<noteq> [] then [''PresharedKey = '' @ PSK p] else []) @
     [''AllowedIPs = '' @ Address p @ ''/32'']"

definition render_peer :: "peer \<Rightarrow> string" where
  "render_peer p = (if PublicKey p = [] then [] else concat (map (\<lambda>l. l @ nl) (peer_lines p)))"

definition renderPeerSection :: "store \<Rightarrow> string" where
  "renderPeerSection st = nl @ nl @ peerMarker @ nl @ concat (map render_peer (allPeers st))"

definition livePeers :: "'k os \<Rightarrow> string \<Rightarrow> 'k world \<Rightarrow> string list \<times> 'k world" where
  "livePeers os iface w =
     (case run os ''wg'' [''show'', iface, ''peers''] w of
        ((out, None), w') \<Rightarrow> (str_fields out, w')
      | ((_, Some _), w') \<Rightarrow> ([], w'))"

definition applyLive :: "'k os \<Rightarrow> config \<Rightarrow> ('k world, unit) prog" where
  "applyLive os cfg =
     and_then (mustRun os ''wg-quick'' [''strip'', Interface cfg]) (\<lambda>stripped.
       let tmp = ''/tmp/wgmgr-'' @ Interface cfg @ ''.strip'' in
       and_then (or_die ''write strip: '' (write_file os tmp stripped)) (\<lambda>_ w.
         (case run os ''wg'' [''syncconf'', Interface cfg, tmp] w of
            ((out, e), w1) \<Rightarrow>
              (case e of None \<Rightarrow> Inr () | Some e \<Rightarrow> Inl (''wg syncconf: '' @ e @ '': '' @ out),
               snd (remove_file os tmp w1)))))"

text \<open>The guard of \<open>renderConf\<close>: a running peer that the database does not know.\<close>

definition unknown_live :: "store \<Rightarrow> string list \<Rightarrow> string option" where
  "unknown_live st live = find (\<lambda>pk. pk \<notin> PublicKey ` set (allPeers st)) live"

definition replace_conf :: "'k os \<Rightarrow> config \<Rightarrow> string \<Rightarrow> ('k world, unit) prog" where
  "replace_conf os cfg head =
     and_then (gets (\<lambda>w. trim_right_char CHR 0x0A head @ renderPeerSection (db w))) (\<lambda>text.
     and_then (or_die ''write conf: '' (write_file os (WGConf cfg @ ''.wgmgr.tmp'') text)) (\<lambda>_.
     and_then (or_die ''replace conf: '' (rename_file os (WGConf cfg @ ''.wgmgr.tmp'') (WGConf cfg))) (\<lambda>_.
     applyLive os cfg)))"

definition renderConf :: "'k os \<Rightarrow> config \<Rightarrow> bool \<Rightarrow> ('k world, unit) prog" where
  "renderConf os cfg force w0 =
     (if WGConf cfg = [] then (Inr (), w0)
      else
        (let (live, w1) = (if force then ([], w0) else livePeers os (Interface cfg) w0) in
         case unknown_live (db w1) live of
           Some pk \<Rightarrow>
             (Inl (''refusing to render: live peer '' @ pk @ '' is not in the wgmgr DB '' @ dash @ '' run `wgmgr import` first''), w1)
         | None \<Rightarrow> and_then (interfaceHead (WGConf cfg)) (\<lambda>(head, _, _). replace_conf os cfg head) w1))"

section \<open>The client's configuration\<close>

definition params_line :: "(string \<Rightarrow> string option) \<Rightarrow> string \<Rightarrow> (string \<Rightarrow> string option)" where
  "params_line m l =
     (let line = trim_space l in
      if line = [] \<or> has_prefix line ''#'' then m
      else (case cut_at CHR ''='' line of
              Some (k, v) \<Rightarrow> if k = [] then m else m(trim_space k \<mapsto> trim_space v)
            | None \<Rightarrow> m))"

definition params_of :: "string \<Rightarrow> string \<Rightarrow> string option" where
  "params_of text = foldl params_line Map.empty (lines text)"

definition parseParams :: "string \<Rightarrow> ('k world, string \<Rightarrow> string option) prog" where
  "parseParams path w =
     (case file_text w path of
        None \<Rightarrow> (Inl (''cannot read params '' @ path), w)
      | Some text \<Rightarrow> (Inr (params_of text), w))"

definition param :: "(string \<Rightarrow> string option) \<Rightarrow> string \<Rightarrow> string" where
  "param m k = (case m k of None \<Rightarrow> [] | Some v \<Rightarrow> v)"

definition client_text :: "(string \<Rightarrow> string option) \<Rightarrow> peer \<Rightarrow> string" where
  "client_text pm p =
     (let dns = param pm ''CLIENT_DNS_1'' @
            (if param pm ''CLIENT_DNS_2'' \<noteq> [] then '', '' @ param pm ''CLIENT_DNS_2'' else []);
          allowed = (if param pm ''ALLOWED_IPS'' = [] then ''0.0.0.0/0,::/0'' else param pm ''ALLOWED_IPS'')
      in concat (map (\<lambda>l. l @ nl)
           ([''[Interface]'', ''PrivateKey = '' @ PrivateKey p, ''Address = '' @ Address p @ ''/32'',
             ''DNS = '' @ dns, [], ''[Peer]'', ''PublicKey = '' @ param pm ''SERVER_PUB_KEY''] @
            (if PSK p \<noteq> [] then [''PresharedKey = '' @ PSK p] else []) @
            [''Endpoint = '' @ param pm ''SERVER_PUB_IP'' @ '':'' @ param pm ''SERVER_PORT'',
             ''AllowedIPs = '' @ allowed, ''PersistentKeepalive = 25''])))"

definition clientConfig :: "config \<Rightarrow> peer \<Rightarrow> ('k world, string) prog" where
  "clientConfig cfg p = and_then (parseParams (Params cfg)) (\<lambda>pm. finish (client_text pm p))"

section \<open>Creating a WireGuard user\<close>

definition genKeys :: "'k os \<Rightarrow> ('k world, string \<times> string \<times> string) prog" where
  "genKeys os =
     and_then (mustRun os ''wg'' [''genkey'']) (\<lambda>out.
       let priv = trim_space out in
       and_then (\<lambda>w. case exec_in os ''wg'' [''pubkey''] (priv @ nl) w of
             ((pubout, None), w') \<Rightarrow> (Inr (trim_space pubout), w')
           | ((pubout, Some e), w') \<Rightarrow> (Inl (''wg pubkey: '' @ e @ '': '' @ pubout), w')) (\<lambda>pub.
       and_then (mustRun os ''wg'' [''genpsk'']) (\<lambda>psk. finish (priv, pub, trim_space psk))))"

definition wg_used :: "store \<Rightarrow> ip4 \<Rightarrow> string \<Rightarrow> bool" where
  "wg_used st server s \<longleftrightarrow> s = ip_str server \<or> list_ex (\<lambda>p. Address p = s) (allPeers st)"

definition nextFreeIP :: "string \<Rightarrow> ('k world, string) prog" where
  "nextFreeIP path =
     and_then (interfaceHead path) (\<lambda>(_, n, server) w.
       case nextFreeHost n (wg_used (db w) server) of
         Some ip \<Rightarrow> (Inr ip, w)
       | None \<Rightarrow> (Inl (''no free IP in '' @ net_str n @ '' '' @ dash @
              '' widen the pool with `wgmgr expand-subnet` (existing configs keep working)''), w))"

definition insert_peer :: "peer \<Rightarrow> ('k world, unit) prog" where
  "insert_peer p w =
     (case sql_insert p (db w) of
        Inl e \<Rightarrow> (Inl (''insert: '' @ e), w)
      | Inr st \<Rightarrow> (Inr (), w\<lparr>db := st\<rparr>))"

definition new_wg_row :: "string \<Rightarrow> string \<times> string \<times> string \<Rightarrow> string \<Rightarrow> int \<Rightarrow> string \<Rightarrow> peer" where
  "new_wg_row u keys ip quota expires =
     (case keys of (priv, pub, psk) \<Rightarrow>
        default_row\<lparr>Username := u, PublicKey := pub, PrivateKey := priv, PSK := psk, Address := ip,
          QuotaBytes := quota, ExpiresAt := expires\<rparr>)"

definition create_wg :: "'k os \<Rightarrow> config \<Rightarrow> string \<Rightarrow> int \<Rightarrow> string \<Rightarrow> ('k world, unit) prog" where
  "create_wg os cfg u quota expires =
     and_then (genKeys os) (\<lambda>keys.
     and_then (nextFreeIP (WGConf cfg)) (\<lambda>ip.
     and_then (insert_peer (new_wg_row u keys ip quota expires)) (\<lambda>_.
     renderConf os cfg False)))"

section \<open>What stays untouched\<close>

lemma interfaceHead_world: "interfaceHead path w = (r, w') \<Longrightarrow> w' = w"
  by (auto simp: interfaceHead_def split: option.splits prod.splits)

lemma write_file_frame [simp]:
  "db (snd (write_file os p t w)) = db w" "now (snd (write_file os p t w)) = now w"
  "conf (snd (write_file os p t w)) = conf w" "kern (snd (write_file os p t w)) = kern w"
  by (auto simp: write_file_def split: option.splits)

lemma remove_file_frame [simp]:
  "db (snd (remove_file os p w)) = db w" "now (snd (remove_file os p w)) = now w"
  "conf (snd (remove_file os p w)) = conf w" "kern (snd (remove_file os p w)) = kern w"
  by (auto simp: remove_file_def split: option.splits)

lemma rename_file_frame [simp]:
  "db (snd (rename_file os p q w)) = db w" "now (snd (rename_file os p q w)) = now w"
  "conf (snd (rename_file os p q w)) = conf w" "kern (snd (rename_file os p q w)) = kern w"
  by (auto simp: rename_file_def split: option.splits)

text \<open>Programs that leave the database alone, composed.\<close>

definition keeps_db :: "('k world, 'a) prog \<Rightarrow> bool" where
  "keeps_db p \<longleftrightarrow> (\<forall>w. db (snd (p w)) = db w)"

named_theorems keeps_db_rules "programs that leave the database alone"

lemma keeps_dbI: "(\<And>w. db (snd (p w)) = db w) \<Longrightarrow> keeps_db p"
  by (simp add: keeps_db_def)

lemma keeps_dbD: "keeps_db p \<Longrightarrow> p w = (r, w') \<Longrightarrow> db w' = db w"
  unfolding keeps_db_def by (metis snd_conv)

lemma keeps_db_run: "keeps_db p \<Longrightarrow> db (snd (p w)) = db w"
  by (simp add: keeps_db_def)

lemma keeps_db_and_then [keeps_db_rules]:
  "keeps_db p \<Longrightarrow> (\<And>a. keeps_db (f a)) \<Longrightarrow> keeps_db (and_then p f)"
  unfolding keeps_db_def and_then_def by (auto split: prod.splits sum.splits) (metis snd_conv)+

lemma keeps_db_basic [keeps_db_rules]:
  "keeps_db (finish a)" "keeps_db (die e)" "keeps_db (gets g)" "keeps_db (lift_sum r)"
  by (simp_all add: keeps_db_def)

lemma keeps_db_or_die [keeps_db_rules]:
  "(\<And>w. db (snd (f w)) = db w) \<Longrightarrow> keeps_db (or_die msg f)"
  unfolding keeps_db_def or_die_def by (auto split: prod.splits option.splits) (metis snd_conv)+

lemma keeps_db_mustRun [keeps_db_rules]: "keeps_db (mustRun os c a)"
  unfolding keeps_db_def using mustRun_frame by (metis prod.collapse)

lemma keeps_db_interfaceHead [keeps_db_rules]: "keeps_db (interfaceHead path)"
  unfolding keeps_db_def using interfaceHead_world by (metis prod.collapse)

lemma keeps_db_applyLive [keeps_db_rules]: "keeps_db (applyLive os cfg)"
  unfolding applyLive_def Let_def
  by (intro keeps_db_rules write_file_frame) (auto intro!: keeps_dbI simp: run_def exec_in_def split: prod.split)

lemma livePeers_frame: "livePeers os i w = (l, w') \<Longrightarrow> db w' = db w \<and> files w' = files w \<and> now w' = now w"
  by (auto simp: livePeers_def run_def exec_in_def split: prod.splits option.splits)

lemma keeps_db_replace_conf [keeps_db_rules]: "keeps_db (replace_conf os cfg head)"
  unfolding replace_conf_def by (intro keeps_db_rules) simp_all

lemma keeps_db_renderConf [keeps_db_rules]: "keeps_db (renderConf os cfg force)"
proof (rule keeps_dbI)
  fix w
  have r: "keeps_db (and_then (interfaceHead (WGConf cfg)) (\<lambda>(head, _, _). replace_conf os cfg head))"
    (is "keeps_db ?p") by (auto intro!: keeps_db_rules split: prod.split)
  obtain live w1 where l: "(if force then ([], w) else livePeers os (Interface cfg) w) = (live, w1)"
    by fastforce
  then have d: "db w1 = db w" by (auto split: if_splits dest: livePeers_frame)
  have "db (snd (?p w1)) = db w" using r d by (simp add: keeps_db_def)
  then show "db (snd (renderConf os cfg force w)) = db w"
    using d by (simp add: renderConf_def l split: option.split)
qed

lemma keeps_db_genKeys [keeps_db_rules]: "keeps_db (genKeys os)"
  unfolding genKeys_def Let_def
  by (intro keeps_db_rules) (auto intro!: keeps_dbI simp: exec_in_def split: prod.split option.split)

end
