(* ===== verification/Usage.thy ===== *)
theory Usage
  imports World
begin

text \<open>
  Where the byte counters come from: \<^verbatim>\<open>wgTransfer\<close> (enforce.go) reads the per-key counters of
  \<^verbatim>\<open>wg show <iface> transfer\<close>, and ovpn.go reads OpenVPN's status, from the \<^verbatim>\<open>--status\<close> file or, failing
  that, from the management socket.  Both yield a finite map, built line by line.
\<close>

section \<open>WireGuard counters\<close>

definition transfer_line :: "(string \<Rightarrow> (int \<times> int) option) \<Rightarrow> string \<Rightarrow> (string \<Rightarrow> (int \<times> int) option)" where
  "transfer_line m line =
     (case str_fields line of
        [k, a, b] \<Rightarrow> m(k \<mapsto> (fst (parse_int64 a), fst (parse_int64 b)))
      | _ \<Rightarrow> m)"

definition parse_transfer :: "string \<Rightarrow> string \<Rightarrow> (int \<times> int) option" where
  "parse_transfer out =
     foldl transfer_line Map.empty (split_on CHR 0x0A (trim_space out))"

definition wgTransfer :: "'k os \<Rightarrow> string \<Rightarrow> 'k world \<Rightarrow> (string \<Rightarrow> (int \<times> int) option) \<times> 'k world" where
  "wgTransfer os iface w =
     (case run os ''wg'' [''show'', iface, ''transfer''] w of
        ((out, None), w') \<Rightarrow> (parse_transfer out, w')
      | ((out, Some e), w') \<Rightarrow> (Map.empty, w'))"

section \<open>OpenVPN status\<close>

definition addOvpnBytes :: "(string \<Rightarrow> int option) \<Rightarrow> string \<Rightarrow> string \<Rightarrow> string \<Rightarrow> (string \<Rightarrow> int option)" where
  "addOvpnBytes m cn0 rxStr txStr =
     (let cn = trim_space cn0 in
      if cn = [] \<or> cn = ''UNDEF'' then m
      else (let rx = fst (parse_int64 (trim_space rxStr));
                tx = fst (parse_int64 (trim_space txStr));
                old = (case m cn of None \<Rightarrow> 0 | Some v \<Rightarrow> v)
            in m(cn \<mapsto> i64 (old + i64 (rx + tx)))))"

text \<open>One line of the status: the map so far, and whether the version-1 client section is open.\<close>

definition ovpn_status_line ::
  "(string \<Rightarrow> int option) \<times> bool \<Rightarrow> string \<Rightarrow> (string \<Rightarrow> int option) \<times> bool" where
  "ovpn_status_line st line =
     (case st of (m, inV1Clients) \<Rightarrow>
       (let f = split_on CHR '','' (trim_right_char CHR 0x0D line) in
        if length f \<ge> 7 \<and> f ! 0 = ''CLIENT_LIST'' then
          (addOvpnBytes m (f ! 1) (f ! 5) (f ! 6), inV1Clients)
        else if length f \<ge> 5 \<and> f ! 0 = ''Common Name'' \<and> f ! 2 = ''Bytes Received'' then (m, True)
        else if f ! 0 = ''ROUTING TABLE'' \<or> f ! 0 = ''GLOBAL STATS'' \<or> f ! 0 = ''END'' then (m, False)
        else if inV1Clients \<and> length f \<ge> 4 then (addOvpnBytes m (f ! 0) (f ! 2) (f ! 3), inV1Clients)
        else (m, inV1Clients)))"

definition parseOvpnStatus :: "string \<Rightarrow> string \<Rightarrow> int option" where
  "parseOvpnStatus out =
     fst (foldl ovpn_status_line (Map.empty, False) (split_on CHR 0x0A out))"

definition ovpnStatusCandidates :: "string list" where
  "ovpnStatusCandidates =
     [''/run/openvpn-server/status-server.log'', ''/run/openvpn-server/server.status'',
      ''/run/openvpn/server.status'', ''/var/log/openvpn/status.log'']"

text \<open>
  The newest non-empty candidate.  Go starts from the zero time (year 1), before any modification time
  a file system keeps, so the first candidate that qualifies always replaces it.
\<close>

definition newer_candidate :: "fs \<Rightarrow> (string \<times> int) option \<Rightarrow> string \<Rightarrow> (string \<times> int) option" where
  "newer_candidate fs best p =
     (case fs p of
        None \<Rightarrow> best
      | Some f \<Rightarrow>
          if content f = [] then best
          else (case best of
                  None \<Rightarrow> Some (p, mtime f)
                | Some (q, t) \<Rightarrow> if mtime f > t then Some (p, mtime f) else best))"

definition resolveOvpnStatus :: "config \<Rightarrow> fs \<Rightarrow> string" where
  "resolveOvpnStatus cfg fs =
     (if OvpnStatus cfg \<noteq> [] then OvpnStatus cfg
      else case foldl (newer_candidate fs) None ovpnStatusCandidates of
             None \<Rightarrow> []
           | Some (p, _) \<Rightarrow> p)"

text \<open>The reply of the management socket: every line up to and including the first that begins with \<^verbatim>\<open>END\<close>.\<close>

fun until_end :: "string list \<Rightarrow> string list" where
  "until_end [] = []"
| "until_end (l # ls) = (if has_prefix l ''END'' then [l] else l # until_end ls)"

definition ovpnUsageMgmt :: "'k os \<Rightarrow> string \<Rightarrow> 'k \<Rightarrow> string + (string \<Rightarrow> int option)" where
  "ovpnUsageMgmt os mgmt k =
     (let (net, addr) =
        (if has_prefix mgmt ''unix:'' then (''unix'', trim_prefix mgmt ''unix:'') else (''tcp'', mgmt))
      in case dial os net addr k of
           Inl e \<Rightarrow> Inl e
         | Inr ls \<Rightarrow> Inr (parseOvpnStatus (concat (map (\<lambda>l. l @ [CHR 0x0A]) (until_end ls)))))"

definition ovpnUsage :: "'k os \<Rightarrow> config \<Rightarrow> 'k world \<Rightarrow> string \<Rightarrow> int option" where
  "ovpnUsage os cfg w =
     (if OvpnMgmt cfg = [] \<and> OvpnStatus cfg = [] then Map.empty
      else (let statusFile = resolveOvpnStatus cfg (files w) in
            case (if statusFile = [] then None else file_text w statusFile) of
              Some text \<Rightarrow> parseOvpnStatus text
            | None \<Rightarrow>
                if OvpnMgmt cfg = [] then Map.empty
                else (case ovpnUsageMgmt os (OvpnMgmt cfg) (kern w) of
                        Inr m \<Rightarrow> m
                      | Inl e \<Rightarrow> Map.empty)))"

section \<open>What the parsers deliver\<close>

text \<open>
  The output \<^verbatim>\<open>wg\<close> prints for a table of keys with distinct names and counters in range is read back as
  that table.
\<close>

definition transfer_text :: "(string \<times> int \<times> int) list \<Rightarrow> string" where
  "transfer_text ts =
     join [CHR 0x0A] (map (\<lambda>(k, a, b). k @ '' '' @ itoa a @ '' '' @ itoa b) ts)"

definition good_counters :: "(string \<times> int \<times> int) list \<Rightarrow> bool" where
  "good_counters ts \<longleftrightarrow>
     ts \<noteq> [] \<and> (\<forall>(k, a, b)\<in>set ts. word_like k \<and> 0 \<le> a \<and> in_i64 a \<and> 0 \<le> b \<and> in_i64 b)"

lemma word_like_itoa: "0 \<le> a \<Longrightarrow> word_like (itoa a)"
  by (simp add: itoa_def)

lemma word_like_no_newline: "word_like w \<Longrightarrow> CHR 0x0A \<notin> set w \<and> CHR '' '' \<notin> set w"
  by (auto simp: word_like_def list_all_iff printable_def)

lemma transfer_line_entry:
  assumes "word_like k" "0 \<le> a" "in_i64 a" "0 \<le> b" "in_i64 b"
  shows "transfer_line m (k @ '' '' @ itoa a @ '' '' @ itoa b) = m(k \<mapsto> (a, b))"
proof -
  have "str_fields (k @ '' '' @ itoa a @ '' '' @ itoa b) = [k, itoa a, itoa b]"
    using assms str_fields_Cons [of k] str_fields_Cons [of "itoa a"] str_fields_word [of "itoa b"]
    by (simp add: word_like_itoa)
  with assms show ?thesis by (simp add: transfer_line_def parse_int64_itoa)
qed

lemma foldl_transfer_entries:
  assumes "\<forall>(k, a, b)\<in>set ts. word_like k \<and> 0 \<le> a \<and> in_i64 a \<and> 0 \<le> b \<and> in_i64 b"
  shows "foldl transfer_line m (map (\<lambda>(k, a, b). k @ '' '' @ itoa a @ '' '' @ itoa b) ts) =
    m ++ map_of (rev ts)"
  using assms
  by (induction ts arbitrary: m) (auto simp: transfer_line_entry [simplified] map_add_upd_left)

lemma entry_tight:
  assumes "word_like k" "0 \<le> b"
  shows "k @ '' '' @ itoa a @ '' '' @ itoa b \<noteq> []"
    and "printable (hd (k @ '' '' @ itoa a @ '' '' @ itoa b))"
    and "printable (last (k @ '' '' @ itoa a @ '' '' @ itoa b))"
proof -
  have k: "k \<noteq> []" "printable (hd k)" using assms(1) by (auto simp: word_like_def list_all_iff)
  then show "k @ '' '' @ itoa a @ '' '' @ itoa b \<noteq> []"
    "printable (hd (k @ '' '' @ itoa a @ '' '' @ itoa b))" by simp_all
  have "word_like (itoa b)" using assms(2) by (rule word_like_itoa)
  then show "printable (last (k @ '' '' @ itoa a @ '' '' @ itoa b))"
    by (auto simp: word_like_def list_all_iff)
qed

lemma join_hd_last:
  assumes "ls \<noteq> []" "\<forall>l\<in>set ls. l \<noteq> [] \<and> printable (hd l) \<and> printable (last l)"
  shows "join s ls \<noteq> [] \<and> printable (hd (join s ls)) \<and> printable (last (join s ls))"
  using assms by (induction s ls rule: join.induct) auto

lemma entry_no_newline:
  assumes "word_like k" "0 \<le> a" "0 \<le> b"
  shows "CHR 0x0A \<notin> set (k @ '' '' @ itoa a @ '' '' @ itoa b)"
  using assms word_like_no_newline [of k] word_like_no_newline [OF word_like_itoa [of a]]
    word_like_no_newline [OF word_like_itoa [of b]] by auto

lemma parse_transfer_text:
  assumes "good_counters ts"
  shows "parse_transfer (transfer_text ts) = map_of (rev ts)"
proof -
  let ?ls = "map (\<lambda>(k, a, b). k @ '' '' @ itoa a @ '' '' @ itoa b) ts"
  have g: "ts \<noteq> []" "\<forall>(k, a, b)\<in>set ts. word_like k \<and> 0 \<le> a \<and> in_i64 a \<and> 0 \<le> b \<and> in_i64 b"
    using assms by (auto simp: good_counters_def)
  have "\<forall>l\<in>set ?ls. l \<noteq> [] \<and> printable (hd l) \<and> printable (last l)"
    using g(2) entry_tight by fastforce
  then have "tight (join [CHR 0x0A] ?ls)"
    using join_hd_last [of ?ls "[CHR 0x0A]"] g(1) by (simp add: tight_def)
  then have 1: "trim_space (transfer_text ts) = join [CHR 0x0A] ?ls" by (simp add: transfer_text_def)
  have "\<forall>l\<in>set ?ls. CHR 0x0A \<notin> set l"
    using g(2) entry_no_newline by fastforce
  then have 2: "split_on CHR 0x0A (join [CHR 0x0A] ?ls) = ?ls"
    using g(1) by (intro split_on_join) auto
  show ?thesis unfolding parse_transfer_def 1 2 foldl_transfer_entries [OF g(2)] by simp
qed

section \<open>The two status formats\<close>

text \<open>
  A client of the status listing is its common name, real address, the two counters and the connection
  time, as text.  The same clients are written in the two machine formats.
\<close>

type_synonym client = "string \<times> string \<times> string \<times> string \<times> string"

definition v1_row :: "client \<Rightarrow> string" where
  "v1_row c = (case c of (cn, real, rx, tx, since) \<Rightarrow> join '','' [cn, real, rx, tx, since])"

definition v2_row :: "client \<Rightarrow> string" where
  "v2_row c = (case c of (cn, real, rx, tx, since) \<Rightarrow>
     join '','' [''CLIENT_LIST'', cn, real, [], [], rx, tx, since])"

definition v1_text :: "client list \<Rightarrow> string" where
  "v1_text cs = join [CHR 0x0A]
     ([''OpenVPN CLIENT LIST'', ''Common Name,Real Address,Bytes Received,Bytes Sent,Connected Since''] @
      map v1_row cs @ [''ROUTING TABLE'', ''GLOBAL STATS'', ''END'', []])"

definition v2_text :: "client list \<Rightarrow> string" where
  "v2_text cs = join [CHR 0x0A] (map v2_row cs @ [''END'', []])"

definition client_ok :: "client \<Rightarrow> bool" where
  "client_ok c = (case c of (cn, real, rx, tx, since) \<Rightarrow>
     list_all (\<lambda>s. CHR '','' \<notin> set s \<and> CHR 0x0A \<notin> set s \<and> CHR 0x0D \<notin> set s) [cn, real, rx, tx, since] \<and>
     cn \<notin> {''ROUTING TABLE'', ''GLOBAL STATS'', ''END'', ''Common Name''})"

definition add_client :: "(string \<Rightarrow> int option) \<Rightarrow> client \<Rightarrow> (string \<Rightarrow> int option)" where
  "add_client m c = (case c of (cn, real, rx, tx, since) \<Rightarrow> addOvpnBytes m cn rx tx)"

lemma trim_cr: "CHR 0x0D \<notin> set s \<Longrightarrow> trim_right_char CHR 0x0D s = s"
  by (rule trim_right_char_id) (metis last_in_set)

lemma set_join: "set (join s ws) \<subseteq> set s \<union> \<Union> (set ` set ws)"
  by (induction s ws rule: join.induct) auto

lemma ovpn_status_v1_row:
  assumes "client_ok c"
  shows "ovpn_status_line (m, True) (v1_row c) = (add_client m c, True)"
proof -
  obtain cn real rx tx since where c: "c = (cn, real, rx, tx, since)" by (cases c)
  have ok: "\<forall>w\<in>set [cn, real, rx, tx, since]. CHR '','' \<notin> set w"
    "\<forall>w\<in>set [cn, real, rx, tx, since]. CHR 0x0D \<notin> set w"
    "cn \<notin> {''ROUTING TABLE'', ''GLOBAL STATS'', ''END'', ''Common Name''}"
    using assms by (auto simp: client_ok_def c)
  have "split_on CHR '','' (v1_row c) = [cn, real, rx, tx, since]"
    unfolding v1_row_def c prod.case using ok(1) by (intro split_on_join) simp_all
  moreover have "CHR 0x0D \<notin> set (v1_row c)"
    unfolding v1_row_def c prod.case using ok(2) set_join [of "'',''" "[cn, real, rx, tx, since]"] by auto
  ultimately show ?thesis
    using ok(3) by (simp add: ovpn_status_line_def trim_cr add_client_def c)
qed

lemma ovpn_status_v2_row:
  assumes "client_ok c"
  shows "ovpn_status_line (m, b) (v2_row c) = (add_client m c, b)"
proof -
  obtain cn real rx tx since where c: "c = (cn, real, rx, tx, since)" by (cases c)
  let ?f = "[''CLIENT_LIST'', cn, real, [], [], rx, tx, since]"
  have ok: "\<forall>w\<in>set ?f. CHR '','' \<notin> set w" "\<forall>w\<in>set ?f. CHR 0x0D \<notin> set w"
    using assms by (auto simp: client_ok_def c)
  have "split_on CHR '','' (v2_row c) = ?f"
    unfolding v2_row_def c prod.case using ok(1) by (intro split_on_join) simp_all
  moreover have "CHR 0x0D \<notin> set (v2_row c)"
    unfolding v2_row_def c prod.case using ok(2) set_join [of "'',''" ?f] by auto
  ultimately show ?thesis by (simp add: ovpn_status_line_def trim_cr add_client_def c)
qed

lemma foldl_v1_rows:
  "list_all client_ok cs \<Longrightarrow>
     foldl ovpn_status_line (m, True) (map v1_row cs) = (foldl add_client m cs, True)"
  by (induction cs arbitrary: m) (simp_all add: ovpn_status_v1_row)

lemma foldl_v2_rows:
  "list_all client_ok cs \<Longrightarrow>
     foldl ovpn_status_line (m, b) (map v2_row cs) = (foldl add_client m cs, b)"
  by (induction cs arbitrary: m) (simp_all add: ovpn_status_v2_row)

lemma client_rows_one_line:
  assumes "list_all client_ok cs" "l \<in> set (map v1_row cs) \<union> set (map v2_row cs)"
  shows "CHR 0x0A \<notin> set l"
  using assms by (auto simp: list_all_iff client_ok_def v1_row_def v2_row_def split: prod.splits)

lemma status_line_consts:
  "ovpn_status_line (m, False) ''OpenVPN CLIENT LIST'' = (m, False)"
  "ovpn_status_line (m, b) ''Common Name,Real Address,Bytes Received,Bytes Sent,Connected Since'' = (m, True)"
  "ovpn_status_line (m, b) ''ROUTING TABLE'' = (m, False)"
  "ovpn_status_line (m, b) ''GLOBAL STATS'' = (m, False)"
  "ovpn_status_line (m, b) ''END'' = (m, False)"
  "ovpn_status_line (m, False) [] = (m, False)"
  by (simp_all add: ovpn_status_line_def trim_right_char_def)

lemma parse_v1_text: "list_all client_ok cs \<Longrightarrow> parseOvpnStatus (v1_text cs) = foldl add_client Map.empty cs"
  unfolding parseOvpnStatus_def v1_text_def
  by (subst split_on_join) (auto simp: client_rows_one_line foldl_v1_rows status_line_consts)

lemma parse_v2_text: "list_all client_ok cs \<Longrightarrow> parseOvpnStatus (v2_text cs) = foldl add_client Map.empty cs"
  unfolding parseOvpnStatus_def v2_text_def
  by (subst split_on_join) (auto simp: client_rows_one_line foldl_v2_rows status_line_consts)

section \<open>Properties\<close>

text \<open>
  The table \<^verbatim>\<open>wg show transfer\<close> prints is read back as that table: every key is found with its two
  counters, and no other key.
\<close>

theorem transfer_roundtrip:
  assumes "good_counters ts" and "distinct (map fst ts)"
  shows "parse_transfer (transfer_text ts) = map_of ts"
proof -
  have "map_of (rev ts) = map_of ts"
    using assms(2) by (induction ts) (auto simp: map_add_upd_left dom_map_of_conv_image_fst)
  then show ?thesis using parse_transfer_text [OF assms(1)] by simp
qed

lemma transfer_roundtrip_witness:
  "parse_transfer (transfer_text [(''KA'', 12, 5), (''KB'', 0, 7)]) ''KB'' = Some (0, 7)"
  using transfer_roundtrip [of "[(''KA'', 12, 5), (''KB'', 0, 7)]"]
  by (simp add: good_counters_def word_like_def printable_def in_i64_def)

text \<open>
  The two machine formats of the OpenVPN status carry the same usage: for any list of clients the
  version-1 file and the version-2 socket reply are parsed into the same map, the sum per common name.
\<close>

theorem status_formats_agree:
  assumes "list_all client_ok cs"
  shows "parseOvpnStatus (v1_text cs) = parseOvpnStatus (v2_text cs) \<and>
    parseOvpnStatus (v1_text cs) = foldl add_client Map.empty cs"
  by (simp add: parse_v1_text parse_v2_text assms)

lemma status_formats_agree_witness:
  "parseOvpnStatus (v2_text [(''ann'', ''1.2.3.4'', ''7'', ''5'', ''t''), (''ann'', ''1.2.3.9'', ''1'', ''1'', ''t'')]) =
   parseOvpnStatus (v1_text [(''ann'', ''1.2.3.4'', ''7'', ''5'', ''t''), (''ann'', ''1.2.3.9'', ''1'', ''1'', ''t'')])"
  using status_formats_agree [of "[(''ann'', ''1.2.3.4'', ''7'', ''5'', ''t''), (''ann'', ''1.2.3.9'', ''1'', ''1'', ''t'')]"]
  by (simp add: client_ok_def)

end
