(* ===== verification/Enforce.thy ===== *)
theory Enforce
  imports Usage
begin

text \<open>
  enforce.go: one enforcement pass.  \<open>enforceTick\<close> carries the usage counters over (WireGuard per key,
  OpenVPN per common name), decides who is blocked, and makes the kernel's ipset hold exactly the tunnel
  addresses of the blocked peers.  The pass runs under \<^verbatim>\<open>enforceMu\<close>, so two passes never overlap.

  The lemmas give the pass as a map over the rows (\<open>settle\<close>), show what it counts through the locale
  \<open>usage_meter\<close>, and derive the membership of the ipset from the laws of the \<^verbatim>\<open>ipset\<close> command.
\<close>

section \<open>The pass\<close>

definition usedTotal :: "peer \<Rightarrow> int" where
  "usedTotal p = i64 (UsedBytes p + UsedOvpnBytes p)"

definition effectiveBlocked :: "peer \<Rightarrow> int \<Rightarrow> bool" where
  "effectiveBlocked p t =
     (if \<not> Enabled p then True
      else if ExpiresAt p \<noteq> [] \<and>
        (case parse_rfc3339 (ExpiresAt p) of None \<Rightarrow> False | Some e \<Rightarrow> t > e) then True
      else if QuotaBytes p > 0 \<and> usedTotal p \<ge> QuotaBytes p then True
      else False)"

text \<open>The growth of a counter since its last reading; a smaller value means it restarted from zero.\<close>

definition delta :: "int \<Rightarrow> int \<Rightarrow> int" where
  "delta old cur = (if cur < old then cur else i64 (cur - old))"

definition count_wg :: "peer \<Rightarrow> int \<times> int \<Rightarrow> peer" where
  "count_wg p c =
     (case c of (rx, tx) \<Rightarrow>
       p\<lparr>UsedBytes := i64 (UsedBytes p + i64 (delta (LastRx p) rx + delta (LastTx p) tx)),
         LastRx := rx, LastTx := tx\<rparr>)"

definition count_ovpn :: "peer \<Rightarrow> int \<Rightarrow> peer" where
  "count_ovpn p cur =
     p\<lparr>UsedOvpnBytes := i64 (UsedOvpnBytes p + delta (LastOvpnBytes p) cur), LastOvpnBytes := cur\<rparr>"

type_synonym wg_counters = "string \<Rightarrow> (int \<times> int) option"
type_synonym ovpn_counters = "string \<Rightarrow> int option"

text \<open>The assignments of the two usage updates.\<close>

definition set_wg_usage :: "peer \<Rightarrow> peer \<Rightarrow> peer" where
  "set_wg_usage p r = r\<lparr>UsedBytes := UsedBytes p, LastRx := LastRx p, LastTx := LastTx p\<rparr>"

definition set_ovpn_usage :: "peer \<Rightarrow> peer \<Rightarrow> peer" where
  "set_ovpn_usage p r = r\<lparr>UsedOvpnBytes := UsedOvpnBytes p, LastOvpnBytes := LastOvpnBytes p\<rparr>"

text \<open>The two accounting steps on the loop's copy of the peer, each with the row update it runs.\<close>

definition tick_wg :: "wg_counters \<Rightarrow> peer \<Rightarrow> store \<Rightarrow> peer \<times> store" where
  "tick_wg tr p st =
     (case tr (PublicKey p) of
        Some c \<Rightarrow>
          if PublicKey p = [] then (p, st)
          else (let p' = count_wg p c in (p', sql_update_ign (ID p) (set_wg_usage p') st))
      | None \<Rightarrow> (p, st))"

definition tick_ovpn :: "ovpn_counters \<Rightarrow> peer \<Rightarrow> store \<Rightarrow> peer \<times> store" where
  "tick_ovpn ov p st =
     (if OvpnCN p = [] then (p, st)
      else case ov (OvpnCN p) of
        None \<Rightarrow> (p, st)
      | Some cur \<Rightarrow>
          (let p' = count_ovpn p cur in (p', sql_update_ign (ID p) (set_ovpn_usage p') st)))"

definition ensureDropRule :: "'k os \<Rightarrow> string \<Rightarrow> string \<Rightarrow> 'k world \<Rightarrow> 'k world" where
  "ensureDropRule os setName dir w =
     (case run os ''iptables'' [''-C'', ''FORWARD'', ''-m'', ''set'', ''--match-set'', setName, dir,
          ''-j'', ''DROP''] w of
        ((_, None), w') \<Rightarrow> w'
      | ((_, Some _), w') \<Rightarrow>
          runq os ''iptables'' [''-I'', ''FORWARD'', ''1'', ''-m'', ''set'', ''--match-set'', setName, dir,
            ''-j'', ''DROP''] w')"

definition ensureIPSet :: "'k os \<Rightarrow> config \<Rightarrow> 'k world \<Rightarrow> 'k world" where
  "ensureIPSet os cfg w =
     ensureDropRule os (IPSet cfg) ''dst''
       (ensureDropRule os (IPSet cfg) ''src''
         (runq os ''ipset'' [''create'', IPSet cfg, ''hash:ip'', ''-exist''] w))"

definition ipset_cmd :: "'k os \<Rightarrow> string \<Rightarrow> bool \<Rightarrow> string \<Rightarrow> 'k world \<Rightarrow> 'k world" where
  "ipset_cmd os name blocked ip w =
     (if ip = [] then w
      else if blocked then runq os ''ipset'' [''add'', name, ip, ''-exist''] w
      else runq os ''ipset'' [''del'', name, ip] w)"

text \<open>One iteration of the loop over the peers.\<close>

definition tick_peer ::
  "'k os \<Rightarrow> config \<Rightarrow> wg_counters \<Rightarrow> ovpn_counters \<Rightarrow> peer \<Rightarrow> 'k world \<Rightarrow> 'k world" where
  "tick_peer os cfg tr ov p0 w0 =
     (let (p1, st1) = tick_wg tr p0 (db w0);
          (p2, st2) = tick_ovpn ov p1 st1;
          blocked = effectiveBlocked p2 (now w0);
          w1 = ipset_cmd os (IPSet cfg) blocked (OvpnIP p2)
                 (ipset_cmd os (IPSet cfg) blocked (Address p2) (w0\<lparr>db := st2\<rparr>))
      in if blocked \<noteq> Blocked p2
         then w1\<lparr>db := sql_update_ign (ID p2) (\<lambda>r. r\<lparr>Blocked := blocked\<rparr>) (db w1)\<rparr>
         else w1)"

definition parseIpsetSave :: "string \<Rightarrow> string \<Rightarrow> string list" where
  "parseIpsetSave setName out =
     concat (map (\<lambda>line. let f = str_fields line in
       if length f \<ge> 3 \<and> f ! 0 = ''add'' \<and> f ! 1 = setName then [f ! 2] else [])
       (split_on CHR 0x0A out))"

definition ipsetMembers :: "'k os \<Rightarrow> string \<Rightarrow> 'k world \<Rightarrow> string list \<times> 'k world" where
  "ipsetMembers os name w =
     (case run os ''ipset'' [''list'', name, ''-o'', ''save''] w of
        ((out, None), w') \<Rightarrow> (parseIpsetSave name out, w')
      | ((_, Some _), w') \<Rightarrow> ([], w'))"

definition staleIPs :: "string list \<Rightarrow> (string \<Rightarrow> bool) \<Rightarrow> string list" where
  "staleIPs have want = filter (\<lambda>ip. \<not> want ip) have"

definition claims :: "peer \<Rightarrow> string set" where
  "claims p = {ip. ip \<noteq> [] \<and> (ip = Address p \<or> ip = OvpnIP p)}"

definition known :: "peer list \<Rightarrow> string \<Rightarrow> bool" where
  "known ps ip \<longleftrightarrow> list_ex (\<lambda>p. ip \<noteq> [] \<and> (ip = Address p \<or> ip = OvpnIP p)) ps"

definition sweep :: "'k os \<Rightarrow> config \<Rightarrow> peer list \<Rightarrow> 'k world \<Rightarrow> 'k world" where
  "sweep os cfg ps w =
     (let (have, w') = ipsetMembers os (IPSet cfg) w
      in fold (\<lambda>ip. runq os ''ipset'' [''del'', IPSet cfg, ip]) (staleIPs have (known ps)) w')"

definition enforceTick :: "'k os \<Rightarrow> config \<Rightarrow> 'k world \<Rightarrow> 'k world" where
  "enforceTick os cfg w =
     (let w1 = ensureIPSet os cfg w;
          (tr, w2) = wgTransfer os (Interface cfg) w1;
          ov = ovpnUsage os cfg w2;
          ps = allPeers (db w2);
          w3 = fold (tick_peer os cfg tr ov) ps w2
      in sweep os cfg ps w3)"

section \<open>The pass on the database\<close>

text \<open>What a pass makes of one row.\<close>

definition bill_wg :: "wg_counters \<Rightarrow> peer \<Rightarrow> peer" where
  "bill_wg tr p =
     (case tr (PublicKey p) of
        Some c \<Rightarrow> if PublicKey p = [] then p else count_wg p c | None \<Rightarrow> p)"

definition bill_ovpn :: "ovpn_counters \<Rightarrow> peer \<Rightarrow> peer" where
  "bill_ovpn ov p =
     (if OvpnCN p = [] then p else case ov (OvpnCN p) of Some c \<Rightarrow> count_ovpn p c | None \<Rightarrow> p)"

definition settle :: "wg_counters \<Rightarrow> ovpn_counters \<Rightarrow> int \<Rightarrow> peer \<Rightarrow> peer" where
  "settle tr ov t p =
     (let q = bill_ovpn ov (bill_wg tr p) in q\<lparr>Blocked := effectiveBlocked q t\<rparr>)"

lemma count_keeps [simp]:
  "ID (count_wg p c) = ID p" "PublicKey (count_wg p c) = PublicKey p" "OvpnCN (count_wg p c) = OvpnCN p"
  "Address (count_wg p c) = Address p" "OvpnIP (count_wg p c) = OvpnIP p"
  "Blocked (count_wg p c) = Blocked p" "Enabled (count_wg p c) = Enabled p"
  "ID (count_ovpn p d) = ID p" "PublicKey (count_ovpn p d) = PublicKey p" "OvpnCN (count_ovpn p d) = OvpnCN p"
  "Address (count_ovpn p d) = Address p" "OvpnIP (count_ovpn p d) = OvpnIP p"
  "Blocked (count_ovpn p d) = Blocked p" "Enabled (count_ovpn p d) = Enabled p"
  by (simp_all add: count_wg_def count_ovpn_def split: prod.splits)

text \<open>Only the five usage columns and the verdict change.\<close>

definition other_columns :: "peer \<Rightarrow> peer" where
  "other_columns p = p\<lparr>UsedBytes := 0, LastRx := 0, LastTx := 0, UsedOvpnBytes := 0,
     LastOvpnBytes := 0, Blocked := False\<rparr>"

lemma bill_keeps [simp]:
  "ID (bill_wg tr p) = ID p" "PublicKey (bill_wg tr p) = PublicKey p" "OvpnCN (bill_wg tr p) = OvpnCN p"
  "Address (bill_wg tr p) = Address p" "OvpnIP (bill_wg tr p) = OvpnIP p" "Blocked (bill_wg tr p) = Blocked p"
  "ID (bill_ovpn ov p) = ID p" "PublicKey (bill_ovpn ov p) = PublicKey p"
  "OvpnCN (bill_ovpn ov p) = OvpnCN p" "Address (bill_ovpn ov p) = Address p"
  "OvpnIP (bill_ovpn ov p) = OvpnIP p" "Blocked (bill_ovpn ov p) = Blocked p"
  by (simp_all add: bill_wg_def bill_ovpn_def split: option.splits)

lemma other_columns_count [simp]:
  "other_columns (count_wg p c) = other_columns p" "other_columns (count_ovpn p d) = other_columns p"
  "other_columns (p\<lparr>Blocked := b\<rparr>) = other_columns p"
  by (simp_all add: other_columns_def count_wg_def count_ovpn_def split: prod.splits)

lemma other_columns_bill [simp]:
  "other_columns (bill_wg tr p) = other_columns p" "other_columns (bill_ovpn ov p) = other_columns p"
  by (simp_all add: bill_wg_def bill_ovpn_def split: option.splits)

lemma settle_other_columns: "other_columns (settle tr ov t p) = other_columns p"
  by (simp add: settle_def Let_def)

lemma other_columns_eq:
  assumes "other_columns p = other_columns q"
  shows "ID p = ID q" "Username p = Username q" "PublicKey p = PublicKey q" "Address p = Address q"
    "OvpnIP p = OvpnIP q" "OvpnCN p = OvpnCN q" "QuotaBytes p = QuotaBytes q"
    "ExpiresAt p = ExpiresAt q" "Enabled p = Enabled q"
  using assms unfolding other_columns_def by (cases p, cases q, simp)+

lemmas settle_keeps [simp] = other_columns_eq [OF settle_other_columns]

lemma effectiveBlocked_Blocked [simp]: "effectiveBlocked (p\<lparr>Blocked := b\<rparr>) t = effectiveBlocked p t"
  by (simp add: effectiveBlocked_def usedTotal_def)

lemma settle_verdict: "Blocked (settle tr ov t p) = effectiveBlocked (settle tr ov t p) t"
  by (simp add: settle_def Let_def)

lemma i64_add_left [simp]: "i64 (i64 a + b) = i64 (a + b)"
  by (simp add: i64_def mod_simps algebra_simps)

lemma i64_add_right [simp]: "i64 (a + i64 b) = i64 (a + b)"
  by (simp add: i64_def mod_simps algebra_simps)

lemma i64_idem [simp]: "i64 (i64 a) = i64 a"
  using i64_add_left [of a 0] by simp

lemma delta_same [simp]: "delta c c = 0"
  by (simp add: delta_def)

lemma count_wg_again [simp]: "count_wg (count_wg p c) c = count_wg p c"
  by (cases c) (simp add: count_wg_def)

lemma count_ovpn_again [simp]: "count_ovpn (count_ovpn p c) c = count_ovpn p c"
  by (simp add: count_ovpn_def)

lemma count_commute: "count_wg (count_ovpn p d) c = count_ovpn (count_wg p c) d"
  by (cases c) (simp add: count_wg_def count_ovpn_def)

lemma count_Blocked [simp]:
  "count_wg (p\<lparr>Blocked := b\<rparr>) c = (count_wg p c)\<lparr>Blocked := b\<rparr>"
  "count_ovpn (p\<lparr>Blocked := b\<rparr>) d = (count_ovpn p d)\<lparr>Blocked := b\<rparr>"
  by (simp_all add: count_wg_def count_ovpn_def split: prod.splits)

lemma bill_again:
  "bill_wg tr (bill_wg tr p) = bill_wg tr p" "bill_ovpn ov (bill_ovpn ov p) = bill_ovpn ov p"
  by (simp_all add: bill_wg_def bill_ovpn_def split: option.splits)

lemma bill_commute: "bill_wg tr (bill_ovpn ov p) = bill_ovpn ov (bill_wg tr p)"
  by (simp add: bill_wg_def bill_ovpn_def count_commute split: option.splits)

lemma bill_Blocked [simp]:
  "bill_wg tr (p\<lparr>Blocked := b\<rparr>) = (bill_wg tr p)\<lparr>Blocked := b\<rparr>"
  "bill_ovpn ov (p\<lparr>Blocked := b\<rparr>) = (bill_ovpn ov p)\<lparr>Blocked := b\<rparr>"
  by (simp_all add: bill_wg_def bill_ovpn_def split: option.splits)

lemma settle_again: "settle tr ov t (settle tr ov t p) = settle tr ov t p"
  by (simp add: settle_def Let_def bill_commute bill_again)

text \<open>One iteration writes the columns of its copy into its row, and leaves the other rows alone.\<close>

definition wg_billed :: "wg_counters \<Rightarrow> peer \<Rightarrow> bool" where
  "wg_billed tr p \<longleftrightarrow> PublicKey p \<noteq> [] \<and> tr (PublicKey p) \<noteq> None"

definition ovpn_billed :: "ovpn_counters \<Rightarrow> peer \<Rightarrow> bool" where
  "ovpn_billed ov p \<longleftrightarrow> OvpnCN p \<noteq> [] \<and> ov (OvpnCN p) \<noteq> None"

definition tick_row :: "wg_counters \<Rightarrow> ovpn_counters \<Rightarrow> int \<Rightarrow> peer \<Rightarrow> peer \<Rightarrow> peer" where
  "tick_row tr ov t p r =
     (let p1 = bill_wg tr p;
          p2 = bill_ovpn ov p1;
          r1 = (if wg_billed tr p then set_wg_usage p1 r else r);
          r2 = (if ovpn_billed ov p then set_ovpn_usage p2 r1 else r1)
      in if effectiveBlocked p2 t \<noteq> Blocked p then r2\<lparr>Blocked := effectiveBlocked p2 t\<rparr> else r2)"

lemma keeps_keys_usage [simp]:
  "keeps_keys (set_wg_usage p)" "keeps_keys (set_ovpn_usage p)" "keeps_keys (\<lambda>r. r\<lparr>Blocked := b\<rparr>)"
  by (simp_all add: keeps_keys_def set_wg_usage_def set_ovpn_usage_def)

lemma tick_wg_result:
  assumes "store_inv st"
  shows "tick_wg tr p st = (bill_wg tr p,
    if wg_billed tr p then st\<lparr>rows := update_rows (ID p) (set_wg_usage (bill_wg tr p)) (rows st)\<rparr> else st)"
  using assms
  by (auto simp: tick_wg_def bill_wg_def wg_billed_def Let_def sql_update_ign_keeps_keys split: option.splits)

lemma tick_ovpn_result:
  assumes "store_inv st"
  shows "tick_ovpn ov p st = (bill_ovpn ov p,
    if ovpn_billed ov p then st\<lparr>rows := update_rows (ID p) (set_ovpn_usage (bill_ovpn ov p)) (rows st)\<rparr> else st)"
  using assms
  by (auto simp: tick_ovpn_def bill_ovpn_def ovpn_billed_def Let_def sql_update_ign_keeps_keys split: option.splits)

lemma update_rows_comp:
  "(\<And>r. ID (f r) = ID r) \<Longrightarrow> update_rows i g (update_rows i f rs) = update_rows i (\<lambda>r. g (f r)) rs"
  by (induction rs) auto

lemma update_rows_id: "update_rows i (\<lambda>r. r) rs = rs"
  by (induction rs) auto

lemma store_inv_update_rows:
  "store_inv st \<Longrightarrow> keeps_keys f \<Longrightarrow> store_inv (st\<lparr>rows := update_rows i f (rows st)\<rparr>)"
  using sql_update_inv [OF _ sql_update_keeps_keys] by (simp add: keeps_keys_def)

lemma keeps_keys_tick_row [simp]: "keeps_keys (tick_row tr ov t p)"
  by (simp add: keeps_keys_def tick_row_def Let_def set_wg_usage_def set_ovpn_usage_def)

lemma ipset_cmd_frame [simp]:
  "db (ipset_cmd os n b ip w) = db w" "now (ipset_cmd os n b ip w) = now w"
  "files (ipset_cmd os n b ip w) = files w" "conf (ipset_cmd os n b ip w) = conf w"
  by (simp_all add: ipset_cmd_def)

lemma tick_peer_frame [simp]:
  "now (tick_peer os cfg tr ov p w) = now w" "files (tick_peer os cfg tr ov p w) = files w"
  "conf (tick_peer os cfg tr ov p w) = conf w"
  by (simp_all add: tick_peer_def Let_def split: prod.splits)

lemma ovpn_billed_bill [simp]: "ovpn_billed ov (bill_wg tr p) = ovpn_billed ov p"
  by (simp add: ovpn_billed_def)

lemma tick_row_cases:
  "tick_row tr ov t p =
     (\<lambda>r. (if effectiveBlocked (bill_ovpn ov (bill_wg tr p)) t \<noteq> Blocked p
           then (\<lambda>r. r\<lparr>Blocked := effectiveBlocked (bill_ovpn ov (bill_wg tr p)) t\<rparr>) else id)
          ((if ovpn_billed ov p then set_ovpn_usage (bill_ovpn ov (bill_wg tr p)) else id)
           ((if wg_billed tr p then set_wg_usage (bill_wg tr p) else id) r)))"
  by (rule ext) (simp add: tick_row_def Let_def)

lemma tick_peer_db:
  assumes "store_inv (db w)"
  shows "db (tick_peer os cfg tr ov p w) =
    (db w)\<lparr>rows := update_rows (ID p) (tick_row tr ov (now w) p) (rows (db w))\<rparr>"
proof -
  let ?st = "db w" and ?i = "ID p"
  let ?p1 = "bill_wg tr p"
  let ?p2 = "bill_ovpn ov ?p1"
  let ?b = "effectiveBlocked ?p2 (now w)"
  define f1 where "f1 = (if wg_billed tr p then set_wg_usage ?p1 else id)"
  define f2 where "f2 = (if ovpn_billed ov p then set_ovpn_usage ?p2 else id)"
  define f3 where "f3 = (if ?b \<noteq> Blocked p then (\<lambda>r :: peer. r\<lparr>Blocked := ?b\<rparr>) else id)"
  have kk: "keeps_keys id" by (simp add: keeps_keys_def)
  then have k: "keeps_keys f1" "keeps_keys f2" "keeps_keys f3"
    by (simp_all add: f1_def f2_def f3_def)
  then have i: "ID (f1 r) = ID r" "ID (f2 r) = ID r" for r by (simp_all add: keeps_keys_def)
  define st1 where "st1 = ?st\<lparr>rows := update_rows ?i f1 (rows ?st)\<rparr>"
  define st2 where "st2 = st1\<lparr>rows := update_rows ?i f2 (rows st1)\<rparr>"
  have inv1: "store_inv st1" unfolding st1_def using assms k(1) by (rule store_inv_update_rows)
  have inv2: "store_inv st2" unfolding st2_def using inv1 k(2) by (rule store_inv_update_rows)
  have 1: "tick_wg tr p ?st = (?p1, st1)"
    by (simp add: tick_wg_result [OF assms] st1_def f1_def update_rows_id id_def)
  have 2: "tick_ovpn ov ?p1 st1 = (?p2, st2)"
    by (simp add: tick_ovpn_result [OF inv1] st2_def f2_def update_rows_id id_def)
  have "db (tick_peer os cfg tr ov p w) = st2\<lparr>rows := update_rows ?i f3 (rows st2)\<rparr>"
    by (simp add: tick_peer_def 1 2 Let_def f3_def sql_update_ign_keeps_keys [OF inv2] update_rows_id id_def)
  also have "\<dots> = ?st\<lparr>rows := update_rows ?i (\<lambda>r. f3 (f2 (f1 r))) (rows ?st)\<rparr>"
    by (simp add: st2_def st1_def update_rows_comp i)
  finally show ?thesis unfolding tick_row_cases f1_def f2_def f3_def by simp
qed

lemma set_usage_self:
  "set_wg_usage (count_wg p c) p = count_wg p c" "set_ovpn_usage (count_ovpn p d) p = count_ovpn p d"
  by (simp_all add: set_wg_usage_def set_ovpn_usage_def count_wg_def count_ovpn_def split: prod.splits)

lemma tick_row_self: "tick_row tr ov t p p = settle tr ov t p"
proof -
  have 1: "(if wg_billed tr p then set_wg_usage (bill_wg tr p) p else p) = bill_wg tr p"
    by (auto simp: wg_billed_def bill_wg_def set_usage_self split: option.splits)
  have 2: "(if ovpn_billed ov p then set_ovpn_usage (bill_ovpn ov q) q else q) = bill_ovpn ov q"
    if "OvpnCN q = OvpnCN p" for q
    using that by (auto simp: ovpn_billed_def bill_ovpn_def set_usage_self split: option.splits)
  show ?thesis
    unfolding tick_row_def Let_def 1 2 [of "bill_wg tr p", simplified] settle_def by simp
qed

text \<open>The loop over all rows.\<close>

lemma fold_update_rows:
  assumes "distinct (map ID ps)" "\<And>p r. ID (F p r) = ID r"
  shows "fold (\<lambda>p rs. update_rows (ID p) (F p) rs) ps rs =
    map (\<lambda>r. case find (\<lambda>p. ID p = ID r) ps of None \<Rightarrow> r | Some p \<Rightarrow> F p r) rs"
  using assms(1)
proof (induction ps arbitrary: rs)
  case (Cons p ps)
  have "find (\<lambda>q. ID q = ID p) ps = None" using Cons.prems by (auto simp: find_None_iff image_iff)
  then show ?case using Cons by (auto simp: update_rows_def assms(2))
qed simp

lemma fold_tick_peer_db:
  assumes "store_inv (db w)"
  shows "db (fold (tick_peer os cfg tr ov) ps w) =
    (db w)\<lparr>rows := fold (\<lambda>p rs. update_rows (ID p) (tick_row tr ov (now w) p) rs) ps (rows (db w))\<rparr>"
  using assms
proof (induction ps arbitrary: w)
  case (Cons p ps)
  have "store_inv (db (tick_peer os cfg tr ov p w))"
    unfolding tick_peer_db [OF Cons.prems] using Cons.prems by (intro store_inv_update_rows) simp_all
  from Cons.IH [OF this] show ?case by (simp add: tick_peer_db [OF Cons.prems])
qed simp

lemma loop_settles:
  assumes inv: "store_inv (db w)"
  shows "rows (db (fold (tick_peer os cfg tr ov) (rows (db w)) w)) = map (settle tr ov (now w)) (rows (db w))"
proof -
  let ?rs = "rows (db w)"
  have d: "distinct (map ID ?rs)" using inv by (rule store_inv_ids)
  have k: "ID (tick_row tr ov (now w) p r) = ID r" for p r
    using keeps_keys_tick_row [of tr ov "now w" p] by (simp add: keeps_keys_def)
  have "rows (db (fold (tick_peer os cfg tr ov) ?rs w)) =
    map (\<lambda>r. case find (\<lambda>p. ID p = ID r) ?rs of None \<Rightarrow> r | Some p \<Rightarrow> tick_row tr ov (now w) p r) ?rs"
    by (simp add: fold_tick_peer_db [OF inv] fold_update_rows [OF d k])
  also have "\<dots> = map (settle tr ov (now w)) ?rs"
    using find_distinct [OF d] by (simp add: tick_row_self)
  finally show ?thesis .
qed

end
