(* ===== verification/Blocking.thy ===== *)
theory Blocking
  imports Enforce
begin

text \<open>
  What an enforcement pass does to the kernel's block set.  The \<^verbatim>\<open>ipset\<close> command is not part of the
  repository; \<open>ipset_laws\<close> states its documented behaviour on a set of type \<^verbatim>\<open>hash:ip\<close>: \<^verbatim>\<open>create -exist\<close>
  keeps an existing set, \<^verbatim>\<open>add -exist\<close> and \<^verbatim>\<open>del\<close> insert and remove one address, \<^verbatim>\<open>list -o save\<close> either
  fails or prints a line for each member, and \<^verbatim>\<open>iptables\<close> and \<^verbatim>\<open>wg\<close> do not touch it.  \<open>kset_exec\<close> is a
  command interpreter that obeys the laws, used where a theorem is applied to concrete values.
\<close>

definition dotted :: "string \<Rightarrow> bool" where
  "dotted s \<longleftrightarrow> (case parse_ip4 s of None \<Rightarrow> False | Some a \<Rightarrow> ip_str a = s)"

definition set_after :: "('k \<Rightarrow> string set) \<Rightarrow> 'k os \<Rightarrow> string \<Rightarrow> string list \<Rightarrow> fs \<Rightarrow> 'k \<Rightarrow> string set" where
  "set_after members os cmd args f k = members (snd (exec os cmd args [] f k))"

definition list_law :: "'k os \<Rightarrow> string \<Rightarrow> ('k \<Rightarrow> string set) \<Rightarrow> fs \<Rightarrow> 'k \<Rightarrow> bool" where
  "list_law os name members f k \<longleftrightarrow>
     (case exec os ''ipset'' [''list'', name, ''-o'', ''save''] [] f k of ((out, e), k') \<Rightarrow>
        members k' = members k \<and> (e = None \<longrightarrow> set (parseIpsetSave name out) = members k))"

definition ipset_laws :: "'k os \<Rightarrow> string \<Rightarrow> ('k \<Rightarrow> string set) \<Rightarrow> bool" where
  "ipset_laws os name members \<longleftrightarrow>
     (\<forall>f k. set_after members os ''ipset'' [''create'', name, ''hash:ip'', ''-exist''] f k = members k) \<and>
     (\<forall>f k ip. dotted ip \<longrightarrow> set_after members os ''ipset'' [''add'', name, ip, ''-exist''] f k = insert ip (members k)) \<and>
     (\<forall>f k ip. dotted ip \<longrightarrow> set_after members os ''ipset'' [''del'', name, ip] f k = members k - {ip}) \<and>
     (\<forall>f k args. set_after members os ''iptables'' args f k = members k) \<and>
     (\<forall>f k args. set_after members os ''wg'' args f k = members k) \<and>
     (\<forall>f k. list_law os name members f k) \<and>
     (\<forall>k. \<forall>ip\<in>members k. dotted ip)"

text \<open>The listing is empty exactly when the command failed.\<close>

definition listing_ok :: "'k os \<Rightarrow> string \<Rightarrow> 'k world \<Rightarrow> bool" where
  "listing_ok os name w \<longleftrightarrow> snd (fst (run os ''ipset'' [''list'', name, ''-o'', ''save''] w)) = None"

lemma ipset_laws_run:
  assumes "ipset_laws os name members"
  shows "members (kern (runq os ''ipset'' [''create'', name, ''hash:ip'', ''-exist''] w)) = members (kern w)"
    and "dotted ip \<Longrightarrow> members (kern (runq os ''ipset'' [''add'', name, ip, ''-exist''] w)) = insert ip (members (kern w))"
    and "dotted ip \<Longrightarrow> members (kern (runq os ''ipset'' [''del'', name, ip] w)) = members (kern w) - {ip}"
    and "members (kern (snd (run os ''iptables'' args w))) = members (kern w)"
    and "members (kern (snd (run os ''wg'' args w))) = members (kern w)"
    and "ip \<in> members (kern w) \<Longrightarrow> dotted ip"
proof -
  have k: "members (kern (snd (run os c as u))) = set_after members os c as (files u) (kern u)"
    "members (kern (runq os c as u)) = set_after members os c as (files u) (kern u)" for c as u
    by (simp_all add: set_after_def runq_def run_def exec_in_def case_prod_unfold)
  note laws = assms [unfolded ipset_laws_def]
  show "members (kern (runq os ''ipset'' [''create'', name, ''hash:ip'', ''-exist''] w)) = members (kern w)"
    "dotted ip \<Longrightarrow> members (kern (runq os ''ipset'' [''add'', name, ip, ''-exist''] w)) = insert ip (members (kern w))"
    "dotted ip \<Longrightarrow> members (kern (runq os ''ipset'' [''del'', name, ip] w)) = members (kern w) - {ip}"
    "members (kern (snd (run os ''iptables'' args w))) = members (kern w)"
    "members (kern (snd (run os ''wg'' args w))) = members (kern w)"
    unfolding k using laws by simp_all
  show "ip \<in> members (kern w) \<Longrightarrow> dotted ip" using laws by blast
qed

lemma ipset_laws_list:
  assumes "ipset_laws os name members" and "ipsetMembers os name w = (have, w')"
  shows "members (kern w') = members (kern w)"
    and "listing_ok os name w \<Longrightarrow> set have = members (kern w)"
    and "\<not> listing_ok os name w \<Longrightarrow> have = []"
proof -
  obtain out e k' where r: "exec os ''ipset'' [''list'', name, ''-o'', ''save''] [] (files w) (kern w) = ((out, e), k')"
    by (metis surj_pair)
  have run: "run os ''ipset'' [''list'', name, ''-o'', ''save''] w = ((out, e), w\<lparr>kern := k'\<rparr>)"
    by (simp add: run_def exec_in_def r)
  have "list_law os name members (files w) (kern w)"
    using assms(1) unfolding ipset_laws_def by simp
  then have law: "members k' = members (kern w) \<and> (e = None \<longrightarrow> set (parseIpsetSave name out) = members (kern w))"
    by (simp add: list_law_def r)
  have w': "w' = w\<lparr>kern := k'\<rparr>" and h: "have = (if e = None then parseIpsetSave name out else [])"
    using assms(2) unfolding ipsetMembers_def run by (auto split: option.splits)
  show "members (kern w') = members (kern w)" using law w' by simp
  show "listing_ok os name w \<Longrightarrow> set have = members (kern w)" using law h by (simp add: listing_ok_def run)
  show "\<not> listing_ok os name w \<Longrightarrow> have = []" using h by (auto simp: listing_ok_def run)
qed

lemma ensureIPSet_members:
  assumes "ipset_laws os (IPSet cfg) members"
  shows "members (kern (ensureIPSet os cfg w)) = members (kern w)"
proof -
  have rule: "members (kern (ensureDropRule os n d u)) = members (kern u)" for n d u
  proof -
    obtain out e u' where r: "run os ''iptables'' [''-C'', ''FORWARD'', ''-m'', ''set'', ''--match-set'', n, d,
      ''-j'', ''DROP''] u = ((out, e), u')" by (metis surj_pair)
    have "members (kern u') = members (kern u)"
      using ipset_laws_run(4) [OF assms, of "[''-C'', ''FORWARD'', ''-m'', ''set'', ''--match-set'', n, d,
        ''-j'', ''DROP'']" u] by (simp add: r)
    then show ?thesis
      by (simp add: ensureDropRule_def r runq_def ipset_laws_run(4) [OF assms] split: option.split)
  qed
  show ?thesis by (simp add: ensureIPSet_def rule ipset_laws_run(1) [OF assms])
qed

lemma ensureIPSet_frame [simp]:
  "db (ensureIPSet os cfg w) = db w" "now (ensureIPSet os cfg w) = now w"
  "files (ensureIPSet os cfg w) = files w" "conf (ensureIPSet os cfg w) = conf w"
proof -
  have "db (ensureDropRule os n d u) = db u \<and> now (ensureDropRule os n d u) = now u \<and>
    files (ensureDropRule os n d u) = files u \<and> conf (ensureDropRule os n d u) = conf u" for n d u
    by (auto simp: ensureDropRule_def runq_def run_def exec_in_def split: prod.splits option.splits)
  then show "db (ensureIPSet os cfg w) = db w" "now (ensureIPSet os cfg w) = now w"
    "files (ensureIPSet os cfg w) = files w" "conf (ensureIPSet os cfg w) = conf w"
    by (simp_all add: ensureIPSet_def)
qed

lemma wgTransfer_frame:
  assumes "wgTransfer os i w = (tr, w')"
  shows "db w' = db w" "now w' = now w" "files w' = files w" "conf w' = conf w"
  using assms by (auto simp: wgTransfer_def run_def exec_in_def split: prod.splits option.splits)

lemma wgTransfer_members:
  assumes "ipset_laws os name members" and "wgTransfer os i w = (tr, w')"
  shows "members (kern w') = members (kern w)"
  using assms(2) ipset_laws_run(5) [OF assms(1), of "[''show'', i, ''transfer'']" w]
  by (auto simp: wgTransfer_def split: prod.splits option.splits)

lemma fold_runq_frame [simp]:
  "db (fold (\<lambda>x. runq os c (g x)) xs w) = db w" "now (fold (\<lambda>x. runq os c (g x)) xs w) = now w"
  by (induction xs arbitrary: w) simp_all

lemma sweep_frame [simp]: "db (sweep os cfg ps w) = db w"
  by (auto simp: sweep_def ipsetMembers_def run_def exec_in_def split: prod.splits option.splits)

text \<open>The pass on the database, as one map over the rows.\<close>

definition tick_counters :: "'k os \<Rightarrow> config \<Rightarrow> 'k world \<Rightarrow> wg_counters \<times> ovpn_counters" where
  "tick_counters os cfg w =
     (let (tr, w2) = wgTransfer os (Interface cfg) (ensureIPSet os cfg w) in (tr, ovpnUsage os cfg w2))"

lemma enforceTick_rows:
  assumes "store_inv (db w)" and "tick_counters os cfg w = (tr, ov)"
  shows "rows (db (enforceTick os cfg w)) = map (settle tr ov (now w)) (rows (db w))"
proof -
  obtain tr' w2 where t: "wgTransfer os (Interface cfg) (ensureIPSet os cfg w) = (tr', w2)" by fastforce
  note f = wgTransfer_frame [OF t]
  have c: "tr = tr'" "ov = ovpnUsage os cfg w2" using assms(2) by (simp_all add: tick_counters_def t)
  have "store_inv (db w2)" using assms(1) f(1) by simp
  from loop_settles [OF this, of os cfg tr' ov] show ?thesis
    by (simp add: enforceTick_def t c f allPeers_def Let_def)
qed

lemma fold_tick_peer_inv:
  "store_inv (db w) \<Longrightarrow> store_inv (db (fold (tick_peer os cfg tr ov) ps w))"
proof (induction ps arbitrary: w)
  case (Cons p ps)
  have "store_inv (db (tick_peer os cfg tr ov p w))"
    unfolding tick_peer_db [OF Cons.prems] using Cons.prems by (intro store_inv_update_rows) simp_all
  from Cons.IH [OF this] show ?case by simp
qed simp

lemma enforceTick_inv: "store_inv (db w) \<Longrightarrow> store_inv (db (enforceTick os cfg w))"
  by (auto simp: enforceTick_def wgTransfer_frame fold_tick_peer_inv Let_def split: prod.splits)

section \<open>The pass on the block set\<close>

definition next_members :: "bool \<Rightarrow> string set \<Rightarrow> string set \<Rightarrow> string set" where
  "next_members b C S = (if b then S \<union> C else S - C)"

lemma ipset_cmd_members:
  assumes "ipset_laws os name members" and "ip \<noteq> [] \<longrightarrow> dotted ip"
  shows "members (kern (ipset_cmd os name b ip w)) = next_members b {x. x \<noteq> [] \<and> x = ip} (members (kern w))"
  using assms(2) ipset_laws_run(2,3) [OF assms(1), of ip w]
  by (auto simp: ipset_cmd_def next_members_def)

lemma kern_db_update [simp]: "kern (w\<lparr>db := d\<rparr>) = kern w"
  by simp

lemma claims_bill [simp]: "claims (bill_wg tr p) = claims p" "claims (bill_ovpn ov p) = claims p"
  "claims (settle tr ov t p) = claims p"
  by (simp_all add: claims_def)

lemma tick_peer_members:
  assumes l: "ipset_laws os (IPSet cfg) members" and c: "\<forall>ip\<in>claims p. dotted ip"
    and inv: "store_inv (db w)"
  shows "members (kern (tick_peer os cfg tr ov p w)) =
    next_members (Blocked (settle tr ov (now w) p)) (claims p) (members (kern w))"
proof -
  have d: "Address p \<noteq> [] \<longrightarrow> dotted (Address p)" "OvpnIP p \<noteq> [] \<longrightarrow> dotted (OvpnIP p)"
    using c by (auto simp: claims_def)
  define b where "b = effectiveBlocked (bill_ovpn ov (bill_wg tr p)) (now w)"
  define w1 where "w1 = w\<lparr>db := snd (tick_ovpn ov (bill_wg tr p) (snd (tick_wg tr p (db w))))\<rparr>"
  have fsts: "fst (tick_wg tr p st) = bill_wg tr p" "fst (tick_ovpn ov q st) = bill_ovpn ov q" for st q
    by (auto simp: tick_wg_def bill_wg_def tick_ovpn_def bill_ovpn_def Let_def split: option.splits)
  have k: "kern (tick_peer os cfg tr ov p w) =
    kern (ipset_cmd os (IPSet cfg) b (OvpnIP p) (ipset_cmd os (IPSet cfg) b (Address p) w1))"
  proof -
    obtain st1 where 1: "tick_wg tr p (db w) = (bill_wg tr p, st1)" using fsts(1) by (metis prod.collapse)
    obtain st2 where 2: "tick_ovpn ov (bill_wg tr p) st1 = (bill_ovpn ov (bill_wg tr p), st2)"
      using fsts(2) by (metis prod.collapse)
    show ?thesis by (simp add: tick_peer_def 1 2 b_def w1_def Let_def)
  qed
  have "claims p = {x. x \<noteq> [] \<and> x = Address p} \<union> {x. x \<noteq> [] \<and> x = OvpnIP p}"
    by (auto simp: claims_def)
  then show ?thesis
    unfolding k ipset_cmd_members [OF l d(2)] ipset_cmd_members [OF l d(1)]
    by (auto simp: w1_def next_members_def settle_def b_def Let_def)
qed

lemma loop_members:
  assumes "ipset_laws os (IPSet cfg) members" and "\<forall>p\<in>set ps. \<forall>ip\<in>claims p. dotted ip"
    and "store_inv (db w)"
  shows "members (kern (fold (tick_peer os cfg tr ov) ps w)) =
    fold (\<lambda>p. next_members (Blocked (settle tr ov (now w) p)) (claims p)) ps (members (kern w))"
  using assms(2,3)
proof (induction ps arbitrary: w)
  case (Cons p ps)
  have "store_inv (db (tick_peer os cfg tr ov p w))"
    unfolding tick_peer_db [OF Cons.prems(2)] using Cons.prems by (intro store_inv_update_rows) simp_all
  moreover have "\<forall>p\<in>set ps. \<forall>ip\<in>claims p. dotted ip" "\<forall>ip\<in>claims p. dotted ip" using Cons.prems(1) by auto
  ultimately show ?case
    using Cons.IH [of "tick_peer os cfg tr ov p w"] Cons.prems(2) by (simp add: tick_peer_members [OF assms(1)])
qed simp

text \<open>Rows that claim no common address.\<close>

definition claims_disjoint :: "peer list \<Rightarrow> bool" where
  "claims_disjoint ps \<longleftrightarrow> (\<forall>p\<in>set ps. \<forall>q\<in>set ps. ID p \<noteq> ID q \<longrightarrow> claims p \<inter> claims q = {})"

lemma fold_next_members:
  assumes "distinct (map ID ps)"
    and "\<forall>p\<in>set ps. \<forall>q\<in>set ps. ID p \<noteq> ID q \<longrightarrow> claims p \<inter> claims q = {}"
  shows "fold (\<lambda>p. next_members (b p) (claims p)) ps S =
    (S - \<Union> (claims ` set ps)) \<union> \<Union> (claims ` {p \<in> set ps. b p})"
  using assms
proof (induction ps arbitrary: S)
  case (Cons p ps)
  have "claims p \<inter> claims q = {}" if "q \<in> set ps" for q
  proof -
    have "ID p \<noteq> ID q" using Cons.prems(1) that by auto
    with Cons.prems(2) that show ?thesis by simp
  qed
  then have d: "claims p \<inter> \<Union> (claims ` set ps) = {}" by blast
  have "fold (\<lambda>p. next_members (b p) (claims p)) ps (next_members (b p) (claims p) S) =
    (next_members (b p) (claims p) S - \<Union> (claims ` set ps)) \<union> \<Union> (claims ` {p \<in> set ps. b p})"
    using Cons by auto
  then have "fold (\<lambda>p. next_members (b p) (claims p)) (p # ps) S =
    (next_members (b p) (claims p) S - \<Union> (claims ` set ps)) \<union> \<Union> (claims ` {p \<in> set ps. b p})"
    by simp
  also have "\<dots> = (S - \<Union> (claims ` set (p # ps))) \<union> \<Union> (claims ` {q \<in> set (p # ps). b q})"
    using d by (auto simp: next_members_def)
  finally show ?case .
qed simp

lemma known_claims: "known ps ip \<longleftrightarrow> ip \<in> \<Union> (claims ` set ps)"
  by (auto simp: known_def claims_def list_ex_iff)

lemma fold_del_members:
  assumes "ipset_laws os name members" and "\<forall>ip\<in>set xs. dotted ip"
  shows "members (kern (fold (\<lambda>ip. runq os ''ipset'' [''del'', name, ip]) xs w)) = members (kern w) - set xs"
  using assms(2) by (induction xs arbitrary: w) (auto simp: ipset_laws_run(3) [OF assms(1)])

lemma sweep_members:
  assumes l: "ipset_laws os (IPSet cfg) members"
  shows "members (kern (sweep os cfg ps w)) =
    (if listing_ok os (IPSet cfg) w then members (kern w) \<inter> \<Union> (claims ` set ps) else members (kern w))"
proof -
  obtain hv w' where h: "ipsetMembers os (IPSet cfg) w = (hv, w')" by fastforce
  note L = ipset_laws_list [OF l h]
  show ?thesis
  proof (cases "listing_ok os (IPSet cfg) w")
    case True
    have "set hv = members (kern w)" using L(2) True .
    moreover have "\<forall>ip\<in>set (staleIPs hv (known ps)). dotted ip"
      using ipset_laws_run(6) [OF l] calculation by (auto simp: staleIPs_def)
    ultimately show ?thesis
      using True L(1) fold_del_members [OF l, of "staleIPs hv (known ps)" w']
      by (auto simp: sweep_def h staleIPs_def known_claims)
  next
    case False
    then show ?thesis using L(1,3) by (simp add: sweep_def h staleIPs_def)
  qed
qed

definition world_before_sweep :: "'k os \<Rightarrow> config \<Rightarrow> 'k world \<Rightarrow> 'k world" where
  "world_before_sweep os cfg w =
     (let (tr, w2) = wgTransfer os (Interface cfg) (ensureIPSet os cfg w)
      in fold (tick_peer os cfg tr (ovpnUsage os cfg w2)) (rows (db w2)) w2)"

lemma enforceTick_members:
  assumes l: "ipset_laws os (IPSet cfg) members" and inv: "store_inv (db w)"
    and dot: "\<forall>p\<in>set (rows (db w)). \<forall>ip\<in>claims p. dotted ip" and dis: "claims_disjoint (rows (db w))"
  defines "w' \<equiv> enforceTick os cfg w"
  defines "must \<equiv> \<Union> (claims ` {p \<in> set (rows (db w')). Blocked p})"
  shows "members (kern w') =
    (if listing_ok os (IPSet cfg) (world_before_sweep os cfg w) then must
     else must \<union> (members (kern w) - \<Union> (claims ` set (rows (db w)))))"
proof -
  obtain tr w2 where t: "wgTransfer os (Interface cfg) (ensureIPSet os cfg w) = (tr, w2)" by fastforce
  note f = wgTransfer_frame [OF t]
  define ov where "ov = ovpnUsage os cfg w2"
  have r2: "rows (db w2) = rows (db w)" "now w2 = now w" "store_inv (db w2)" using f inv by simp_all
  have m2: "members (kern w2) = members (kern w)"
    using wgTransfer_members [OF l t] ensureIPSet_members [OF l] by simp
  define w3 where "w3 = fold (tick_peer os cfg tr ov) (rows (db w)) w2"
  have w3': "w3 = world_before_sweep os cfg w"
    by (simp add: w3_def world_before_sweep_def t ov_def r2)
  have w': "w' = sweep os cfg (rows (db w)) w3"
    by (simp add: w'_def enforceTick_def t ov_def w3_def allPeers_def r2 Let_def)
  have rows': "rows (db w') = map (settle tr ov (now w)) (rows (db w))"
    unfolding w'_def by (rule enforceTick_rows [OF inv]) (simp add: tick_counters_def t ov_def)
  let ?C = "\<Union> (claims ` set (rows (db w)))"
  let ?B = "\<Union> (claims ` {p \<in> set (rows (db w)). Blocked (settle tr ov (now w) p)})"
  have must: "must = ?B" unfolding must_def rows' by force
  have "members (kern w3) = (members (kern w) - ?C) \<union> ?B"
    unfolding w3_def loop_members [OF l dot r2(3)] m2 r2(2)
    using dis store_inv_ids [OF inv] by (intro fold_next_members) (auto simp: claims_disjoint_def)
  moreover have "?B \<subseteq> ?C" by auto
  ultimately show ?thesis
    unfolding w' must w3' [symmetric] sweep_members [OF l] by auto
qed

section \<open>An interpreter that obeys the laws\<close>

definition kset_exec :: "string \<Rightarrow> string list \<Rightarrow> string \<Rightarrow> fs \<Rightarrow> ip4 list \<Rightarrow> (string \<times> string option) \<times> ip4 list" where
  "kset_exec cmd args inp f k =
     (if cmd = ''ipset'' \<and> length args = 4 \<and> args ! 0 = ''add'' then
        (([], None), case parse_ip4 (args ! 2) of None \<Rightarrow> k | Some a \<Rightarrow> a # k)
      else if cmd = ''ipset'' \<and> length args = 3 \<and> args ! 0 = ''del'' then
        (([], None), case parse_ip4 (args ! 2) of None \<Rightarrow> k | Some a \<Rightarrow> filter (\<lambda>b. b \<noteq> a) k)
      else if cmd = ''ipset'' \<and> length args = 4 \<and> args ! 0 = ''list'' then
        ((join [CHR 0x0A] (map (\<lambda>a. ''add '' @ args ! 1 @ '' '' @ ip_str a) k), None), k)
      else (([], None), k))"

definition kset_os :: "ip4 list os" where
  "kset_os = \<lparr>exec = kset_exec, dial = (\<lambda>n a k. Inl ''refused''), random_hex = (\<lambda>n k. ([], k)),
     fs_err = (\<lambda>c p. None)\<rparr>"

definition kset_members :: "ip4 list \<Rightarrow> string set" where
  "kset_members k = set (map ip_str k)"

lemma dotted_ip_str [simp]: "dotted (ip_str a)"
  by (simp add: dotted_def parse_ip4_ip_str)

lemma parse_kset_listing:
  assumes "word_like n"
  shows "parseIpsetSave n (join [CHR 0x0A] (map (\<lambda>a. ''add '' @ n @ '' '' @ ip_str a) k)) = map ip_str k"
proof (cases "k = []")
  case True
  then show ?thesis by (simp add: parseIpsetSave_def)
next
  case False
  have l: "CHR 0x0A \<notin> set (''add '' @ n @ '' '' @ ip_str a)" for a
    using word_like_no_newline [OF assms] word_like_no_newline [OF ip_str_word_like [of a]] by auto
  have s: "split_on CHR 0x0A (join [CHR 0x0A] (map (\<lambda>a. ''add '' @ n @ '' '' @ ip_str a) k)) =
    map (\<lambda>a. ''add '' @ n @ '' '' @ ip_str a) k"
    using False l by (intro split_on_join) auto
  have w: "word_like ''add''" by (simp add: word_like_def printable_def)
  have f: "str_fields (''add '' @ n @ '' '' @ ip_str a) = [''add'', n, ip_str a]" for a
    using str_fields_Cons [OF w, of "n @ '' '' @ ip_str a"] str_fields_Cons [OF assms, of "ip_str a"]
      str_fields_word [OF ip_str_word_like [of a]] by simp
  show ?thesis
    unfolding parseIpsetSave_def s map_map comp_def f by (induction k) (simp_all add: Let_def)
qed

lemma kset_laws:
  assumes "word_like n"
  shows "ipset_laws kset_os n kset_members"
  unfolding ipset_laws_def
proof (intro conjI allI impI ballI)
  fix f k and ip :: string
  assume "dotted ip"
  then obtain a where a: "parse_ip4 ip = Some a" "ip = ip_str a"
    by (auto simp: dotted_def split: option.splits)
  show "set_after kset_members kset_os ''ipset'' [''add'', n, ip, ''-exist''] f k = insert ip (kset_members k)"
    by (simp add: set_after_def kset_os_def kset_exec_def kset_members_def a parse_ip4_ip_str)
  show "set_after kset_members kset_os ''ipset'' [''del'', n, ip] f k = kset_members k - {ip}"
    using ip_str_inj by (auto simp: set_after_def kset_os_def kset_exec_def kset_members_def a parse_ip4_ip_str inj_on_def)
next
  fix f k
  show "list_law kset_os n kset_members f k"
    by (simp add: list_law_def kset_os_def kset_exec_def kset_members_def
        parse_kset_listing [OF assms, simplified])
next
  fix k ip
  show "ip \<in> kset_members k \<Longrightarrow> dotted ip" by (auto simp: kset_members_def)
qed (simp_all add: set_after_def kset_os_def kset_exec_def)

section \<open>Sample values\<close>

text \<open>Two users and a machine, used where a theorem is applied to concrete values.\<close>

definition ann :: peer where
  "ann = default_row\<lparr>ID := 1, Username := ''ann'', PublicKey := ''KA'', Address := ''10.66.66.2'',
     QuotaBytes := 100, UsedBytes := 40, OvpnCN := ''ann'', OvpnIP := ''10.8.0.2''\<rparr>"

definition bob :: peer where
  "bob = default_row\<lparr>ID := 2, Username := ''bob'', PublicKey := ''KB'', Address := ''10.66.66.3'',
     Enabled := False\<rparr>"

definition sample_store :: store where
  "sample_store = \<lparr>rows = [ann, bob], row_seq = 2\<rparr>"

definition sample_config :: config where
  "sample_config = zero_config\<lparr>Interface := ''wg0'', IPSet := ''blk'', WGConf := ''/etc/wireguard/wg0.conf''\<rparr>"

definition sample_world :: "ip4 list world" where
  "sample_world = \<lparr>db = sample_store, conf = Some sample_config, files = Map.empty,
     kern = [IP4 10 66 66 9], now = 0\<rparr>"

lemma sample_store_inv [simp]: "store_inv sample_store"
  by (simp add: sample_store_def store_inv_def ann_def bob_def default_row_def nonempty_distinct_def)

lemma sample_claims: "claims ann = {''10.66.66.2'', ''10.8.0.2''}" "claims bob = {''10.66.66.3''}"
  by (auto simp: claims_def ann_def bob_def default_row_def)

lemma sample_dotted: "\<forall>p\<in>set (rows sample_store). \<forall>ip\<in>claims p. dotted ip"
proof -
  have "''10.66.66.2'' = ip_str (IP4 10 66 66 2)" "''10.8.0.2'' = ip_str (IP4 10 8 0 2)"
    "''10.66.66.3'' = ip_str (IP4 10 66 66 3)" by code_simp+
  then have "dotted ''10.66.66.2''" "dotted ''10.8.0.2''" "dotted ''10.66.66.3''"
    using dotted_ip_str by metis+
  then show ?thesis
    unfolding sample_store_def store.simps list.set by (simp only: ball_simps sample_claims simp_thms)
qed

lemma sample_disjoint: "claims_disjoint (rows sample_store)"
  by (simp add: claims_disjoint_def sample_store_def sample_claims)

lemma db_sample_world [simp]: "db sample_world = sample_store"
  by (simp add: sample_world_def)

section \<open>Properties\<close>

text \<open>
  C1. After an enforcement pass the block set holds exactly the tunnel addresses of the users whose verdict
  is "blocked", on both protocols: the sweep has removed every address no user owns.  When the listing of the
  set fails, the pass still blocks and unblocks every owned address and only leaves foreign members in.
\<close>

theorem tick_blocks_exactly:
  assumes "ipset_laws os (IPSet cfg) members" and "store_inv (db w)"
    and "\<forall>p\<in>set (rows (db w)). \<forall>ip\<in>claims p. dotted ip" and "claims_disjoint (rows (db w))"
  shows "members (kern (enforceTick os cfg w)) =
    (let must = \<Union> (claims ` {p \<in> set (rows (db (enforceTick os cfg w))). Blocked p})
     in if listing_ok os (IPSet cfg) (world_before_sweep os cfg w) then must
        else must \<union> (members (kern w) - \<Union> (claims ` set (rows (db w)))))"
  unfolding Let_def using enforceTick_members [OF assms] by simp

lemma tick_blocks_exactly_witness:
  "kset_members (kern (enforceTick kset_os sample_config sample_world)) =
    \<Union> (claims ` {p \<in> set (rows (db (enforceTick kset_os sample_config sample_world))). Blocked p})"
proof -
  have n: "word_like (IPSet sample_config)"
    by (simp add: sample_config_def word_like_def printable_def)
  have "listing_ok kset_os n v" for n v
    by (simp add: listing_ok_def run_def exec_in_def kset_os_def kset_exec_def)
  then show ?thesis
    using tick_blocks_exactly [OF kset_laws [OF n], of sample_world, unfolded db_sample_world,
        OF sample_store_inv sample_dotted sample_disjoint]
    by (simp only: Let_def if_True)
qed

text \<open>
  C6. A pass touches no column but the usage counters and the verdict, so a renewal, a new quota or an
  address assigned meanwhile is never lost to it; every row's stored verdict is the one its columns call for,
  and the table stays well formed.
\<close>

theorem tick_only_usage_and_verdict:
  assumes "store_inv (db w)"
  shows "map other_columns (rows (db (enforceTick os cfg w))) = map other_columns (rows (db w)) \<and>
    list_all (\<lambda>p. Blocked p = effectiveBlocked p (now w)) (rows (db (enforceTick os cfg w))) \<and>
    store_inv (db (enforceTick os cfg w))"
proof -
  obtain tr ov where "tick_counters os cfg w = (tr, ov)" by fastforce
  note r = enforceTick_rows [OF assms this]
  show ?thesis
    unfolding r using enforceTick_inv [OF assms]
    by (simp add: settle_other_columns list_all_iff settle_verdict [symmetric])
qed

lemma tick_only_usage_and_verdict_witness:
  "map other_columns (rows (db (enforceTick kset_os sample_config sample_world))) =
     map other_columns [ann, bob]"
  using tick_only_usage_and_verdict [of sample_world kset_os sample_config, unfolded db_sample_world,
      OF sample_store_inv]
  by (simp only: sample_store_def store.simps simp_thms)

text \<open>
  Counters read twice without new traffic are billed once: a second pass over the same counters, at any
  later time, leaves what one pass at that time gives.
\<close>

theorem tick_counts_once: "settle tr ov t2 (settle tr ov t1 p) = settle tr ov t2 p"
  by (simp add: settle_def Let_def bill_commute bill_again)

end
