(* ===== verification/WgRender.thy ===== *)
theory WgRender
  imports WgConf Blocking
begin

text \<open>
  What rendering does: \<open>renderConf\<close> keeps the hand-written head of \<^verbatim>\<open>wg0.conf\<close>, replaces everything below it
  by the section the database calls for, is stable under repetition, and refuses, touching nothing, to drop a
  running peer the database does not know.
\<close>

section \<open>The rendered text has the head it was rendered from\<close>

lemma trim_right_replicate: "\<exists>k. s = trim_right_char c s @ replicate k c"
proof (induction s rule: rev_induct)
  case (snoc x s)
  show ?case
  proof (cases "x = c")
    case True
    obtain k where "s = trim_right_char c s @ replicate k c" using snoc by blast
    then have "s @ [c] = trim_right_char c s @ (replicate k c @ [c])"
      unfolding append_assoc [symmetric] by simp
    then have "s @ [x] = trim_right_char c (s @ [x]) @ replicate (Suc k) c"
      unfolding True trim_right_char_append replicate_Suc replicate_append_same .
    then show ?thesis by blast
  next
    case False
    then have "trim_right_char c (s @ [x]) = s @ [x]" by (intro trim_right_char_id) simp
    then show ?thesis by (intro exI [of _ 0]) simp
  qed
qed (simp add: trim_right_char_def)

lemma lines_join [simp]: "join nl (lines s) = s"
  by (simp add: nl_def lines_def)

lemma lines_append: "lines (a @ nl @ b) = lines a @ lines b"
  by (simp add: lines_def nl_def split_on_append2)

lemma lines_snoc_newline: "lines (a @ [CHR 0x0A]) = lines a @ [[]]"
  using lines_append [of a "[]"] by (simp add: nl_def lines_def)

lemma lines_replicate: "lines (a @ replicate k CHR 0x0A) = lines a @ replicate k []"
proof (induction k arbitrary: a)
  case (Suc k)
  have "a @ replicate (Suc k) CHR 0x0A = (a @ [CHR 0x0A]) @ replicate k CHR 0x0A" by simp
  then show ?case using Suc [of "a @ [CHR 0x0A]"] by (simp add: lines_snoc_newline)
qed simp

lemma trim_space_Nil [simp]: "trim_space [] = []"
  by (rule trim_space_tight) (simp add: tight_def)

lemma isHeadEnd_Nil [simp]: "\<not> isHeadEnd []"
  by (simp add: isHeadEnd_def peerMarker_def)

lemma marker_ends_head: "isHeadEnd (trim_space peerMarker)"
proof -
  have "tight peerMarker" by (simp add: tight_def peerMarker_def printable_def)
  then show ?thesis by (simp add: isHeadEnd_def)
qed

lemma lines_no_newline: "l \<in> set (lines s) \<Longrightarrow> CHR 0x0A \<notin> set l"
  unfolding lines_def by (rule split_on_elem_no_sep)

lemma lines_confHead: "head_lines text \<noteq> [] \<Longrightarrow> lines (confHead text) = head_lines text"
  unfolding lines_def confHead_def nl_def
  by (rule split_on_join) (auto simp: head_lines_def dest: set_takeWhileD lines_no_newline)

text \<open>The lines of the trimmed head are head lines, with only empty ones cut off at the end.\<close>

lemma trimmed_head:
  assumes "head_lines text \<noteq> []"
  obtains k where "head_lines text = lines (trim_right_char CHR 0x0A (confHead text)) @ replicate k []"
proof -
  obtain k where "confHead text = trim_right_char CHR 0x0A (confHead text) @ replicate k CHR 0x0A"
    using trim_right_replicate by blast
  then have "lines (confHead text) = lines (trim_right_char CHR 0x0A (confHead text)) @ replicate k []"
    by (metis lines_replicate)
  then show ?thesis using that lines_confHead [OF assms] by simp
qed

definition rendered :: "string \<Rightarrow> store \<Rightarrow> string" where
  "rendered text st = trim_right_char CHR 0x0A (confHead text) @ renderPeerSection st"

lemma rendered_lines:
  "lines (rendered text st) = lines (trim_right_char CHR 0x0A (confHead text)) @
     [[], peerMarker] @ lines (concat (map render_peer (allPeers st)))"
proof -
  have m: "lines peerMarker = [peerMarker]"
    unfolding lines_def by (rule split_on_no_sep) (simp add: peerMarker_def)
  have "rendered text st = trim_right_char CHR 0x0A (confHead text) @ nl @ [] @ nl @ peerMarker @ nl @
      concat (map render_peer (allPeers st))"
    by (simp add: rendered_def renderPeerSection_def)
  then show ?thesis by (simp only: lines_append m) (simp add: lines_def)
qed

lemma head_lines_rendered:
  assumes "head_lines text \<noteq> []"
  shows "head_lines (rendered text st) = lines (trim_right_char CHR 0x0A (confHead text)) @ [[]]"
proof -
  obtain k where k: "head_lines text = lines (trim_right_char CHR 0x0A (confHead text)) @ replicate k []"
    using trimmed_head [OF assms] .
  have "\<not> isHeadEnd (trim_space l)" if "l \<in> set (lines (trim_right_char CHR 0x0A (confHead text)))" for l
  proof -
    have "l \<in> set (head_lines text)" using k that by simp
    then show ?thesis unfolding head_lines_def by (auto dest: set_takeWhileD)
  qed
  then show ?thesis
    unfolding head_lines_def rendered_lines by (simp add: takeWhile_append2 marker_ends_head)
qed

lemma head_address_rendered:
  assumes "head_lines text \<noteq> []"
  shows "head_address (rendered text st) = head_address text"
proof -
  obtain k where k: "head_lines text = lines (trim_right_char CHR 0x0A (confHead text)) @ replicate k []"
    using trimmed_head [OF assms] .
  have e: "address_line acc [] = acc" for acc
    by (simp add: address_line_def to_lower_def has_prefix_def)
  have "foldl address_line acc (replicate j []) = acc" for acc j
    by (induction j arbitrary: acc) (simp_all add: e)
  then show ?thesis
    unfolding head_address_def head_lines_rendered [OF assms] k by (simp add: e)
qed

lemma rendered_again:
  assumes "head_lines text \<noteq> []"
  shows "rendered (rendered text st) st' = rendered text st'"
proof -
  let ?t = "trim_right_char CHR 0x0A (confHead text)"
  have "confHead (rendered text st) = join nl (lines ?t @ [[]])"
    unfolding confHead_def [of "rendered text st"] head_lines_rendered [OF assms] by simp
  also have "\<dots> = ?t @ nl" by (subst join_append) (simp_all add: lines_def nl_def)
  finally have c: "confHead (rendered text st) = ?t @ [CHR 0x0A]" by (simp add: nl_def)
  have "trim_right_char CHR 0x0A ?t = ?t"
    using trim_right_char_last [of "CHR 0x0A" "confHead text"] by (intro trim_right_char_id) blast
  then show ?thesis
    unfolding rendered_def [of "rendered text st"] c trim_right_char_append by (simp add: rendered_def)
qed

section \<open>The effect of \<open>renderConf\<close>\<close>

lemma applyLive_files:
  assumes "applyLive os cfg w = (r, w')" and "path \<noteq> ''/tmp/wgmgr-'' @ Interface cfg @ ''.strip''"
  shows "files w' path = files w path"
  using assms
  by (auto simp: applyLive_def and_then_def or_die_def write_file_def remove_file_def Let_def
      run_def exec_in_def mustRun_def split: prod.splits sum.splits option.splits if_splits)

lemma interfaceHead_ok:
  assumes "interfaceHead path w = (Inr (head, n, ip), w')"
  obtains tx where "file_text w path = Some tx" "head = confHead tx" "w' = w"
    "head_address tx = Some (ip, n)"
  using assms by (auto simp: interfaceHead_def split: option.splits prod.splits)

text \<open>The file after a successful rendering.\<close>

lemma replace_conf_files:
  assumes r: "replace_conf os cfg (confHead tx) w = (Inr (), w')"
    and strip: "WGConf cfg \<noteq> ''/tmp/wgmgr-'' @ Interface cfg @ ''.strip''"
  shows "file_text w' (WGConf cfg) = Some (rendered tx (db w))"
proof -
  let ?new = "rendered tx (db w)"
  let ?tmp = "WGConf cfg @ ''.wgmgr.tmp''"
  have n: "trim_right_char CHR 0x0A (confHead tx) @ renderPeerSection (db w) = ?new" by (simp add: rendered_def)
  from r have 1: "and_then (or_die ''write conf: '' (write_file os ?tmp ?new)) (\<lambda>_.
     and_then (or_die ''replace conf: '' (rename_file os ?tmp (WGConf cfg))) (\<lambda>_. applyLive os cfg)) w = (Inr (), w')"
    unfolding replace_conf_def by (simp add: n)
  obtain w2 where w2: "or_die ''write conf: '' (write_file os ?tmp ?new) w = (Inr (), w2)"
    and 2: "and_then (or_die ''replace conf: '' (rename_file os ?tmp (WGConf cfg))) (\<lambda>_. applyLive os cfg) w2 = (Inr (), w')"
    using iffD1 [OF and_then_Inr_iff 1] by auto
  obtain w3 where w3: "or_die ''replace conf: '' (rename_file os ?tmp (WGConf cfg)) w2 = (Inr (), w3)"
    and live: "applyLive os cfg w3 = (Inr (), w')"
    using iffD1 [OF and_then_Inr_iff 2] by auto
  have "files w2 ?tmp = Some \<lparr>content = ?new, mtime = now w\<rparr>"
    using w2 by (auto simp: or_die_def write_file_def split: prod.splits option.splits)
  then have "file_text w3 (WGConf cfg) = Some ?new"
    using w3 by (auto simp: or_die_def rename_file_def file_text_def split: prod.splits option.splits)
  then show ?thesis using applyLive_files [OF live strip] by (simp add: file_text_def)
qed

lemma render_body_files:
  assumes "and_then (interfaceHead (WGConf cfg)) (\<lambda>(head, _, _). replace_conf os cfg head) w = (Inr (), w')"
    and strip: "WGConf cfg \<noteq> ''/tmp/wgmgr-'' @ Interface cfg @ ''.strip''"
  shows "\<exists>tx. file_text w (WGConf cfg) = Some tx \<and> head_address tx \<noteq> None \<and>
    file_text w' (WGConf cfg) = Some (rendered tx (db w))"
proof -
  obtain a w1 where a: "interfaceHead (WGConf cfg) w = (Inr a, w1)"
    and r: "(\<lambda>(head, _, _). replace_conf os cfg head) a w1 = (Inr (), w')"
    using iffD1 [OF and_then_Inr_iff assms(1)] by blast
  obtain head n ip where a': "a = (head, n, ip)" by (cases a)
  obtain tx where t: "file_text w (WGConf cfg) = Some tx" "head = confHead tx" "w1 = w"
    "head_address tx = Some (ip, n)"
    using interfaceHead_ok [OF a [unfolded a']] .
  have "replace_conf os cfg (confHead tx) w = (Inr (), w')" using r by (simp add: a' t)
  from replace_conf_files [OF this strip] show ?thesis using t(1,4) by auto
qed

section \<open>A machine\<close>

text \<open>
  A command interpreter with one running peer, \<^verbatim>\<open>KA\<close>, that hands out fixed keys, and a host with a
  WireGuard configuration, used where a theorem is applied to concrete values.
\<close>

definition demo_exec :: "string \<Rightarrow> string list \<Rightarrow> string \<Rightarrow> fs \<Rightarrow> unit \<Rightarrow> (string \<times> string option) \<times> unit" where
  "demo_exec cmd args inp f k =
     ((if cmd = ''wg'' \<and> length args = 3 \<and> args ! 2 = ''peers'' then ''KA''
       else if cmd = ''wg'' \<and> args = [''genkey''] then ''PRIV''
       else if cmd = ''wg'' \<and> args = [''pubkey''] then ''PUB''
       else if cmd = ''wg'' \<and> args = [''genpsk''] then ''SHARED''
       else [], None), ())"

definition demo_os :: "unit os" where
  "demo_os = \<lparr>exec = demo_exec, dial = (\<lambda>n a k. Inl ''refused''), random_hex = (\<lambda>n k. ([], k)),
     fs_err = (\<lambda>c p. None)\<rparr>"

definition demo_conf :: string where
  "demo_conf = ''Address = '' @ cidr_str (IP4 10 66 66 1) 24"

definition demo_world :: "store \<Rightarrow> unit world" where
  "demo_world st = \<lparr>db = st, conf = Some sample_config,
     files = [''/etc/wireguard/wg0.conf'' \<mapsto> \<lparr>content = demo_conf, mtime = 0\<rparr>], kern = (), now = 0\<rparr>"

lemma cidr_str_chars: "c \<in> set (cidr_str x k) \<Longrightarrow> is_digit c \<or> c = CHR ''.'' \<or> c = CHR ''/''"
  using nat_str_digits [of k] by (auto simp: cidr_str_def list_all_iff dest: ip_str_chars)

lemma cidr_str_tight: "tight (cidr_str x k)" "tight (''Address = '' @ cidr_str x k)"
proof -
  have "cidr_str x k \<noteq> []" by (simp add: cidr_str_def)
  moreover have "printable c" if "c \<in> set (cidr_str x k)" for c
    using cidr_str_chars [OF that] by (auto simp: is_digit_def printable_def)
  ultimately show "tight (cidr_str x k)" "tight (''Address = '' @ cidr_str x k)"
    by (simp_all add: tight_def printable_def [of "CHR ''A''"])
qed

lemma address_line_cidr:
  assumes "k \<le> 32"
  shows "address_line acc (''Address = '' @ cidr_str x k) = Some (x, mk_net x k)"
proof -
  have 1: "trim_space (''Address = '' @ cidr_str x k) = ''Address = '' @ cidr_str x k"
    using cidr_str_tight(2) by (rule trim_space_tight)
  have 2: "has_prefix (to_lower (''Address = '' @ cidr_str x k)) ''address''"
  proof -
    have "to_lower ''Address = '' = ''address = ''" by code_simp
    moreover have "to_lower (''Address = '' @ s) = to_lower ''Address = '' @ to_lower s" for s
      unfolding to_lower_def by (rule map_append)
    ultimately have "to_lower (''Address = '' @ cidr_str x k) = ''address'' @ '' = '' @ to_lower (cidr_str x k)"
      by (simp only: append.simps)
    then show ?thesis using has_prefix_append [of "''address''"] by simp
  qed
  have 3: "after_eq (''Address = '' @ cidr_str x k) = '' '' @ cidr_str x k"
    using cut_at_append [of "CHR ''=''" "''Address ''" "'' '' @ cidr_str x k"] by (simp add: after_eq_def)
  have "CHR '','' \<notin> set ('' '' @ cidr_str x k)"
    using cidr_str_chars [of "CHR '',''" x k] by (auto simp: is_digit_def)
  then have 4: "split_on CHR '','' ('' '' @ cidr_str x k) = ['' '' @ cidr_str x k]" by (rule split_on_no_sep)
  have 5: "trim_space ('' '' @ cidr_str x k) = cidr_str x k"
    using trim_space_leading [OF cidr_str_tight(1)] by simp
  show ?thesis
    unfolding address_line_def 1 Let_def 3 4 list.sel 5 parse_cidr_cidr_str [OF assms] using 2 by simp
qed

lemma demo_head: "lines demo_conf = [demo_conf]" "head_lines demo_conf = [demo_conf]"
  "head_address demo_conf = Some (IP4 10 66 66 1, mk_net (IP4 10 66 66 1) 24)" "confHead demo_conf = demo_conf"
proof -
  have "CHR 0x0A \<notin> set demo_conf"
    using cidr_str_chars [of "CHR 0x0A" "IP4 10 66 66 1" 24] by (auto simp: demo_conf_def is_digit_def)
  then show l: "lines demo_conf = [demo_conf]" unfolding lines_def by (rule split_on_no_sep)
  have "\<not> isHeadEnd (trim_space demo_conf)"
    unfolding demo_conf_def trim_space_tight [OF cidr_str_tight(2)] by (simp add: isHeadEnd_def peerMarker_def)
  then show h: "head_lines demo_conf = [demo_conf]" by (simp add: head_lines_def l)
  show "head_address demo_conf = Some (IP4 10 66 66 1, mk_net (IP4 10 66 66 1) 24)"
    unfolding head_address_def h foldl.simps unfolding demo_conf_def by (rule address_line_cidr) simp
  show "confHead demo_conf = demo_conf" by (simp add: confHead_def h)
qed

section \<open>Properties\<close>

text \<open>
  C19. Without \<^verbatim>\<open>force\<close>, rendering refuses when the running interface has a peer the database does not know,
  and then no file and no row has changed: an un-imported user is never disconnected by accident.
\<close>

theorem render_refuses_unknown_peer:
  assumes "WGConf cfg \<noteq> []" and "livePeers os (Interface cfg) w = (live, w1)"
    and "k \<in> set live" and "k \<notin> PublicKey ` set (rows (db w))"
  shows "\<exists>e w'. renderConf os cfg False w = (Inl e, w') \<and> files w' = files w \<and> db w' = db w"
proof -
  note f = livePeers_frame [OF assms(2)]
  have "unknown_live (db w1) live \<noteq> None"
    using assms(3,4) f by (auto simp: unknown_live_def find_None_iff allPeers_def)
  then obtain pk where "unknown_live (db w1) live = Some pk" by auto
  then show ?thesis using f by (simp add: renderConf_def assms)
qed

lemma render_refuses_unknown_peer_witness:
  "files (snd (renderConf demo_os sample_config False (demo_world empty_store))) ''/etc/wireguard/wg0.conf'' =
     Some \<lparr>content = demo_conf, mtime = 0\<rparr>"
proof -
  have l: "livePeers demo_os (Interface sample_config) (demo_world empty_store) =
    ([''KA''], demo_world empty_store)"
    by (simp add: livePeers_def run_def exec_in_def demo_os_def demo_exec_def demo_world_def
        str_fields_word word_like_def printable_def)
  from render_refuses_unknown_peer [OF _ l, of "''KA''"] show ?thesis
    by (auto simp: sample_config_def demo_world_def empty_store_def)
qed

text \<open>
  C20. A successful rendering leaves in \<^verbatim>\<open>wg0.conf\<close> its own head, trimmed of trailing blank lines, followed by
  exactly the section of the database, whatever the section was before; and the new file's head is read back
  with the same server address and subnet.
\<close>

theorem render_replaces_section:
  assumes "renderConf os cfg force w = (Inr (), w')" and "WGConf cfg \<noteq> []"
    and "WGConf cfg \<noteq> ''/tmp/wgmgr-'' @ Interface cfg @ ''.strip''"
  shows "\<exists>text text'. file_text w (WGConf cfg) = Some text \<and> file_text w' (WGConf cfg) = Some text' \<and>
    text' = trim_right_char CHR 0x0A (confHead text) @ renderPeerSection (db w) \<and>
    head_address text' = head_address text \<and> head_address text \<noteq> None \<and>
    db w' = db w"
proof -
  obtain live w1 where l: "(if force then ([], w) else livePeers os (Interface cfg) w) = (live, w1)"
    by fastforce
  then have f: "db w1 = db w" "files w1 = files w" by (auto split: if_splits dest: livePeers_frame)
  have u: "unknown_live (db w1) live = None" using assms(1,2) l by (auto simp: renderConf_def split: option.splits)
  from assms(1,2) l u obtain tx where t: "file_text w1 (WGConf cfg) = Some tx" "head_address tx \<noteq> None"
    "file_text w' (WGConf cfg) = Some (rendered tx (db w1))"
    using render_body_files [OF _ assms(3), of os w1 w'] by (auto simp: renderConf_def)
  have "head_lines tx \<noteq> []" using t(2) by (auto simp: head_address_def)
  then show ?thesis
    using t f head_address_rendered [of tx "db w"] keeps_dbD [OF keeps_db_renderConf assms(1)]
    by (auto simp: rendered_def file_text_def)
qed

lemma render_replaces_section_witness:
  "file_text (snd (renderConf demo_os sample_config True (demo_world sample_store))) ''/etc/wireguard/wg0.conf'' =
     Some (trim_right_char CHR 0x0A demo_conf @ renderPeerSection sample_store)"
proof -
  have run: "\<exists>w'. renderConf demo_os sample_config True (demo_world sample_store) = (Inr (), w')"
  proof -
    have h: "interfaceHead ''/etc/wireguard/wg0.conf'' (demo_world sample_store) =
      (Inr (demo_conf, mk_net (IP4 10 66 66 1) 24, IP4 10 66 66 1), demo_world sample_store)"
      by (simp add: interfaceHead_def file_text_def demo_world_def demo_head)
    have "renderConf demo_os sample_config True (demo_world sample_store) =
      replace_conf demo_os sample_config demo_conf (demo_world sample_store)"
      by (simp add: renderConf_def unknown_live_def sample_config_def and_then_def h)
    moreover have "\<exists>w'. replace_conf demo_os sample_config demo_conf (demo_world sample_store) = (Inr (), w')"
      by (simp add: replace_conf_def and_then_def or_die_def write_file_def rename_file_def applyLive_def
          mustRun_def run_def exec_in_def demo_os_def demo_exec_def Let_def)
    ultimately show ?thesis by simp
  qed
  then obtain w' where w': "renderConf demo_os sample_config True (demo_world sample_store) = (Inr (), w')" by blast
  have f: "file_text (demo_world sample_store) (WGConf sample_config) = Some demo_conf"
    by (simp add: file_text_def demo_world_def sample_config_def)
  have "WGConf sample_config \<noteq> []" "WGConf sample_config \<noteq> ''/tmp/wgmgr-'' @ Interface sample_config @ ''.strip''"
    by (simp_all add: sample_config_def)
  from render_replaces_section [OF w' this] show ?thesis
    unfolding f by (simp add: w' demo_head) (simp add: sample_config_def demo_world_def)
qed

text \<open>
  Rendering is stable: rendering the file that a rendering produced gives the text that one rendering of
  the current database gives from the original file.
\<close>

theorem render_stable:
  assumes "head_address text \<noteq> None"
  shows "trim_right_char CHR 0x0A (confHead (trim_right_char CHR 0x0A (confHead text) @ renderPeerSection st)) @
      renderPeerSection st' = trim_right_char CHR 0x0A (confHead text) @ renderPeerSection st'"
proof -
  have "head_lines text \<noteq> []" using assms by (auto simp: head_address_def)
  from rendered_again [OF this, of st st'] show ?thesis by (simp add: rendered_def)
qed

lemma render_stable_witness:
  "trim_right_char CHR 0x0A (confHead (trim_right_char CHR 0x0A demo_conf @ renderPeerSection sample_store)) @
     renderPeerSection empty_store = trim_right_char CHR 0x0A demo_conf @ renderPeerSection empty_store"
  using render_stable [of demo_conf sample_store empty_store] by (simp add: demo_head)

end
