(* ===== verification/WgUsers.thy ===== *)
theory WgUsers
  imports WgRender
begin

text \<open>
  Users of the WireGuard side: what \<open>create_wg\<close> adds to the table, and \<^verbatim>\<open>wgmgr import\<close> (\<open>cmdImport\<close>), which
  reads the peers of an existing \<^verbatim>\<open>wg0.conf\<close> into the table.  The import is the inverse of the rendering of
  WgConf, for users whose name and keys are plain words.
\<close>

section \<open>Importing\<close>

text \<open>The parser's variables: the name, key, preshared key and address collected so far.\<close>

record import_vars =
  iv_name :: string
  iv_pub :: string
  iv_psk :: string
  iv_ip :: string

definition no_vars :: import_vars where
  "no_vars = \<lparr>iv_name = [], iv_pub = [], iv_psk = [], iv_ip = []\<rparr>"

text \<open>
  \<^verbatim>\<open>flush\<close>: the collected peer is inserted unless its name is taken; the legacy record of the key supplies
  the private key, the quota, the usage and the expiry.  \<^verbatim>\<open>pub[:6]\<close> panics on a shorter key.
\<close>

definition import_row :: "(string \<Rightarrow> peer option) \<Rightarrow> string \<Rightarrow> import_vars \<Rightarrow> peer" where
  "import_row legacy name v =
     (let lp = (case legacy (iv_pub v) of None \<Rightarrow> default_row | Some lp \<Rightarrow> lp)
      in default_row\<lparr>Username := name, PublicKey := iv_pub v, PrivateKey := PrivateKey lp, PSK := iv_psk v,
           Address := hd (split_on CHR ''/'' (iv_ip v)), QuotaBytes := QuotaBytes lp,
           UsedBytes := UsedBytes lp, ExpiresAt := ExpiresAt lp\<rparr>)"

definition import_flush :: "(string \<Rightarrow> peer option) \<Rightarrow> import_vars \<Rightarrow> (store, unit) prog" where
  "import_flush legacy v st =
     (if iv_pub v = [] \<or> iv_ip v = [] then (Inr (), st)
      else if iv_name v = [] \<and> length (iv_pub v) < 6 then (Inl ''slice bounds out of range'', st)
      else
        (let name = (if iv_name v = [] then ''peer-'' @ take 6 (iv_pub v) else iv_name v) in
         if getPeer st name \<noteq> None then (Inr (), st)
         else (case sql_insert (import_row legacy name v) st of
                 Inl _ \<Rightarrow> (Inr (), st)
               | Inr st' \<Rightarrow> (Inr (), st'))))"

definition import_line :: "(string \<Rightarrow> peer option) \<Rightarrow> string \<Rightarrow> import_vars \<Rightarrow> (store, import_vars) prog" where
  "import_line legacy l v =
     (let t = trim_space l in
      if has_prefix t ''### Client '' then
        and_then (import_flush legacy v)
          (\<lambda>_. finish (no_vars\<lparr>iv_name := trim_space (trim_prefix t ''### Client'')\<rparr>))
      else if has_prefix t ''### wgmgr:'' then
        and_then (import_flush legacy v)
          (\<lambda>_. finish (no_vars\<lparr>iv_name := trim_space (trim_prefix t ''### wgmgr:'')\<rparr>))
      else if t = ''[Peer]'' then finish v
      else if has_prefix t ''PublicKey'' then finish (v\<lparr>iv_pub := trim_space (after_eq t)\<rparr>)
      else if has_prefix t ''PresharedKey'' then finish (v\<lparr>iv_psk := trim_space (after_eq t)\<rparr>)
      else if has_prefix t ''AllowedIPs'' then
        finish (v\<lparr>iv_ip := trim_space (hd (split_on CHR '','' (after_eq t)))\<rparr>)
      else finish v)"

fun import_lines :: "(string \<Rightarrow> peer option) \<Rightarrow> string list \<Rightarrow> import_vars \<Rightarrow> (store, import_vars) prog" where
  "import_lines legacy [] v = finish v"
| "import_lines legacy (l # ls) v = and_then (import_line legacy l v) (import_lines legacy ls)"

definition import_conf :: "(string \<Rightarrow> peer option) \<Rightarrow> string \<Rightarrow> (store, unit) prog" where
  "import_conf legacy text = and_then (import_lines legacy (lines text) no_vars) (import_flush legacy)"

section \<open>Importing keeps the table well formed\<close>

lemma import_flush_inv: "store_inv st \<Longrightarrow> import_flush legacy v st = (r, st') \<Longrightarrow> store_inv st'"
  by (auto simp: import_flush_def Let_def split: if_splits sum.splits dest: sql_insert_inv)

lemma import_line_inv: "store_inv st \<Longrightarrow> import_line legacy l v st = (r, st') \<Longrightarrow> store_inv st'"
  using import_flush_inv [of st legacy v]
  by (auto simp: import_line_def and_then_def Let_def split: if_splits prod.splits sum.splits)

lemma import_lines_inv: "store_inv st \<Longrightarrow> import_lines legacy ls v st = (r, st') \<Longrightarrow> store_inv st'"
proof (induction ls arbitrary: v st)
  case (Cons l ls)
  then show ?case
    using import_line_inv [OF Cons.prems(1)]
    by (auto simp: and_then_def split: prod.splits sum.splits) blast
qed simp

section \<open>Reading back what was rendered\<close>

text \<open>A user whose rendered lines are read back: plain words for the name and keys, a dotted address.\<close>

definition plain_user :: "peer \<Rightarrow> bool" where
  "plain_user p \<longleftrightarrow> word_like (Username p) \<and> word_like (PublicKey p) \<and>
     (PSK p = [] \<or> word_like (PSK p)) \<and> dotted (Address p)"

definition imported :: "peer \<Rightarrow> peer" where
  "imported p = default_row\<lparr>Username := Username p, PublicKey := PublicKey p, PSK := PSK p,
     Address := Address p\<rparr>"

definition peer_vars :: "peer \<Rightarrow> import_vars" where
  "peer_vars p = \<lparr>iv_name = Username p, iv_pub = PublicKey p, iv_psk = PSK p, iv_ip = Address p @ ''/32''\<rparr>"

text \<open>A line no case of the parser looks at.\<close>

definition neutral_line :: "string \<Rightarrow> bool" where
  "neutral_line l \<longleftrightarrow> \<not> (\<exists>k\<in>{''### Client '', ''### wgmgr:'', ''PublicKey'', ''PresharedKey'', ''AllowedIPs''}.
     has_prefix (trim_space l) k)"

lemma import_line_neutral: "neutral_line l \<Longrightarrow> import_line legacy l v = finish v"
  by (simp add: neutral_line_def import_line_def Let_def)

lemma import_lines_neutral: "list_all neutral_line ls \<Longrightarrow> import_lines legacy ls v = finish v"
  by (induction ls arbitrary: v) (auto simp: import_line_neutral and_then_def)

lemma import_lines_append:
  "import_lines legacy (ls @ ms) v = and_then (import_lines legacy ls v) (import_lines legacy ms)"
  by (induction ls arbitrary: v)
    (auto simp: and_then_def fun_eq_iff split: prod.splits sum.splits)

lemma tight_append_word: "word_like w \<Longrightarrow> a \<noteq> [] \<Longrightarrow> printable (hd a) \<Longrightarrow> tight (a @ w)"
  by (auto simp: word_like_def tight_def list_all_iff)

lemma import_line_key:
  assumes "word_like w"
  shows "import_line legacy (''PublicKey = '' @ w) v = finish (v\<lparr>iv_pub := w\<rparr>)"
    and "import_line legacy (''PresharedKey = '' @ w) v = finish (v\<lparr>iv_psk := w\<rparr>)"
    and "import_line legacy (''AllowedIPs = '' @ w) v = finish (v\<lparr>iv_ip := trim_space (hd (split_on CHR '','' ('' '' @ w)))\<rparr>)"
proof -
  have s: "trim_space ('' '' @ w) = w"
    using trim_space_leading [OF word_like_tight [OF assms]] by simp
  have t: "trim_space (''PublicKey = '' @ w) = ''PublicKey = '' @ w"
    "trim_space (''PresharedKey = '' @ w) = ''PresharedKey = '' @ w"
    "trim_space (''AllowedIPs = '' @ w) = ''AllowedIPs = '' @ w"
    by (rule trim_space_tight, rule tight_append_word [OF assms], simp, simp add: printable_def)+
  have e: "after_eq (''PublicKey = '' @ w) = '' '' @ w" "after_eq (''PresharedKey = '' @ w) = '' '' @ w"
    "after_eq (''AllowedIPs = '' @ w) = '' '' @ w"
    using cut_at_append [of "CHR ''=''" "''PublicKey ''" "'' '' @ w"]
      cut_at_append [of "CHR ''=''" "''PresharedKey ''" "'' '' @ w"]
      cut_at_append [of "CHR ''=''" "''AllowedIPs ''" "'' '' @ w"]
    by (simp_all add: after_eq_def)
  show "import_line legacy (''PublicKey = '' @ w) v = finish (v\<lparr>iv_pub := w\<rparr>)"
    unfolding import_line_def t Let_def e s by simp
  show "import_line legacy (''PresharedKey = '' @ w) v = finish (v\<lparr>iv_psk := w\<rparr>)"
    unfolding import_line_def t Let_def e s by simp
  show "import_line legacy (''AllowedIPs = '' @ w) v = finish (v\<lparr>iv_ip := trim_space (hd (split_on CHR '','' ('' '' @ w)))\<rparr>)"
    unfolding import_line_def t Let_def e by simp
qed

lemma import_line_header:
  assumes "word_like u"
  shows "import_line legacy (''### wgmgr:'' @ u) v =
    and_then (import_flush legacy v) (\<lambda>_. finish (no_vars\<lparr>iv_name := u\<rparr>))"
proof -
  have t: "trim_space (''### wgmgr:'' @ u) = ''### wgmgr:'' @ u"
    by (rule trim_space_tight, rule tight_append_word [OF assms], simp, simp add: printable_def)
  have p: "trim_prefix (''### wgmgr:'' @ u) ''### wgmgr:'' = u" by (rule trim_prefix_append)
  have "trim_space u = u" using assms by (intro trim_space_tight word_like_tight)
  then show ?thesis unfolding import_line_def t Let_def p by simp
qed

lemma dotted_chars: "dotted s \<Longrightarrow> c \<in> set s \<Longrightarrow> is_digit c \<or> c = CHR ''.''"
  using ip_str_chars by (auto simp: dotted_def split: option.splits)

lemma dotted_word_like: "dotted s \<Longrightarrow> word_like s"
  using ip_str_word_like by (auto simp: dotted_def split: option.splits)

lemma import_lines_peer:
  assumes "plain_user p"
  shows "import_lines legacy (peer_lines p) v = and_then (import_flush legacy v) (\<lambda>_. finish (peer_vars p))"
proof -
  have w: "word_like (Username p)" "word_like (PublicKey p)" "PSK p = [] \<or> word_like (PSK p)"
    "dotted (Address p)" using assms by (auto simp: plain_user_def)
  have n: "neutral_line []" "neutral_line ''[Peer]''"
    using trim_space_tight [of "''[Peer]''"] by (simp_all add: neutral_line_def tight_def printable_def)
  have a: "word_like (Address p @ ''/32'')"
    using dotted_word_like [OF w(4)] by (simp add: word_like_def printable_def)
  have "CHR '','' \<notin> set ('' '' @ Address p @ ''/32'')"
    using dotted_chars [OF w(4), of "CHR '',''"] by (auto simp: is_digit_def)
  then have sp: "split_on CHR '','' ('' '' @ Address p @ ''/32'') = ['' '' @ Address p @ ''/32'']"
    by (rule split_on_no_sep)
  have ts: "trim_space ('' '' @ Address p @ ''/32'') = Address p @ ''/32''"
    using trim_space_leading [OF word_like_tight [OF a]] by simp
  note A = import_line_key(3) [OF a, of legacy, unfolded sp list.sel ts]
  show ?thesis
  proof (cases "PSK p = []")
    case True
    show ?thesis
      unfolding peer_lines_def
      by (simp add: True import_line_neutral [OF n(1)] import_line_neutral [OF n(2)] A [simplified]
          import_line_header [OF w(1), simplified] import_line_key(1) [OF w(2), simplified] fun_eq_iff
          and_then_def no_vars_def peer_vars_def split: prod.split sum.split)
  next
    case False
    then have k: "word_like (PSK p)" using w(3) by simp
    show ?thesis
      unfolding peer_lines_def
      by (simp add: False import_line_neutral [OF n(1)] import_line_neutral [OF n(2)] A [simplified]
          import_line_header [OF w(1), simplified] import_line_key(1) [OF w(2), simplified]
          import_line_key(2) [OF k, simplified] fun_eq_iff
          and_then_def no_vars_def peer_vars_def split: prod.split sum.split)
  qed
qed

text \<open>The flush of a rendered user inserts the user, when name, key and address are new.\<close>

lemma dotted_nonempty: "dotted s \<Longrightarrow> s \<noteq> []"
  using dotted_word_like by (auto simp: word_like_def)

lemma import_row_peer: "dotted (Address p) \<Longrightarrow> import_row Map.empty (Username p) (peer_vars p) = imported p"
proof -
  assume d: "dotted (Address p)"
  have "CHR ''/'' \<notin> set (Address p)" using dotted_chars [OF d, of "CHR ''/''"] by (auto simp: is_digit_def)
  then have "split_on CHR ''/'' (Address p @ CHR ''/'' # ''32'') = Address p # split_on CHR ''/'' ''32''"
    by (rule split_on_append)
  then show ?thesis by (simp add: import_row_def peer_vars_def imported_def default_row_def)
qed

lemma import_flush_peer:
  assumes "plain_user p" and "Username p \<notin> Username ` set (rows st)"
    and "PublicKey p \<notin> PublicKey ` set (rows st)" and "Address p \<notin> Address ` set (rows st)"
  shows "import_flush Map.empty (peer_vars p) st =
    (Inr (), st\<lparr>rows := rows st @ [(imported p)\<lparr>ID := row_seq st + 1\<rparr>], row_seq := row_seq st + 1\<rparr>)"
proof -
  have w: "Username p \<noteq> []" "PublicKey p \<noteq> []" "dotted (Address p)"
    using assms(1) by (auto simp: plain_user_def word_like_def)
  have g: "getPeer st (Username p) = None"
    using assms(2) unfolding getPeer_def find_None_iff by (metis imageI)
  have c: "conflict (rows st) (imported p) = None"
    using assms(2-4) by (simp add: conflict_None imported_def)
  show ?thesis
    unfolding import_flush_def
    using w g c import_row_peer [OF w(3)] by (simp add: peer_vars_def sql_insert_def Let_def)
qed

text \<open>The imported rows, in order.\<close>

definition import_all :: "store \<Rightarrow> peer list \<Rightarrow> store" where
  "import_all = foldl (\<lambda>st p. st\<lparr>rows := rows st @ [(imported p)\<lparr>ID := row_seq st + 1\<rparr>],
     row_seq := row_seq st + 1\<rparr>)"

lemma import_all_rows:
  "rows (import_all st ps) = rows st @
     map (\<lambda>(i, p). (imported p)\<lparr>ID := row_seq st + 1 + int i\<rparr>) (List.enumerate 0 ps) \<and>
   row_seq (import_all st ps) = row_seq st + int (length ps)"
proof (induction ps rule: rev_induct)
  case (snoc p ps)
  then show ?case by (simp add: import_all_def enumerate_append_eq add.commute)
qed (simp add: import_all_def)

lemma import_all_Cons:
  "import_all st (p # ps) = import_all (st\<lparr>rows := rows st @ [(imported p)\<lparr>ID := row_seq st + 1\<rparr>],
     row_seq := row_seq st + 1\<rparr>) ps"
  by (simp add: import_all_def)

definition fresh_users :: "store \<Rightarrow> peer list \<Rightarrow> bool" where
  "fresh_users st ps \<longleftrightarrow>
     distinct (map Username ps) \<and> distinct (map PublicKey ps) \<and> distinct (map Address ps) \<and>
     Username ` set ps \<inter> Username ` set (rows st) = {} \<and>
     PublicKey ` set ps \<inter> PublicKey ` set (rows st) = {} \<and>
     Address ` set ps \<inter> Address ` set (rows st) = {}"

lemma fresh_users_Cons:
  "fresh_users st (p # ps) \<Longrightarrow>
     Username p \<notin> Username ` set (rows st) \<and> PublicKey p \<notin> PublicKey ` set (rows st) \<and>
     Address p \<notin> Address ` set (rows st) \<and>
     fresh_users (st\<lparr>rows := rows st @ [(imported p)\<lparr>ID := row_seq st + 1\<rparr>], row_seq := row_seq st + 1\<rparr>) ps"
  by (auto simp: fresh_users_def imported_def)

text \<open>
  Reading the lines of several rendered users with one user already collected: each header stores the user
  before it, and the last one stays collected.
\<close>

lemma import_lines_peers:
  assumes "plain_user q" "list_all plain_user ps" "fresh_users st (q # ps)"
  shows "and_then (import_lines Map.empty (concat (map peer_lines ps)) (peer_vars q)) (import_flush Map.empty) st =
    (Inr (), import_all st (q # ps))"
  using assms
proof (induction ps arbitrary: q st)
  case Nil
  then show ?case
    using import_flush_peer [of q st] fresh_users_Cons [OF Nil.prems(3)]
    by (simp add: and_then_def import_all_def)
next
  case (Cons p ps)
  let ?st = "st\<lparr>rows := rows st @ [(imported q)\<lparr>ID := row_seq st + 1\<rparr>], row_seq := row_seq st + 1\<rparr>"
  have q: "import_flush Map.empty (peer_vars q) st = (Inr (), ?st)"
    using import_flush_peer [OF Cons.prems(1)] fresh_users_Cons [OF Cons.prems(3)] by simp
  have p: "plain_user p" "list_all plain_user ps" using Cons.prems(2) by simp_all
  have "fresh_users ?st (p # ps)" using fresh_users_Cons [OF Cons.prems(3)] by simp
  from Cons.IH [OF p this] show ?case
    by (simp add: import_lines_append import_lines_peer [OF p(1)] and_then_def q import_all_Cons [of st q])
qed

text \<open>The whole file: head, marker and users.\<close>

lemma lines_peer: "plain_user p \<Longrightarrow> l \<in> set (peer_lines p) \<Longrightarrow> CHR 0x0A \<notin> set l"
  using word_like_no_newline [of "Username p"] word_like_no_newline [of "PublicKey p"]
    word_like_no_newline [of "PSK p"] word_like_no_newline [of "Address p"] dotted_word_like [of "Address p"]
  by (auto simp: peer_lines_def plain_user_def split: if_splits)

lemma lines_concat:
  assumes "\<forall>l\<in>set ls. CHR 0x0A \<notin> set l"
  shows "lines (concat (map (\<lambda>l. l @ nl) ls) @ b) = ls @ lines b"
  using assms
proof (induction ls)
  case (Cons l ls)
  have "lines (l @ nl @ c) = l # lines c" for c
    using Cons.prems by (simp add: lines_append) (simp add: lines_def split_on_no_sep)
  with Cons show ?case by simp
qed simp

definition wg_users :: "store \<Rightarrow> peer list" where
  "wg_users st = filter (\<lambda>p. PublicKey p \<noteq> []) (rows st)"

lemma section_lines:
  assumes "list_all plain_user (wg_users st)"
  shows "lines (concat (map render_peer (allPeers st))) = concat (map peer_lines (wg_users st)) @ [[]]"
proof -
  have 1: "concat (map render_peer rs) = concat (map (\<lambda>l. l @ nl)
      (concat (map peer_lines (filter (\<lambda>p. PublicKey p \<noteq> []) rs))))" for rs
    by (induction rs) (simp_all add: render_peer_def)
  have 2: "\<forall>l\<in>set (concat (map peer_lines (wg_users st))). CHR 0x0A \<notin> set l"
    using assms lines_peer by (auto simp: list_all_iff)
  have "lines [] = [[]]" by (simp add: lines_def)
  then show ?thesis
    using lines_concat [OF 2, of "[]"] by (simp add: allPeers_def 1 wg_users_def)
qed

lemma neutral_marker: "neutral_line peerMarker" "neutral_line []"
proof -
  have "tight peerMarker" by (simp add: tight_def peerMarker_def printable_def)
  then show "neutral_line peerMarker" "neutral_line []"
    by (simp_all add: neutral_line_def peerMarker_def)
qed

lemma import_rendered:
  assumes head: "list_all neutral_line (lines (trim_right_char CHR 0x0A (confHead tx)))"
    and plain: "list_all plain_user (wg_users st)" and inv: "store_inv st"
  shows "import_conf Map.empty (rendered tx st) empty_store = (Inr (), import_all empty_store (wg_users st))"
proof -
  let ?h = "lines (trim_right_char CHR 0x0A (confHead tx)) @ [[], peerMarker]"
  have ls: "lines (rendered tx st) = ?h @ concat (map peer_lines (wg_users st)) @ [[]]"
    by (simp add: rendered_lines section_lines [OF plain])
  have h: "import_lines Map.empty (?h @ ls) v = import_lines Map.empty ls v" for ls v
    using head neutral_marker import_lines_neutral [of ?h Map.empty v]
    by (subst import_lines_append) (simp add: and_then_def fun_eq_iff)
  have e: "import_lines Map.empty (ls @ [[]]) v = import_lines Map.empty ls v" for ls v
    using import_line_neutral [OF neutral_marker(2)]
    by (simp add: import_lines_append and_then_def fun_eq_iff split: prod.split sum.split)
  have fresh: "fresh_users empty_store (wg_users st)"
  proof -
    have d: "distinct (map g (filter P xs))" if "distinct (map g xs)" for g :: "peer \<Rightarrow> string" and P xs
      using that by (rule distinct_map_filter')
    have n: "distinct (map g xs)" if "nonempty_distinct (map g xs)" "\<forall>x\<in>set xs. g x \<noteq> []"
      for g :: "peer \<Rightarrow> string" and xs
    proof -
      have "filter (\<lambda>x. x \<noteq> []) (map g xs) = map g xs" using that(2) by (simp add: filter_id_conv)
      with that(1) show ?thesis by (simp add: nonempty_distinct_def)
    qed
    have ne: "\<forall>p\<in>set (wg_users st). PublicKey p \<noteq> [] \<and> Address p \<noteq> []"
      using plain by (auto simp: list_all_iff plain_user_def word_like_def dest: dotted_nonempty)
    have "distinct (map Username (wg_users st))" "nonempty_distinct (map PublicKey (wg_users st))"
      "nonempty_distinct (map Address (wg_users st))"
      using inv unfolding wg_users_def store_inv_def by (simp_all add: d nonempty_distinct_filter)
    then show ?thesis
      using n [of PublicKey "wg_users st"] n [of Address "wg_users st"] ne
      by (simp add: fresh_users_def empty_store_def)
  qed
  show ?thesis
  proof (cases "wg_users st")
    case Nil
    then show ?thesis
      unfolding import_conf_def ls h e by (simp add: and_then_def import_flush_def no_vars_def import_all_def)
  next
    case (Cons p ps)
    have p: "plain_user p" "list_all plain_user ps" using plain Cons by simp_all
    have f0: "import_flush Map.empty no_vars s = (Inr (), s)" for s
      by (simp add: import_flush_def no_vars_def)
    show ?thesis
      using import_lines_peers [OF p, of empty_store] fresh
      unfolding import_conf_def ls h e Cons
      by (simp add: import_lines_append import_lines_peer [OF p(1)] and_then_def f0)
  qed
qed

section \<open>Properties\<close>

text \<open>
  C21. Importing what was rendered gives the WireGuard users back: from an empty table, \<^verbatim>\<open>wgmgr import\<close> of a
  rendered \<^verbatim>\<open>wg0.conf\<close> succeeds and the table then holds, in order, each user's name, public key, preshared key
  and address.
\<close>

theorem import_of_rendered:
  assumes "list_all neutral_line (lines (trim_right_char CHR 0x0A (confHead tx)))"
    and "list_all plain_user (wg_users st)" and "store_inv st"
  shows "\<exists>st'. import_conf Map.empty (trim_right_char CHR 0x0A (confHead tx) @ renderPeerSection st) empty_store =
      (Inr (), st') \<and> store_inv st' \<and>
    map (\<lambda>p. (Username p, PublicKey p, PSK p, Address p)) (rows st') =
    map (\<lambda>p. (Username p, PublicKey p, PSK p, Address p)) (wg_users st)"
proof -
  let ?st' = "import_all empty_store (wg_users st)"
  have r: "import_conf Map.empty (rendered tx st) empty_store = (Inr (), ?st')"
    by (rule import_rendered [OF assms])
  have "store_inv ?st'"
  proof -
    have "\<exists>v s. import_lines Map.empty (lines (rendered tx st)) no_vars empty_store = (Inr v, s) \<and>
      import_flush Map.empty v s = (Inr (), ?st')"
      using r unfolding import_conf_def and_then_Inr_iff .
    then show ?thesis
      using import_lines_inv [OF store_inv_empty] import_flush_inv by blast
  qed
  moreover have "map (\<lambda>p. (Username p, PublicKey p, PSK p, Address p)) (rows ?st') =
    map (\<lambda>p. (Username p, PublicKey p, PSK p, Address p)) (wg_users st)"
  proof -
    have "map (\<lambda>(i, p). g p) (List.enumerate 0 ps) = map g ps" for g :: "peer \<Rightarrow> string \<times> string \<times> string \<times> string" and ps
      by (induction ps rule: rev_induct) (simp_all add: enumerate_append_eq)
    then show ?thesis
      using import_all_rows [of empty_store "wg_users st"]
      by (simp add: empty_store_def comp_def imported_def case_prod_unfold)
  qed
  ultimately show ?thesis using r by (auto simp: rendered_def)
qed

lemma plain_sample: "list_all plain_user (wg_users sample_store)"
proof -
  have "\<forall>p\<in>{ann, bob}. dotted (Address p)"
    using sample_dotted by (auto simp: sample_store_def claims_def ann_def bob_def default_row_def)
  then show ?thesis
    by (simp add: wg_users_def sample_store_def plain_user_def word_like_def printable_def)
      (simp add: ann_def bob_def default_row_def printable_def)
qed

lemma import_of_rendered_witness:
  "\<exists>st'. import_conf Map.empty (trim_right_char CHR 0x0A (confHead demo_conf) @ renderPeerSection sample_store)
       empty_store = (Inr (), st') \<and> map Username (rows st') = [''ann'', ''bob'']"
proof -
  have l: "lines (trim_right_char CHR 0x0A (confHead demo_conf)) = [demo_conf]"
  proof -
    have "CHR 0x0A \<notin> set demo_conf" using lines_no_newline [of demo_conf demo_conf] by (simp add: demo_head)
    then show ?thesis using demo_head trim_right_char_id [of demo_conf "CHR 0x0A"] by (metis last_in_set)
  qed
  have "neutral_line demo_conf"
    unfolding neutral_line_def demo_conf_def trim_space_tight [OF cidr_str_tight(2)] by simp
  then have "list_all neutral_line (lines (trim_right_char CHR 0x0A (confHead demo_conf)))" by (simp add: l)
  from import_of_rendered [OF this plain_sample sample_store_inv] obtain st' where
    s: "import_conf Map.empty (trim_right_char CHR 0x0A (confHead demo_conf) @ renderPeerSection sample_store)
       empty_store = (Inr (), st')" and
    m: "map (\<lambda>p. (Username p, PublicKey p, PSK p, Address p)) (rows st') =
      map (\<lambda>p. (Username p, PublicKey p, PSK p, Address p)) (wg_users sample_store)" by blast
  have "map Username (rows st') = map Username (wg_users sample_store)"
    using arg_cong [OF m, of "map fst"] by (simp add: comp_def)
  also have "\<dots> = [''ann'', ''bob'']"
    by (simp add: wg_users_def sample_store_def ann_def bob_def default_row_def)
  finally have "map Username (rows st') = [''ann'', ''bob'']" .
  with s show ?thesis by (intro exI [of _ st'] conjI)
qed

section \<open>Creating a user\<close>

lemma genKeys_files: "genKeys os w = (r, w') \<Longrightarrow> files w' = files w"
  by (auto simp: genKeys_def and_then_def exec_in_def Let_def split: prod.splits sum.splits option.splits
      dest!: mustRun_frame)

lemma create_wg_steps:
  fixes w :: "'k world"
  assumes "create_wg os cfg u quota expires w = (res, w')"
  shows "(db w' = db w \<and> (\<exists>e. res = Inl e)) \<or>
    (\<exists>keys ip (w1 :: 'k world) st. nextFreeIP (WGConf cfg) w1 = (Inr ip, w1) \<and> db w1 = db w \<and> files w1 = files w \<and>
       sql_insert (new_wg_row u keys ip quota expires) (db w) = Inr st \<and> db w' = st)"
proof -
  obtain r1 w1 where g: "genKeys os w = (r1, w1)" by fastforce
  have d1: "db w1 = db w" using keeps_dbD [OF keeps_db_genKeys g] .
  have f1: "files w1 = files w"
    using g by (rule genKeys_files)
  show ?thesis
  proof (cases r1)
    case (Inl e)
    then show ?thesis using assms g d1 by (auto simp: create_wg_def and_then_def)
  next
    case (Inr keys)
    obtain r2 w2 where n: "nextFreeIP (WGConf cfg) w1 = (r2, w2)" by fastforce
    have w2: "w2 = w1"
      using n by (auto simp: nextFreeIP_def and_then_def split: prod.splits sum.splits option.splits
        dest: interfaceHead_world)
    show ?thesis
    proof (cases r2)
      case (Inl e)
      then show ?thesis using assms g n d1 w2 \<open>r1 = Inr keys\<close> by (auto simp: create_wg_def and_then_def)
    next
      case (Inr ip)
      show ?thesis
      proof (cases "sql_insert (new_wg_row u keys ip quota expires) (db w)")
        case (Inl e)
        then show ?thesis
          using assms g n d1 w2 \<open>r1 = Inr keys\<close> \<open>r2 = Inr ip\<close>
          by (auto simp: create_wg_def and_then_def insert_peer_def)
      next
        case (Inr st)
        have "renderConf os cfg False (w1\<lparr>db := st\<rparr>) = (res, w')"
          using assms g n d1 w2 \<open>r1 = Inr keys\<close> \<open>r2 = Inr ip\<close> Inr
          by (auto simp: create_wg_def and_then_def insert_peer_def)
        then have "db w' = st" using keeps_dbD [OF keeps_db_renderConf] by fastforce
        moreover have "nextFreeIP (WGConf cfg) w1 = (Inr ip, w1)" using n w2 \<open>r2 = Inr ip\<close> by simp
        ultimately show ?thesis
          using d1 f1 Inr by (intro disjI2 exI [of _ keys] exI [of _ ip] exI [of _ w1] exI [of _ st] conjI)
      qed
    qed
  qed
qed

lemma nextFreeIP_ok:
  assumes "nextFreeIP path w = (Inr ip, w')"
  obtains tx server n where "file_text w path = Some tx" "head_address tx = Some (server, n)"
    "nextFreeHost n (wg_used (db w) server) = Some ip"
  using assms
  by (auto simp: nextFreeIP_def and_then_def interfaceHead_def split: prod.splits sum.splits option.splits)

lemma create_wg_row:
  assumes "store_inv (db w)" and "create_wg os cfg u quota expires w = (res, w')"
  shows "store_inv (db w')" and "db w' \<noteq> db w \<Longrightarrow> \<exists>p. rows (db w') = rows (db w) @ [p] \<and> Username p = u"
proof -
  show "store_inv (db w')"
    using create_wg_steps [OF assms(2)] assms(1) sql_insert_inv [OF assms(1)] by auto
  assume "db w' \<noteq> db w"
  then obtain keys ip where "sql_insert (new_wg_row u keys ip quota expires) (db w) = Inr (db w')"
    using create_wg_steps [OF assms(2)] by auto
  moreover have "Username (new_wg_row u keys ip quota expires) = u" by (simp add: new_wg_row_def split: prod.split)
  ultimately show "\<exists>p. rows (db w') = rows (db w) @ [p] \<and> Username p = u"
    using peers.insert_then_lookup [OF assms(1)] by (fastforce simp: allPeers_def)
qed

text \<open>
  C14. Creating a WireGuard user either leaves the table as it was, with an error, or adds exactly one row: the
  requested name with an address of the server's subnet that is allocatable, is not the server's, belongs to
  no other user, and is the lowest such address.
\<close>

theorem create_wg_address:
  fixes w :: "'k world"
  assumes "store_inv (db w)" and "create_wg os cfg u quota expires w = (res, w')"
  shows "store_inv (db w') \<and>
    (db w' = db w \<and> (\<exists>e. res = Inl e) \<or>
     (\<exists>p tx server n x. rows (db w') = rows (db w) @ [p] \<and> Username p = u \<and> QuotaBytes p = quota \<and>
       file_text w (WGConf cfg) = Some tx \<and> head_address tx = Some (server, n) \<and>
       Address p = ip_str x \<and> hostAllocatable x n \<and> x \<noteq> server \<and>
       ip_str x \<notin> Address ` set (rows (db w)) \<and>
       (\<forall>y. hostAllocatable y n \<longrightarrow> ip_nat y < ip_nat x \<longrightarrow>
          y = server \<or> ip_str y \<in> Address ` set (rows (db w)))))"
  using create_wg_steps [OF assms(2)]
proof (elim disjE exE)
  assume "db w' = db w \<and> (\<exists>e. res = Inl e)"
  then show ?thesis using assms(1) by simp
next
  fix keys ip and w1 :: "'k world" and st
  assume a: "nextFreeIP (WGConf cfg) w1 = (Inr ip, w1) \<and> db w1 = db w \<and> files w1 = files w \<and>
    sql_insert (new_wg_row u keys ip quota expires) (db w) = Inr st \<and> db w' = st"
  then have n: "nextFreeIP (WGConf cfg) w1 = (Inr ip, w1)" and d1: "db w1 = db w" and f1: "files w1 = files w"
    and ins: "sql_insert (new_wg_row u keys ip quota expires) (db w) = Inr st" and db': "db w' = st" by simp_all
  obtain tx server n where t: "file_text w1 (WGConf cfg) = Some tx" "head_address tx = Some (server, n)"
    "nextFreeHost n (wg_used (db w1) server) = Some ip" using nextFreeIP_ok [OF n] .
  obtain k where k: "mask_ones (net_mask n) = Some k"
    using t(3) by (auto simp: nextFreeHost_def split: option.splits)
  obtain x where x: "ip = ip_str x" "hostAllocatable x n" "\<not> wg_used (db w) server ip"
    "\<forall>y. hostAllocatable y n \<longrightarrow> ip_nat y < ip_nat x \<longrightarrow> wg_used (db w) server (ip_str y)"
    using t(3) unfolding nextFreeHost_lowest_iff [OF k] d1 by blast
  have u: "wg_used (db w) server (ip_str y) \<longleftrightarrow> y = server \<or> ip_str y \<in> Address ` set (rows (db w))" for y
    unfolding wg_used_def allPeers_def list_ex_iff ip_str_inj by (metis imageE imageI)
  obtain p where p: "rows st = rows (db w) @ [p]" "Username p = u" "Address p = ip" "QuotaBytes p = quota"
    using ins by (auto simp: sql_insert_def new_wg_row_def split: option.splits prod.splits)
  have "file_text w (WGConf cfg) = Some tx" using t(1) f1 by (simp add: file_text_def)
  then have "\<exists>p tx server n x. rows (db w') = rows (db w) @ [p] \<and> Username p = u \<and> QuotaBytes p = quota \<and>
       file_text w (WGConf cfg) = Some tx \<and> head_address tx = Some (server, n) \<and>
       Address p = ip_str x \<and> hostAllocatable x n \<and> x \<noteq> server \<and>
       ip_str x \<notin> Address ` set (rows (db w)) \<and>
       (\<forall>y. hostAllocatable y n \<longrightarrow> ip_nat y < ip_nat x \<longrightarrow>
          y = server \<or> ip_str y \<in> Address ` set (rows (db w)))"
    using t(2) x u p db' by (intro exI [of _ p] exI [of _ tx] exI [of _ server] exI [of _ n] exI [of _ x]) auto
  moreover have "store_inv st" using sql_insert_inv [OF assms(1) ins] .
  ultimately show ?thesis using db' by blast
qed

lemma create_wg_address_witness:
  "store_inv (db (snd (create_wg demo_os sample_config ''eve'' 5 [] (demo_world sample_store))))"
  using create_wg_address [of "demo_world sample_store" demo_os sample_config "''eve''" 5 "[]"
      "fst (create_wg demo_os sample_config ''eve'' 5 [] (demo_world sample_store))"
      "snd (create_wg demo_os sample_config ''eve'' 5 [] (demo_world sample_store))"]
  by (simp add: demo_world_def)

text \<open>
  Creation is not all or nothing on this path: whatever makes the rendering fail after the row is inserted,
  the user stays in the table although the caller is told of a failure, and a second attempt is refused by the
  unique name.  (The OpenVPN-only path deletes the row again.)
\<close>

theorem create_wg_failure_keeps_row:
  assumes "store_inv (db w)" and "create_wg os cfg u quota expires w = (Inl e, w')" and "db w' \<noteq> db w"
  shows "\<exists>p. getPeer (db w') u = Some p \<and> rows (db w') = rows (db w) @ [p] \<and>
    (\<forall>q st. Username q = u \<longrightarrow> sql_insert q (db w') \<noteq> Inr st)"
proof -
  have inv: "store_inv (db w')" and "\<exists>p. rows (db w') = rows (db w) @ [p] \<and> Username p = u"
    using create_wg_row [OF assms(1,2)] assms(3) by blast+
  then obtain p where p: "rows (db w') = rows (db w) @ [p]" "Username p = u" by blast
  have "getPeer (db w') (Username p) = Some p" by (rule getPeer_member [OF inv]) (simp add: p)
  moreover have "sql_insert q (db w') \<noteq> Inr st" if "Username q = u" for q st
  proof -
    have "Username q \<in> Username ` set (rows (db w'))" using that p by simp
    then have "conflict (rows (db w')) q \<noteq> None" by (simp add: conflict_None)
    then show ?thesis by (auto simp: sql_insert_def split: option.splits)
  qed
  ultimately show ?thesis using p by blast
qed

lemma demo_alloc: "\<exists>ip. nextFreeHost (mk_net (IP4 10 66 66 1) 24) (wg_used empty_store (IP4 10 66 66 1)) = Some ip"
proof (rule host_pool.alloc_succeeds)
  have "mask_ones (net_mask (mk_net (IP4 10 66 66 1) 24)) \<noteq> None"
    "hostAllocatable (IP4 10 66 66 2) (mk_net (IP4 10 66 66 1) 24)" by code_simp+
  then show "pool_usable (mk_net (IP4 10 66 66 1) 24) (ip_str (IP4 10 66 66 2))"
    unfolding pool_usable_def by blast
  show "\<not> wg_used empty_store (IP4 10 66 66 1) (ip_str (IP4 10 66 66 2))"
    by (simp add: wg_used_def allPeers_def empty_store_def del: ip_str.simps)
qed

text \<open>On the demonstration host a creation inserts the row and then refuses to drop the foreign peer.\<close>

lemma demo_create:
  "\<exists>e st. create_wg demo_os sample_config ''eve'' quota expires (demo_world empty_store) =
       (Inl e, (demo_world empty_store)\<lparr>db := st\<rparr>) \<and> st \<noteq> empty_store"
proof -
  let ?w = "demo_world empty_store"
  obtain ip where ip: "nextFreeHost (mk_net (IP4 10 66 66 1) 24) (wg_used empty_store (IP4 10 66 66 1)) = Some ip"
    using demo_alloc by blast
  have t: "trim_space ''PRIV'' = ''PRIV''" "trim_space ''PUB'' = ''PUB''" "trim_space ''SHARED'' = ''SHARED''"
    by (simp_all add: tight_def printable_def)
  have k: "genKeys demo_os ?w = (Inr (''PRIV'', ''PUB'', ''SHARED''), ?w)"
    by (simp add: genKeys_def mustRun_def run_def exec_in_def demo_os_def demo_exec_def and_then_def Let_def
        demo_world_def t)
  have c: "WGConf sample_config = ''/etc/wireguard/wg0.conf''" by (simp add: sample_config_def)
  have h: "interfaceHead (WGConf sample_config) ?w =
    (Inr (demo_conf, mk_net (IP4 10 66 66 1) 24, IP4 10 66 66 1), ?w)"
    by (simp add: interfaceHead_def file_text_def demo_world_def demo_head c)
  have n: "nextFreeIP (WGConf sample_config) ?w = (Inr ip, ?w)"
    by (simp add: nextFreeIP_def and_then_def h) (simp add: demo_world_def ip)
  let ?row = "new_wg_row ''eve'' (''PRIV'', ''PUB'', ''SHARED'') ip quota expires"
  let ?st = "\<lparr>rows = [?row\<lparr>ID := 1\<rparr>], row_seq = 1\<rparr>"
  have i: "insert_peer ?row ?w = (Inr (), ?w\<lparr>db := ?st\<rparr>)"
  proof -
    have "conflict [] ?row = None" by (simp add: conflict_def)
    then show ?thesis by (simp add: insert_peer_def demo_world_def sql_insert_def empty_store_def)
  qed
  have l: "livePeers demo_os (Interface sample_config) (?w\<lparr>db := ?st\<rparr>) = ([''KA''], ?w\<lparr>db := ?st\<rparr>)"
    by (simp add: livePeers_def run_def exec_in_def demo_os_def demo_exec_def demo_world_def
        str_fields_word word_like_def printable_def)
  have "\<exists>e. renderConf demo_os sample_config False (?w\<lparr>db := ?st\<rparr>) = (Inl e, ?w\<lparr>db := ?st\<rparr>)"
  proof -
    have "unknown_live ?st [''KA''] = Some ''KA''"
      by (simp add: unknown_live_def allPeers_def new_wg_row_def)
    then show ?thesis by (simp add: renderConf_def l c)
  qed
  then obtain e where "create_wg demo_os sample_config ''eve'' quota expires ?w = (Inl e, ?w\<lparr>db := ?st\<rparr>)"
    by (auto simp: create_wg_def and_then_def k n i)
  moreover have "?st \<noteq> empty_store" by (simp add: empty_store_def)
  ultimately show ?thesis by blast
qed

lemma create_wg_failure_keeps_row_witness:
  "\<exists>e w' p. create_wg demo_os sample_config ''eve'' 5 [] (demo_world empty_store) = (Inl e, w') \<and>
     getPeer (db w') ''eve'' = Some p"
proof -
  let ?w = "demo_world empty_store"
  obtain e st where c: "create_wg demo_os sample_config ''eve'' 5 [] ?w = (Inl e, ?w\<lparr>db := st\<rparr>)" "st \<noteq> empty_store"
    using demo_create by blast
  moreover have "store_inv (db ?w)" "db (?w\<lparr>db := st\<rparr>) \<noteq> db ?w" using c(2) by (simp_all add: demo_world_def)
  ultimately show ?thesis using create_wg_failure_keeps_row [of ?w] by blast
qed

end
