(* ===== verification/ServerIp.thy ===== *)
theory ServerIp
  imports WgConf
begin

text \<open>
  serverip.go: the server's best-known public address.  The parameters file comes first, then an OpenVPN
  endpoint that is an address, then the interfaces.  The interfaces' IPv4 addresses (\<^verbatim>\<open>net.InterfaceAddrs\<close>) and
  whether a text is an IPv6 address (\<^verbatim>\<open>net.ParseIP\<close>) are arguments.
\<close>

definition pub_ip_line :: "string \<Rightarrow> string option" where
  "pub_ip_line l =
     (let line = trim_space l in
      if has_prefix line ''SERVER_PUB_IP'' then
        (case cut_at CHR ''='' line of
           None \<Rightarrow> None
         | Some (_, v) \<Rightarrow> if trim_space v = [] then None else Some (trim_space v))
      else None)"

fun first_some :: "('a \<Rightarrow> 'b option) \<Rightarrow> 'a list \<Rightarrow> 'b option" where
  "first_some f [] = None"
| "first_some f (x # xs) = (case f x of None \<Rightarrow> first_some f xs | Some y \<Rightarrow> Some y)"

text \<open>Not loopback, not link-local and not private.\<close>

fun public_ip4 :: "ip4 \<Rightarrow> bool" where
  "public_ip4 (IP4 a b c d) \<longleftrightarrow>
     \<not> (a = 127 \<or> (a = 169 \<and> b = 254) \<or> a = 10 \<or> (a = 172 \<and> drop_bit 4 b = 1) \<or> (a = 192 \<and> b = 168))"

definition serverPublicIP :: "(string \<Rightarrow> bool) \<Rightarrow> ip4 list \<Rightarrow> config \<Rightarrow> 'k world \<Rightarrow> string" where
  "serverPublicIP is_ip6 addrs cfg w =
     (case (if Params cfg = [] then None
            else case file_text w (Params cfg) of
              None \<Rightarrow> None
            | Some t \<Rightarrow> first_some pub_ip_line (lines t)) of
        Some v \<Rightarrow> v
      | None \<Rightarrow>
          if parse_ip4 (OvpnEndpoint cfg) \<noteq> None \<or> is_ip6 (OvpnEndpoint cfg) then OvpnEndpoint cfg
          else (case find public_ip4 addrs of None \<Rightarrow> [] | Some a \<Rightarrow> ip_str a))"

end
