(* ===== verification/Certs.thy ===== *)
theory Certs
  imports WgConf ServerIp
begin

text \<open>
  Keys and certificates (ovpn_pki.go, and \<^verbatim>\<open>ensureCert\<close> of api.go): the OpenVPN authority, what it issues,
  and the panel's own certificate.

  The crypto library is the parameter \<open>pki\<close>: drawing a key, signing a template, and the DER codecs.  A private
  key and a parsed certificate are opaque texts; \<open>sign\<close> gets the template, the issuing certificate (none when
  the template is its own issuer), the key the certificate is for and the key that signs.  What the code asks
  for, the template, is modelled field by field, and so is the PEM text it writes; \<^verbatim>\<open>pem.Decode\<close> is a
  parameter.  File modes are not modelled.
\<close>

section \<open>PEM\<close>

definition b64_digit :: "nat \<Rightarrow> char" where
  "b64_digit n = ''ABCDEFGHIJKLMNOPQRSTUVWXYZabcdefghijklmnopqrstuvwxyz0123456789+/'' ! (n mod 64)"

fun base64 :: "string \<Rightarrow> string" where
  "base64 [] = []"
| "base64 [a] = (let n = of_char a * 16 in [b64_digit (n div 64), b64_digit n, CHR ''='', CHR ''=''])"
| "base64 [a, b] =
     (let n = (of_char a * 256 + of_char b) * 4
      in [b64_digit (n div 4096), b64_digit (n div 64), b64_digit n, CHR ''=''])"
| "base64 (a # b # c # s) =
     (let n = (of_char a * 256 + of_char b) * 256 + of_char c
      in b64_digit (n div 262144) # b64_digit (n div 4096) # b64_digit (n div 64) # b64_digit n # base64 s)"

definition unlines :: "string list \<Rightarrow> string" where
  "unlines ls = concat (map (\<lambda>l. l @ nl) ls)"

function chunks :: "nat \<Rightarrow> string \<Rightarrow> string list" where
  "chunks n s = (if s = [] \<or> n = 0 then [] else take n s # chunks n (drop n s))"
  by pat_completeness auto
termination by (relation "measure (\<lambda>(n, s). length s)") auto

declare chunks.simps [simp del]

text \<open>\<^verbatim>\<open>pem.EncodeToMemory\<close> of a block without headers.\<close>

definition pemBlock :: "string \<Rightarrow> string \<Rightarrow> string" where
  "pemBlock typ der =
     ''-----BEGIN '' @ typ @ ''-----'' @ nl @ unlines (chunks 64 (base64 der)) @
     ''-----END '' @ typ @ ''-----'' @ nl"

section \<open>What the code asks the library for\<close>

datatype key_usage = DigitalSignature | KeyEncipherment | CertSign | CRLSign

datatype ext_key_usage = ServerAuth | ClientAuth

record cert_template =
  SerialNumber :: nat
  CommonName :: string
  NotBefore :: int
  NotAfter :: int
  KeyUsage :: "key_usage list"
  ExtKeyUsage :: "ext_key_usage list"
  IsCA :: bool
  BasicConstraintsValid :: bool
  IPAddresses :: "string list"

record 'k pki =
  gen_ec :: "'k \<Rightarrow> (string + string) \<times> 'k"
  gen_rsa :: "'k \<Rightarrow> (string + string) \<times> 'k"
  marshal_ec :: "string \<Rightarrow> string + string"
  marshal_rsa :: "string \<Rightarrow> string"
  parse_cert :: "string \<Rightarrow> string + string"
  parse_ec :: "string \<Rightarrow> string + string"
  pem_decode :: "string \<Rightarrow> string option"
  sign :: "cert_template \<Rightarrow> string option \<Rightarrow> string \<Rightarrow> string \<Rightarrow> 'k \<Rightarrow> (string + string) \<times> 'k"

text \<open>A call of the library; its error makes the program die.\<close>

definition call_lib :: "string \<Rightarrow> ('k \<Rightarrow> (string + 'a) \<times> 'k) \<Rightarrow> ('k world, 'a) prog" where
  "call_lib msg f w =
     (case f (kern w) of
        (Inl e, k) \<Rightarrow> (Inl (msg @ e), w\<lparr>kern := k\<rparr>)
      | (Inr x, k) \<Rightarrow> (Inr x, w\<lparr>kern := k\<rparr>))"

definition ovpnGenKey :: "'k pki \<Rightarrow> ('k world, string) prog" where
  "ovpnGenKey pki = call_lib ''ovpn: gen key: '' (gen_ec pki)"

definition keyPEM :: "'k pki \<Rightarrow> string \<Rightarrow> string + string" where
  "keyPEM pki key =
     (case marshal_ec pki key of
        Inl e \<Rightarrow> Inl (''ovpn: marshal key: '' @ e)
      | Inr der \<Rightarrow> Inr (pemBlock ''EC PRIVATE KEY'' der))"

text \<open>Sixteen random bytes as a number; \<open>random_hex\<close> gives them in hexadecimal.\<close>

definition hex_digit_val :: "char \<Rightarrow> nat" where
  "hex_digit_val c = (if is_digit c then digit_val c else of_char c - 87)"

definition randSerial :: "'k os \<Rightarrow> ('k world, nat) prog" where
  "randSerial os w =
     (case random_hex os 16 (kern w) of
        (h, k) \<Rightarrow> (Inr (foldl (\<lambda>n c. n * 16 + hex_digit_val c) 0 h), w\<lparr>kern := k\<rparr>))"

section \<open>Files\<close>

definition fileExists :: "string \<Rightarrow> 'k world \<Rightarrow> bool" where
  "fileExists path w \<longleftrightarrow> files w path \<noteq> None"

definition readFileStr :: "string \<Rightarrow> ('k world, string) prog" where
  "readFileStr path w =
     (case file_text w path of
        None \<Rightarrow> (Inl (''ovpn: read '' @ path @ '': open '' @ path @ '': no such file or directory''), w)
      | Some t \<Rightarrow> (Inr t, w))"

definition writeFileMode :: "'k os \<Rightarrow> string \<Rightarrow> string \<Rightarrow> ('k world, unit) prog" where
  "writeFileMode os path text = or_die (''ovpn: write '' @ path @ '': '') (write_file os path text)"

text \<open>\<^verbatim>\<open>loadCert\<close> and \<^verbatim>\<open>loadKey\<close> differ in the parser and its name in the message.\<close>

definition load_pem :: "'k pki \<Rightarrow> string \<Rightarrow> (string \<Rightarrow> string + string) \<Rightarrow> string \<Rightarrow> ('k world, string) prog" where
  "load_pem pki what parse path =
     and_then (readFileStr path)
       (\<lambda>t. case pem_decode pki t of
              None \<Rightarrow> die (''ovpn: no PEM in '' @ path)
            | Some der \<Rightarrow>
                (case parse der of
                   Inl e \<Rightarrow> die (''ovpn: parse '' @ what @ '' '' @ path @ '': '' @ e)
                 | Inr x \<Rightarrow> finish x))"

definition loadCert :: "'k pki \<Rightarrow> string \<Rightarrow> ('k world, string) prog" where
  "loadCert pki = load_pem pki ''cert'' (parse_cert pki)"

definition loadKey :: "'k pki \<Rightarrow> string \<Rightarrow> ('k world, string) prog" where
  "loadKey pki = load_pem pki ''key'' (parse_ec pki)"

section \<open>Issuing\<close>

definition hour :: int where "hour = 3600 * second"

definition ca_template :: "nat \<Rightarrow> int \<Rightarrow> cert_template" where
  "ca_template n t = \<lparr>SerialNumber = n, CommonName = ''wgmgr-ovpn-ca'', NotBefore = t - hour,
     NotAfter = add_years t 20, KeyUsage = [CertSign, CRLSign], ExtKeyUsage = [], IsCA = True,
     BasicConstraintsValid = True, IPAddresses = []\<rparr>"

text \<open>The authority: the stored one, or a new one whose two files are written first.\<close>

definition ovpnEnsureCA :: "'k os \<Rightarrow> 'k pki \<Rightarrow> string \<Rightarrow> ('k world, string \<times> string) prog" where
  "ovpnEnsureCA os pki dir w =
     (let crtPath = path_join dir ''ca.crt''; keyPath = path_join dir ''ca.key'' in
      if fileExists crtPath w \<and> fileExists keyPath w then
        and_then (loadCert pki crtPath) (\<lambda>c. and_then (loadKey pki keyPath) (\<lambda>k. finish (c, k))) w
      else
        and_then (ovpnGenKey pki) (\<lambda>key.
        and_then (randSerial os) (\<lambda>n.
        and_then (call_lib ''ovpn: create CA: '' (sign pki (ca_template n (now w)) None key key)) (\<lambda>der.
        and_then (lift_sum (keyPEM pki key)) (\<lambda>kp.
        and_then (writeFileMode os keyPath kp) (\<lambda>_.
        and_then (writeFileMode os crtPath (pemBlock ''CERTIFICATE'' der)) (\<lambda>_.
        and_then (loadCert pki crtPath) (\<lambda>c. finish (c, key)))))))) w)"

definition leaf_template :: "nat \<Rightarrow> string \<Rightarrow> bool \<Rightarrow> int \<Rightarrow> cert_template" where
  "leaf_template n cn server t = \<lparr>SerialNumber = n, CommonName = cn, NotBefore = t - hour,
     NotAfter = add_years t 10, KeyUsage = [DigitalSignature],
     ExtKeyUsage = [if server then ServerAuth else ClientAuth], IsCA = False,
     BasicConstraintsValid = False, IPAddresses = []\<rparr>"

definition ovpnIssueCert ::
  "'k os \<Rightarrow> 'k pki \<Rightarrow> string \<times> string \<Rightarrow> string \<Rightarrow> bool \<Rightarrow> ('k world, string \<times> string) prog" where
  "ovpnIssueCert os pki ca cn server w =
     and_then (ovpnGenKey pki) (\<lambda>key.
     and_then (randSerial os) (\<lambda>n.
     and_then (call_lib (''ovpn: sign cert '' @ cn @ '': '')
       (sign pki (leaf_template n cn server (now w)) (Some (fst ca)) key (snd ca))) (\<lambda>der.
     and_then (lift_sum (keyPEM pki key)) (\<lambda>kp.
     finish (pemBlock ''CERTIFICATE'' der, kp))))) w"

section \<open>The panel's certificate\<close>

definition serverPublicIPParsed :: "(string \<Rightarrow> bool) \<Rightarrow> ip4 list \<Rightarrow> config \<Rightarrow> 'k world \<Rightarrow> string option" where
  "serverPublicIPParsed is_ip6 addrs cfg w =
     (let s = serverPublicIP is_ip6 addrs cfg w in if parse_ip4 s \<noteq> None \<or> is_ip6 s then Some s else None)"

definition tls_template :: "string option \<Rightarrow> int \<Rightarrow> cert_template" where
  "tls_template ip t = \<lparr>SerialNumber = nat (t div second), CommonName = ''wgmgr'', NotBefore = t - hour,
     NotAfter = add_years t 10, KeyUsage = [DigitalSignature, KeyEncipherment], ExtKeyUsage = [ServerAuth],
     IsCA = False, BasicConstraintsValid = True,
     IPAddresses = (case ip of None \<Rightarrow> [] | Some a \<Rightarrow> [a])\<rparr>"

definition ensureCert :: "'k os \<Rightarrow> 'k pki \<Rightarrow> (string \<Rightarrow> bool) \<Rightarrow> ip4 list \<Rightarrow> config \<Rightarrow> ('k world, unit) prog" where
  "ensureCert os pki is_ip6 addrs cfg w =
     (if fileExists (TLSCert cfg) w \<and> fileExists (TLSKey cfg) w then (Inr (), w)
      else
        and_then (call_lib ''gen tls key: '' (gen_rsa pki)) (\<lambda>key.
        and_then (call_lib ''create cert: ''
          (sign pki (tls_template (serverPublicIPParsed is_ip6 addrs cfg w) (now w)) None key key)) (\<lambda>der.
        and_then (or_die ''write cert: '' (write_file os (TLSCert cfg) (pemBlock ''CERTIFICATE'' der))) (\<lambda>_.
        or_die ''write key: ''
          (write_file os (TLSKey cfg) (pemBlock ''RSA PRIVATE KEY'' (marshal_rsa pki key)))))) w)"

section \<open>Lemmas\<close>

lemma call_lib_frame:
  "call_lib msg f w = (r, w') \<Longrightarrow> \<exists>k. w' = w\<lparr>kern := k\<rparr>"
  by (auto simp: call_lib_def split: prod.splits sum.splits)

lemma call_lib_Inr:
  "call_lib msg f w = (Inr x, w') \<Longrightarrow> f (kern w) = (Inr x, kern w') \<and> w' = w\<lparr>kern := kern w'\<rparr>"
  by (auto simp: call_lib_def split: prod.splits sum.splits)

lemma keeps_db_certs [keeps_db_rules]:
  "keeps_db (call_lib msg f)" "keeps_db (ovpnGenKey pki)" "keeps_db (randSerial os)"
  "keeps_db (readFileStr path)" "keeps_db (load_pem pki what parse path)" "keeps_db (loadCert pki path)"
  "keeps_db (loadKey pki path)" "keeps_db (writeFileMode os path t)"
proof -
  show "keeps_db (call_lib msg f)"
    by (rule keeps_dbI) (simp add: call_lib_def split: prod.split sum.split)
  show "keeps_db (ovpnGenKey pki)" unfolding ovpnGenKey_def
    by (rule keeps_dbI) (simp add: call_lib_def split: prod.split sum.split)
  show "keeps_db (randSerial os)"
    by (rule keeps_dbI) (simp add: randSerial_def split: prod.split)
  have r: "keeps_db (readFileStr path)" for path
    by (rule keeps_dbI) (simp add: readFileStr_def split: option.split)
  then show "keeps_db (readFileStr path)" .
  have l: "keeps_db (load_pem pki what parse path)" for pki :: "'z pki" and what parse path
    unfolding load_pem_def
    by (intro keeps_db_and_then r) (auto simp: keeps_db_basic split: option.split sum.split)
  then show "keeps_db (load_pem pki what parse path)" .
  show "keeps_db (loadCert pki path)" "keeps_db (loadKey pki path)"
    unfolding loadCert_def loadKey_def by (rule l)+
  show "keeps_db (writeFileMode os path t)" unfolding writeFileMode_def
    by (rule keeps_db_or_die) simp
qed

lemma keeps_db_issuing [keeps_db_rules]:
  "keeps_db (ovpnEnsureCA os pki dir)" "keeps_db (ovpnIssueCert os pki ca cn server)"
proof -
  show "keeps_db (ovpnEnsureCA os pki dir)"
  proof (rule keeps_dbI)
    fix w
    show "db (snd (ovpnEnsureCA os pki dir w)) = db w"
    proof (cases "fileExists (path_join dir ''ca.crt'') w \<and> fileExists (path_join dir ''ca.key'') w")
      case True
      show ?thesis unfolding ovpnEnsureCA_def Let_def if_P [OF True]
        by (rule keeps_db_run) (intro keeps_db_rules)
    next
      case False
      show ?thesis unfolding ovpnEnsureCA_def Let_def if_not_P [OF False]
        by (rule keeps_db_run) (intro keeps_db_rules)
    qed
  qed
  show "keeps_db (ovpnIssueCert os pki ca cn server)"
    unfolding ovpnIssueCert_def by (rule keeps_dbI, rule keeps_db_run) (intro keeps_db_rules)
qed

text \<open>What a certificate that was issued is.\<close>

lemma ovpnIssueCert_Inr:
  assumes "ovpnIssueCert os pki ca cn server w = (Inr (crt, kp), w')"
  obtains n key kd der k k' where
    "sign pki (leaf_template n cn server (now w)) (Some (fst ca)) key (snd ca) k = (Inr der, k')"
    "marshal_ec pki key = Inr kd" "crt = pemBlock ''CERTIFICATE'' der" "kp = pemBlock ''EC PRIVATE KEY'' kd"
    "w' = w\<lparr>kern := kern w'\<rparr>"
proof -
  from assms obtain key w1 n w2 der w3 where 1: "ovpnGenKey pki w = (Inr key, w1)"
    and 2: "randSerial os w1 = (Inr n, w2)"
    and 3: "call_lib (''ovpn: sign cert '' @ cn @ '': '')
      (sign pki (leaf_template n cn server (now w)) (Some (fst ca)) key (snd ca)) w2 = (Inr der, w3)"
    and 4: "keyPEM pki key = Inr kp" "crt = pemBlock ''CERTIFICATE'' der" "w' = w3"
    unfolding ovpnIssueCert_def and_then_Inr_iff by (auto simp: lift_sum_def)
  note c = call_lib_Inr [OF 3]
  have "w1 = w\<lparr>kern := kern w1\<rparr>" using call_lib_Inr [OF 1 [unfolded ovpnGenKey_def]] by blast
  moreover have "w2 = w1\<lparr>kern := kern w2\<rparr>" using 2 by (auto simp: randSerial_def split: prod.splits)
  ultimately have "w3 = w\<lparr>kern := kern w3\<rparr>" using c by (metis world.surjective world.update_convs(4))
  moreover obtain kd where "marshal_ec pki key = Inr kd" "kp = pemBlock ''EC PRIVATE KEY'' kd"
    using 4(1) by (auto simp: keyPEM_def split: sum.splits)
  ultimately show thesis using that c 4(2,3) by blast
qed

text \<open>Loading changes nothing, so an authority that exists is only read.\<close>

lemma loading_frame:
  "load_pem pki what parse path w = (r, w') \<Longrightarrow> w' = w"
  "loadCert pki path w = (r, w') \<Longrightarrow> w' = w" "loadKey pki path w = (rk, w') \<Longrightarrow> w' = w"
  unfolding loadCert_def loadKey_def
  by (auto simp: load_pem_def readFileStr_def and_then_def finish_def die_def split: option.splits sum.splits)

lemma ensureCA_existing:
  assumes "fileExists (path_join dir ''ca.crt'') w" "fileExists (path_join dir ''ca.key'') w" "ovpnEnsureCA os pki dir w = (r, w')"
  shows "w' = w"
  using assms
  by (auto simp: ovpnEnsureCA_def Let_def and_then_def finish_def split: prod.splits sum.splits dest: loading_frame)

text \<open>The certificate an attach signs with is the one that \<^verbatim>\<open>ca.crt\<close> holds afterwards, and only the authority's files change.\<close>

lemma loadCert_Inr:
  "loadCert pki path w = (Inr c, w') \<Longrightarrow>
     \<exists>t d. file_text w path = Some t \<and> pem_decode pki t = Some d \<and> parse_cert pki d = Inr c"
  by (auto simp: loadCert_def load_pem_def readFileStr_def and_then_Inr_iff die_def finish_def
      split: option.splits sum.splits)

lemma or_die_write_Inr:
  "or_die msg (write_file os path t) w = (Inr (), w') \<Longrightarrow>
     w' = w\<lparr>files := (files w)(path \<mapsto> \<lparr>content = t, mtime = now w\<rparr>)\<rparr>"
  by (auto simp: or_die_def write_file_def split: prod.splits option.splits)

lemma writeFileMode_Inr:
  "writeFileMode os path t w = (Inr (), w') \<Longrightarrow>
     w' = w\<lparr>files := (files w)(path \<mapsto> \<lparr>content = t, mtime = now w\<rparr>)\<rparr>"
  unfolding writeFileMode_def by (rule or_die_write_Inr)

lemma ensureCert_Inr:
  assumes run: "ensureCert os pki is_ip6 addrs cfg w = (Inr (), w')"
  shows "fileExists (TLSCert cfg) w' \<and> fileExists (TLSKey cfg) w' \<and>
    (\<forall>path. path \<noteq> TLSCert cfg \<longrightarrow> path \<noteq> TLSKey cfg \<longrightarrow> files w' path = files w path)"
proof (cases "fileExists (TLSCert cfg) w \<and> fileExists (TLSKey cfg) w")
  case True
  with run show ?thesis by (simp add: ensureCert_def)
next
  case False
  let ?t = "tls_template (serverPublicIPParsed is_ip6 addrs cfg w) (now w)"
  from run obtain key w1 der w2 w3 where
    1: "call_lib ''gen tls key: '' (gen_rsa pki) w = (Inr key, w1)"
    and 2: "call_lib ''create cert: '' (sign pki ?t None key key) w1 = (Inr der, w2)"
    and 3: "or_die ''write cert: '' (write_file os (TLSCert cfg) (pemBlock ''CERTIFICATE'' der)) w2 = (Inr (), w3)"
    and 4: "or_die ''write key: ''
      (write_file os (TLSKey cfg) (pemBlock ''RSA PRIVATE KEY'' (marshal_rsa pki key))) w3 = (Inr (), w')"
    unfolding ensureCert_def if_not_P [OF False] and_then_Inr_iff by auto
  have "files w2 = files w" using call_lib_frame [OF 1] call_lib_frame [OF 2] by auto
  then show ?thesis using or_die_write_Inr [OF 3] or_die_write_Inr [OF 4] by (auto simp: fileExists_def)
qed

lemma ovpnEnsureCA_Inr:
  assumes "ovpnEnsureCA os pki dir w = (Inr (ca, key), w')"
  shows "\<exists>t d. file_text w' (path_join dir ''ca.crt'') = Some t \<and> pem_decode pki t = Some d \<and> parse_cert pki d = Inr ca"
    and "now w' = now w"
    and "path \<noteq> path_join dir ''ca.crt'' \<Longrightarrow> path \<noteq> path_join dir ''ca.key'' \<Longrightarrow> files w' path = files w path"
proof -
  let ?crt = "path_join dir ''ca.crt''" and ?key = "path_join dir ''ca.key''"
  let ?P = "(\<exists>t d. file_text w' ?crt = Some t \<and> pem_decode pki t = Some d \<and> parse_cert pki d = Inr ca) \<and>
    now w' = now w \<and> (\<forall>path. path \<noteq> ?crt \<longrightarrow> path \<noteq> ?key \<longrightarrow> files w' path = files w path)"
  have ?P
  proof (cases "fileExists ?crt w \<and> fileExists ?key w")
    case True
    with assms have "loadCert pki ?crt w = (Inr ca, w)" "w' = w"
      by (auto simp: ovpnEnsureCA_def Let_def and_then_Inr_iff dest: loading_frame)
    then show ?thesis using loadCert_Inr by metis
  next
    case False
    with assms obtain w1 n w2 der w3 kp w4 w5 where
      1: "call_lib ''ovpn: gen key: '' (gen_ec pki) w = (Inr key, w1)" "randSerial os w1 = (Inr n, w2)"
        "call_lib ''ovpn: create CA: '' (sign pki (ca_template n (now w)) None key key) w2 = (Inr der, w3)"
      and 2: "writeFileMode os ?key kp w3 = (Inr (), w4)"
        "writeFileMode os ?crt (pemBlock ''CERTIFICATE'' der) w4 = (Inr (), w5)"
      and 3: "loadCert pki ?crt w5 = (Inr ca, w')"
      by (auto simp: ovpnEnsureCA_def Let_def and_then_Inr_iff lift_sum_def ovpnGenKey_def)
    have "\<exists>k. w3 = w\<lparr>kern := k\<rparr>"
      using call_lib_frame [OF 1(1)] 1(2) call_lib_frame [OF 1(3)] by (auto simp: randSerial_def split: prod.splits)
    moreover have "w' = w5" by (rule loading_frame(2) [OF 3])
    ultimately show ?thesis
      using loadCert_Inr [OF 3] writeFileMode_Inr [OF 2(1)] writeFileMode_Inr [OF 2(2)] by auto
  qed
  then show "\<exists>t d. file_text w' ?crt = Some t \<and> pem_decode pki t = Some d \<and> parse_cert pki d = Inr ca"
    and "now w' = now w" and "path \<noteq> ?crt \<Longrightarrow> path \<noteq> ?key \<Longrightarrow> files w' path = files w path" by blast+
qed

lemma ovpnEnsureCA_minted:
  assumes run: "ovpnEnsureCA os pki dir w = (Inr (ca, k), w')"
    and missing: "\<not> (fileExists (path_join dir ''ca.crt'') w \<and> fileExists (path_join dir ''ca.key'') w)"
  shows "\<exists>n key der s s'. sign pki (ca_template n (now w)) None key key s = (Inr der, s') \<and>
    file_text w' (path_join dir ''ca.crt'') = Some (pemBlock ''CERTIFICATE'' der)"
proof -
  let ?crt = "path_join dir ''ca.crt''"
  from run missing obtain n w2 der w3 w4 w5 where
    1: "call_lib ''ovpn: create CA: '' (sign pki (ca_template n (now w)) None k k) w2 = (Inr der, w3)"
    and 2: "writeFileMode os ?crt (pemBlock ''CERTIFICATE'' der) w4 = (Inr (), w5)" and 3: "loadCert pki ?crt w5 = (Inr ca, w')"
    by (auto simp: ovpnEnsureCA_def Let_def and_then_Inr_iff lift_sum_def ovpnGenKey_def)
  have "file_text w' ?crt = Some (pemBlock ''CERTIFICATE'' der)"
    using writeFileMode_Inr [OF 2] loading_frame(2) [OF 3] by (simp add: file_text_def)
  then show ?thesis using call_lib_Inr [OF 1] by blast
qed

end
