(* ===== verification/Ovpn.thy ===== *)
theory Ovpn
  imports WgUsers Certs
begin

text \<open>
  ovpn_pki.go: the OpenVPN side of a user.  Attaching mints a certificate, assigns a static address, writes
  the client's file under \<^verbatim>\<open>ccd\<close> and records the identity; detaching removes both.  A new OpenVPN-only user is
  inserted first and removed again when attaching fails (\<open>ovpnAttachNewUser\<close>).
  Keys and certificates come from Certs.
\<close>

definition bad_subnet :: "string \<Rightarrow> string" where
  "bad_subnet cidr = ''ovpn: bad subnet '' @ cidr"

definition ovpnMask :: "string \<Rightarrow> string + string" where
  "ovpnMask cidr =
     (case parse_cidr cidr of None \<Rightarrow> Inl (bad_subnet cidr) | Some (_, n) \<Rightarrow> Inr (ip_str (net_mask n)))"

definition ovpn_used :: "ipnet \<Rightarrow> store \<Rightarrow> string \<Rightarrow> bool" where
  "ovpn_used n st s \<longleftrightarrow>
     s = ip_str (nextIP (net_ip n)) \<or> list_ex (\<lambda>p. OvpnIP p \<noteq> [] \<and> OvpnIP p = s) (allPeers st)"

definition ovpnNextFreeIP :: "string \<Rightarrow> store \<Rightarrow> string + string" where
  "ovpnNextFreeIP subnet st =
     (case parse_cidr subnet of
        None \<Rightarrow> Inl (bad_subnet subnet)
      | Some (_, n) \<Rightarrow>
          (case nextFreeHost n (ovpn_used n st) of
             Some ip \<Rightarrow> Inr ip
           | None \<Rightarrow> Inl (''ovpn: no free IP in '' @ subnet @ '' '' @ dash @
              '' widen the pool with `wgmgr expand-subnet` (existing profiles keep working)'')))"

text \<open>\<^verbatim>\<open>filepath.Join(cfg.OvpnDir, "ccd", username)\<close>\<close>

definition ccd_path :: "config \<Rightarrow> string \<Rightarrow> string" where
  "ccd_path cfg u = path_clean (join ''/'' (filter (\<lambda>e. e \<noteq> []) [OvpnDir cfg, ''ccd'', u]))"

definition set_ovpn :: "string \<Rightarrow> string \<Rightarrow> string \<times> string \<Rightarrow> peer \<Rightarrow> peer" where
  "set_ovpn cn ip cert r = r\<lparr>OvpnCN := cn, OvpnIP := ip, OvpnEnabled := True, OvpnCert := fst cert,
     OvpnKey := snd cert\<rparr>"

definition update_or_die :: "string \<Rightarrow> int \<Rightarrow> (peer \<Rightarrow> peer) \<Rightarrow> ('k world, unit) prog" where
  "update_or_die msg i f w =
     (case sql_update i f (db w) of
        Inl e \<Rightarrow> (Inl (msg @ e), w)
      | Inr st \<Rightarrow> (Inr (), w\<lparr>db := st\<rparr>))"

definition ovpnAttach :: "'k os \<Rightarrow> 'k pki \<Rightarrow> config \<Rightarrow> peer \<Rightarrow> ('k world, string) prog" where
  "ovpnAttach os pki cfg p =
     and_then (ovpnEnsureCA os pki (OvpnDir cfg)) (\<lambda>ca.
     and_then (ovpnIssueCert os pki ca (Username p) False) (\<lambda>cert.
     and_then (\<lambda>w. (ovpnNextFreeIP (OvpnSubnet cfg) (db w), w)) (\<lambda>ip.
     and_then (lift_sum (ovpnMask (OvpnSubnet cfg))) (\<lambda>mask.
     and_then (writeFileMode os (ccd_path cfg (Username p)) (''ifconfig-push '' @ ip @ '' '' @ mask @ nl)) (\<lambda>_.
     and_then (update_or_die ''ovpn attach: '' (ID p) (set_ovpn (Username p) ip cert)) (\<lambda>_.
     finish ip))))))"

definition ovpnRemoveCCD :: "'k os \<Rightarrow> config \<Rightarrow> string \<Rightarrow> 'k world \<Rightarrow> 'k world" where
  "ovpnRemoveCCD os cfg u w =
     (if OvpnDir cfg = [] \<or> u = [] then w else snd (remove_file os (ccd_path cfg u) w))"

definition ovpnAttachNewUser :: "'k os \<Rightarrow> 'k pki \<Rightarrow> config \<Rightarrow> peer \<Rightarrow> ('k world, string) prog" where
  "ovpnAttachNewUser os pki cfg p =
     cleanup_on_die (ovpnAttach os pki cfg p)
       (\<lambda>w. ovpnRemoveCCD os cfg (Username p) (w\<lparr>db := sql_delete (ID p) (db w)\<rparr>))"

definition clear_ovpn :: "peer \<Rightarrow> peer" where
  "clear_ovpn r = r\<lparr>OvpnCN := [], OvpnIP := [], OvpnEnabled := False, OvpnCert := [], OvpnKey := [],
     UsedOvpnBytes := 0, LastOvpnBytes := 0\<rparr>"

definition ovpnDetach :: "'k os \<Rightarrow> config \<Rightarrow> peer \<Rightarrow> ('k world, unit) prog" where
  "ovpnDetach os cfg p =
     and_then (modify (ovpnRemoveCCD os cfg (Username p)))
       (\<lambda>_. update_or_die ''ovpn detach: '' (ID p) clear_ovpn)"

text \<open>An OpenVPN-only user, as \<^verbatim>\<open>cmdAdd --ovpn-only\<close> and the panel create it.\<close>

definition new_ovpn_row :: "string \<Rightarrow> int \<Rightarrow> string \<Rightarrow> peer" where
  "new_ovpn_row u quota expires = default_row\<lparr>Username := u, QuotaBytes := quota, ExpiresAt := expires\<rparr>"

definition must_get :: "string \<Rightarrow> ('k world, peer) prog" where
  "must_get u w = (case getPeer (db w) u of None \<Rightarrow> (Inl (''no such user '' @ quoted u), w) | Some p \<Rightarrow> (Inr p, w))"

definition create_ovpn :: "'k os \<Rightarrow> 'k pki \<Rightarrow> config \<Rightarrow> string \<Rightarrow> int \<Rightarrow> string \<Rightarrow> ('k world, string) prog" where
  "create_ovpn os pki cfg u quota expires w0 =
     (if \<not> fileExists (path_join (OvpnDir cfg) ''ca.crt'') w0
      then (Inl (''openvpn is not initialized '' @ dash @ '' run `wgmgr ovpn-init` first''), w0)
      else and_then (insert_peer (new_ovpn_row u quota expires)) (\<lambda>_.
           and_then (must_get u) (ovpnAttachNewUser os pki cfg)) w0)"

text \<open>Deleting a user: \<^verbatim>\<open>cmdRemove\<close> and the panel's \<^verbatim>\<open>deletePeer\<close>.\<close>

definition deletePeer :: "'k os \<Rightarrow> config \<Rightarrow> string \<Rightarrow> ('k world, unit) prog" where
  "deletePeer os cfg u =
     and_then (must_get u) (\<lambda>p.
     and_then (modify (ovpnRemoveCCD os cfg (Username p))) (\<lambda>_.
     and_then (modify (\<lambda>w. w\<lparr>db := sql_delete (ID p) (db w)\<rparr>)) (\<lambda>_.
     renderConf os cfg True)))"

section \<open>Texts\<close>

definition tuning_lines :: "config \<Rightarrow> string" where
  "tuning_lines cfg =
     (if OvpnMSSFix cfg \<noteq> [] then ''mssfix '' @ OvpnMSSFix cfg @ nl else []) @
     (if OvpnTunMTU cfg \<noteq> [] then ''tun-mtu '' @ OvpnTunMTU cfg @ nl else [])"

definition mgmt_line :: "config \<Rightarrow> string" where
  "mgmt_line cfg =
     (if has_prefix (OvpnMgmt cfg) ''unix:'' then ''management '' @ trim_prefix (OvpnMgmt cfg) ''unix:'' @ '' unix''
      else case cut_at CHR '':'' (OvpnMgmt cfg) of
             Some (h, p) \<Rightarrow> ''management '' @ h @ '' '' @ p
           | None \<Rightarrow> [])"

definition ovpnServerConf :: "config \<Rightarrow> string + string" where
  "ovpnServerConf cfg =
     (case parse_cidr (OvpnSubnet cfg) of
        None \<Rightarrow> Inl (bad_subnet (OvpnSubnet cfg))
      | Some (_, n) \<Rightarrow>
          (let d = OvpnDir cfg in
           Inr (unlines
             [''# Generated by wgmgr ovpn-init '' @ dash @ '' do not edit by hand.'',
              ''port '' @ OvpnPort cfg, ''proto '' @ OvpnProto cfg, ''dev tun'', ''topology subnet'',
              ''server '' @ ip_str (net_ip n) @ '' '' @ ip_str (net_mask n),
              ''ca '' @ d @ ''/ca.crt'', ''cert '' @ d @ ''/server.crt'', ''key '' @ d @ ''/server.key'',
              ''dh none'', ''tls-crypt '' @ d @ ''/tc.key'', ''cipher AES-256-GCM'',
              ''data-ciphers AES-256-GCM:AES-128-GCM'', ''auth SHA256'',
              ''client-config-dir '' @ d @ ''/ccd'', ''ccd-exclusive'', mgmt_line cfg,
              ''keepalive 10 120'', ''persist-key'', ''persist-tun''] @
            tuning_lines cfg @
            unlines
             [''user '' @ OvpnUser cfg, ''group '' @ OvpnGroup cfg,
              ''push \"redirect-gateway def1 bypass-dhcp\"'',
              ''push \"dhcp-option DNS '' @ OvpnDNS cfg @ ''\"'', ''verb 3'', ''explicit-exit-notify 1''])))"

definition one_newline :: "string \<Rightarrow> string" where
  "one_newline s = trim_right_char CHR 0x0A s @ nl"

definition ovpnClientConfig :: "config \<Rightarrow> string \<Rightarrow> string \<Rightarrow> string \<Rightarrow> string \<Rightarrow> string" where
  "ovpnClientConfig cfg ca cert key tc =
     unlines [''client'', ''dev tun'', ''proto '' @ OvpnProto cfg,
       ''remote '' @ OvpnEndpoint cfg @ '' '' @ OvpnPort cfg, ''resolv-retry infinite'', ''nobind'',
       ''persist-key'', ''persist-tun''] @
     tuning_lines cfg @ nl @
     unlines [''remote-cert-tls server'', ''cipher AES-256-GCM'', ''auth SHA256'', ''verb 3''] @
     ''<ca>'' @ nl @ one_newline ca @ ''</ca>'' @ nl @ ''<cert>'' @ nl @ one_newline cert @ ''</cert>'' @ nl @
     ''<key>'' @ nl @ one_newline key @ ''</key>'' @ nl @ ''<tls-crypt>'' @ nl @ one_newline tc @
     ''</tls-crypt>'' @ nl"

definition ovpnConfigForPeer :: "config \<Rightarrow> peer \<Rightarrow> ('k world, string) prog" where
  "ovpnConfigForPeer cfg p =
     and_then (readFileStr (path_join (OvpnDir cfg) ''ca.crt'')) (\<lambda>ca.
     and_then (readFileStr (path_join (OvpnDir cfg) ''tc.key'')) (\<lambda>tc.
     finish (ovpnClientConfig cfg ca (OvpnCert p) (OvpnKey p) tc)))"

text \<open>\<^verbatim>\<open>ovpnGenTLSCrypt\<close>: 512 hexadecimal digits in lines of 32.\<close>

definition ovpnGenTLSCrypt :: "'k os \<Rightarrow> ('k world, string) prog" where
  "ovpnGenTLSCrypt os w =
     (case random_hex os 256 (kern w) of
        (h, k) \<Rightarrow> (Inr (''-----BEGIN OpenVPN Static key V1-----'' @ nl @ unlines (chunks 32 h) @
                    ''-----END OpenVPN Static key V1-----'' @ nl), w\<lparr>kern := k\<rparr>))"

section \<open>Defaults\<close>

definition groupExists :: "string \<Rightarrow> 'k world \<Rightarrow> bool" where
  "groupExists name w =
     (case file_text w ''/etc/group'' of
        None \<Rightarrow> False
      | Some t \<Rightarrow> list_ex (\<lambda>l. has_prefix l (name @ '':'')) (lines t))"

definition ovpnRuntimeIdentity :: "'k os \<Rightarrow> 'k world \<Rightarrow> (string \<times> string) \<times> 'k world" where
  "ovpnRuntimeIdentity os w =
     (case run os ''id'' [''-u'', ''openvpn''] w of
        ((_, None), w1) \<Rightarrow>
          (case run os ''id'' [''-gn'', ''openvpn''] w1 of
             ((out, None), w2) \<Rightarrow>
               ((''openvpn'', if trim_space out \<noteq> [] then trim_space out else ''openvpn''), w2)
           | ((_, Some _), w2) \<Rightarrow> ((''openvpn'', ''openvpn''), w2))
      | ((_, Some _), w1) \<Rightarrow>
          ((''nobody'', if groupExists ''nogroup'' w1 then ''nogroup'' else ''nobody''), w1))"

definition or_default :: "string \<Rightarrow> string \<Rightarrow> string" where
  "or_default v d = (if v = [] then d else v)"

definition ovpnDefaults :: "'k os \<Rightarrow> config \<Rightarrow> 'k world \<Rightarrow> config \<times> 'k world" where
  "ovpnDefaults os cfg w =
     (let (ident, w') =
        (if OvpnUser cfg = [] \<or> OvpnGroup cfg = [] then ovpnRuntimeIdentity os w else (([], []), w))
      in (cfg\<lparr>OvpnDir := or_default (OvpnDir cfg) ''/etc/openvpn'',
              OvpnSubnet := or_default (OvpnSubnet cfg) ''10.8.0.0/16'',
              OvpnPort := or_default (OvpnPort cfg) ''1194'',
              OvpnProto := or_default (OvpnProto cfg) ''udp'',
              OvpnDNS := or_default (OvpnDNS cfg) ''1.1.1.1'',
              OvpnMgmt := or_default (OvpnMgmt cfg) ''unix:/run/wgmgr/ovpn.sock'',
              OvpnUser := or_default (OvpnUser cfg) (fst ident),
              OvpnGroup := or_default (OvpnGroup cfg) (snd ident),
              OvpnMSSFix := or_default (OvpnMSSFix cfg) ''1360''\<rparr>, w'))"

end
