(* ===== verification/OvpnUsers.thy ===== *)
theory OvpnUsers
  imports Ovpn
begin

text \<open>
  What attaching, detaching and deleting do: an OpenVPN-only user is created completely or not at all, a
  deleted user's client file is gone, and two attaches that overlap can end with the same address, which no
  index of the table prevents (on the WireGuard side one of the two is refused).
\<close>

section \<open>Attaching\<close>

lemma writeFileMode_text:
  "writeFileMode os path t w = (Inr (), w') \<Longrightarrow> file_text w' path = Some t \<and> db w' = db w"
  by (auto simp: writeFileMode_def or_die_def write_file_def file_text_def split: prod.splits option.splits)

text \<open>A program that dies with the table as it was: its one statement is the last thing that can fail.\<close>

definition keeps_db_dying :: "('k world, 'a) prog \<Rightarrow> bool" where
  "keeps_db_dying p \<longleftrightarrow> (\<forall>w e w'. p w = (Inl e, w') \<longrightarrow> db w' = db w)"

lemma keeps_db_dying_and_then:
  "keeps_db p \<Longrightarrow> (\<And>a. keeps_db_dying (f a)) \<Longrightarrow> keeps_db_dying (and_then p f)"
  unfolding keeps_db_dying_def and_then_Inl_iff by (metis keeps_dbD)

lemma keeps_db_dying_update: "keeps_db_dying (and_then (update_or_die msg i f) (\<lambda>_. finish a))"
  by (auto simp: keeps_db_dying_def and_then_Inl_iff update_or_die_def split: sum.splits)

text \<open>An attach either fails with the table as it was, or it has run its one update.\<close>

definition attached :: "config \<Rightarrow> peer \<Rightarrow> string \<Rightarrow> string \<times> string \<Rightarrow> store \<Rightarrow> 'k world \<Rightarrow> bool" where
  "attached cfg p ip cert st w' \<longleftrightarrow>
     ovpnNextFreeIP (OvpnSubnet cfg) st = Inr ip \<and>
     (\<exists>mask. ovpnMask (OvpnSubnet cfg) = Inr mask \<and>
        file_text w' (ccd_path cfg (Username p)) = Some (''ifconfig-push '' @ ip @ '' '' @ mask @ nl)) \<and>
     sql_update (ID p) (set_ovpn (Username p) ip cert) st = Inr (db w')"

lemma ovpnAttach_Inr:
  assumes "ovpnAttach os pki cfg p w = (Inr ip, w')"
  obtains ca cert mask w1 w2 w3 where "ovpnEnsureCA os pki (OvpnDir cfg) w = (Inr ca, w1)"
    "ovpnIssueCert os pki ca (Username p) False w1 = (Inr cert, w2)"
    "ovpnNextFreeIP (OvpnSubnet cfg) (db w2) = Inr ip" "ovpnMask (OvpnSubnet cfg) = Inr mask"
    "writeFileMode os (ccd_path cfg (Username p)) (''ifconfig-push '' @ ip @ '' '' @ mask @ nl) w2 = (Inr (), w3)"
    "update_or_die ''ovpn attach: '' (ID p) (set_ovpn (Username p) ip cert) w3 = (Inr (), w')"
  using assms by (auto simp: ovpnAttach_def and_then_Inr_iff)

lemma ovpnAttach_steps:
  assumes "ovpnAttach os pki cfg p w = (r, w')"
  shows "(db w' = db w \<and> (\<exists>e. r = Inl e)) \<or> (\<exists>ip cert. r = Inr ip \<and> attached cfg p ip cert (db w) w')"
proof (cases r)
  case (Inl e)
  have "keeps_db_dying (ovpnAttach os pki cfg p)"
    unfolding ovpnAttach_def
    by (intro keeps_db_dying_and_then keeps_db_dying_update keeps_db_rules) (simp add: keeps_db_def)
  with assms Inl show ?thesis by (simp add: keeps_db_dying_def)
next
  case (Inr ip)
  with assms obtain ca cert mask w1 w2 w3 where 1: "ovpnEnsureCA os pki (OvpnDir cfg) w = (Inr ca, w1)"
    and 2: "ovpnIssueCert os pki ca (Username p) False w1 = (Inr cert, w2)"
    and ip: "ovpnNextFreeIP (OvpnSubnet cfg) (db w2) = Inr ip" and mask: "ovpnMask (OvpnSubnet cfg) = Inr mask"
    and 3: "writeFileMode os (ccd_path cfg (Username p)) (''ifconfig-push '' @ ip @ '' '' @ mask @ nl) w2 = (Inr (), w3)"
    and 4: "update_or_die ''ovpn attach: '' (ID p) (set_ovpn (Username p) ip cert) w3 = (Inr (), w')"
    by (auto elim: ovpnAttach_Inr)
  have d: "db w1 = db w" "db w2 = db w" "db w3 = db w"
    using keeps_dbD [OF keeps_db_issuing(1) 1] keeps_dbD [OF keeps_db_issuing(2) 2] writeFileMode_text [OF 3] by simp_all
  from 4 obtain st where "sql_update (ID p) (set_ovpn (Username p) ip cert) (db w) = Inr st" "w' = w3\<lparr>db := st\<rparr>"
    by (auto simp: update_or_die_def d split: sum.splits)
  then have "attached cfg p ip cert (db w) w'"
    using ip mask writeFileMode_text [OF 3] by (simp add: attached_def file_text_def d)
  then show ?thesis using Inr by blast
qed

lemma keeps_keys_ovpn [simp]: "keeps_keys (set_ovpn cn ip cert)" "keeps_keys clear_ovpn"
  by (simp_all add: keeps_keys_def set_ovpn_def clear_ovpn_def)

lemma ovpnNextFreeIP_ok:
  assumes "ovpnNextFreeIP subnet st = Inr ip"
  obtains a n where "parse_cidr subnet = Some (a, n)" "nextFreeHost n (ovpn_used n st) = Some ip"
    "pool_usable n ip" "ip \<noteq> ip_str (nextIP (net_ip n))" "\<forall>p\<in>set (rows st). OvpnIP p \<noteq> ip"
proof -
  obtain a n where n: "parse_cidr subnet = Some (a, n)" "nextFreeHost n (ovpn_used n st) = Some ip"
    using assms by (auto simp: ovpnNextFreeIP_def split: option.splits)
  have u: "pool_usable n ip" "\<not> ovpn_used n st ip" using host_pool.alloc_Some [OF n(2)] by auto
  have "ip \<noteq> []" using u(1) by (auto simp: pool_usable_def) (metis dotted_nonempty dotted_ip_str)
  with u(2) have "ip \<noteq> ip_str (nextIP (net_ip n))" "\<forall>p\<in>set (rows st). OvpnIP p \<noteq> ip"
    by (auto simp: ovpn_used_def allPeers_def list_ex_iff)
  with n u show ?thesis using that by blast
qed

text \<open>The new row, before and after the attach.\<close>

lemma insert_then_get:
  assumes inv: "store_inv (db w)" and "insert_peer p w = (Inr (), w1)"
  obtains q where "rows (db w1) = rows (db w) @ [q]" "q = p\<lparr>ID := row_seq (db w) + 1\<rparr>" "store_inv (db w1)"
    "must_get (Username p) w1 = (Inr q, w1)" "w1 = w\<lparr>db := db w1\<rparr>"
    "rows (sql_delete (ID q) (db w1)) = rows (db w)"
proof -
  obtain st where st: "sql_insert p (db w) = Inr st" "w1 = w\<lparr>db := st\<rparr>"
    using assms(2) by (auto simp: insert_peer_def split: sum.splits)
  let ?q = "p\<lparr>ID := row_seq (db w) + 1\<rparr>"
  have r: "rows st = rows (db w) @ [?q]" using st(1) by (auto simp: sql_insert_def split: option.splits)
  have inv1: "store_inv st" by (rule sql_insert_inv [OF inv st(1)])
  have g: "getPeer st (Username ?q) = Some ?q" by (rule getPeer_member [OF inv1]) (simp add: r)
  have "allPeers (sql_delete (ID ?q) st) = allPeers (db w)"
    by (rule peers.delete_inserted [OF inv st(1)]) (use g in \<open>simp add: getPeer_find\<close>)
  then show ?thesis
    using r inv1 g st(2) by (intro that [of ?q]) (simp_all add: must_get_def allPeers_def)
qed

lemma update_last_row:
  assumes "store_inv st" "rows st = rs @ [q]" "keeps_keys f"
  shows "sql_update (ID q) f st = Inr (st\<lparr>rows := rs @ [f q]\<rparr>)"
proof -
  have "distinct (map ID (rows st))" using assms(1) by (rule store_inv_ids)
  then have "ID q \<notin> ID ` set rs" using assms(2) by auto
  then have "update_rows (ID q) f (rs @ [q]) = rs @ [f q]"
    using update_rows_other [of "ID q" rs f] by (simp add: update_rows_def)
  then show ?thesis by (simp add: sql_update_keeps_keys [OF assms(1,3)] assms(2))
qed

lemma ovpnRemoveCCD_frame [simp]: "db (ovpnRemoveCCD os cfg u w) = db w"
  by (simp add: ovpnRemoveCCD_def)

lemma ovpnRemoveCCD_gone:
  assumes "\<And>p. fs_err os ''remove'' p = None" "OvpnDir cfg \<noteq> []" "u \<noteq> []"
  shows "files (ovpnRemoveCCD os cfg u w) = (files w)(ccd_path cfg u := None)"
  using assms by (auto simp: ovpnRemoveCCD_def remove_file_def)

section \<open>Overlapping requests\<close>

text \<open>
  The panel serves requests concurrently, and an attach reads the table (to choose an address) and writes it
  (to record the address) in two statements.  A state is the table and the attaches that have chosen but not
  yet recorded; \<open>k\<close> is how many may be in flight: one when a lock serializes them, any number in the code.
\<close>

type_synonym pending = "(peer \<times> string \<times> (string \<times> string)) list"

inductive attach_step :: "nat \<Rightarrow> string \<Rightarrow> store \<times> pending \<Rightarrow> store \<times> pending \<Rightarrow> bool" for k subnet where
  choose: "length pend < k \<Longrightarrow> p \<in> set (allPeers st) \<Longrightarrow> ovpnNextFreeIP subnet st = Inr ip \<Longrightarrow>
    attach_step k subnet (st, pend) (st, (p, ip, cert) # pend)"
| commit: "(p, ip, cert) \<in> set pend \<Longrightarrow> sql_update (ID p) (set_ovpn (Username p) ip cert) st = Inr st' \<Longrightarrow>
    attach_step k subnet (st, pend) (st', remove1 (p, ip, cert) pend)"

inductive_cases attach_stepE: "attach_step k subnet (st, pend) s'"

inductive attach_reach :: "nat \<Rightarrow> string \<Rightarrow> store \<Rightarrow> store \<times> pending \<Rightarrow> bool" for k subnet st0 where
  start: "attach_reach k subnet st0 (st0, [])"
| step: "attach_reach k subnet st0 s \<Longrightarrow> attach_step k subnet s s' \<Longrightarrow> attach_reach k subnet st0 s'"

definition ovpn_ips_distinct :: "store \<Rightarrow> bool" where
  "ovpn_ips_distinct st \<longleftrightarrow> nonempty_distinct (map OvpnIP (rows st))"

definition serial_inv :: "store \<times> pending \<Rightarrow> bool" where
  "serial_inv s \<longleftrightarrow> store_inv (fst s) \<and> ovpn_ips_distinct (fst s) \<and> length (snd s) \<le> 1 \<and>
     (\<forall>(p, ip, cert)\<in>set (snd s). ip \<notin> OvpnIP ` set (rows (fst s)))"

lemma attach_step_serial:
  assumes "attach_step 1 subnet s s'" and "serial_inv s"
  shows "serial_inv s'"
  using assms
proof (cases rule: attach_step.cases)
  case (choose pend p st ip cert)
  have "ip \<notin> OvpnIP ` set (rows st)" using ovpnNextFreeIP_ok [OF choose(5)] by blast
  with choose assms(2) show ?thesis by (auto simp: serial_inv_def)
next
  case (commit p ip cert pend st st')
  have inv: "store_inv st" "ovpn_ips_distinct st" and fresh: "ip \<notin> OvpnIP ` set (rows st)"
    and one: "pend = [(p, ip, cert)]"
    using assms(2) commit(1,3) by (auto simp: serial_inv_def le_Suc_eq length_Suc_conv)
  have st': "st' = st\<lparr>rows := update_rows (ID p) (set_ovpn (Username p) ip cert) (rows st)\<rparr>"
    using commit(4) sql_update_keeps_keys [OF inv(1) keeps_keys_ovpn(1)] by simp
  have "nonempty_distinct (map OvpnIP (update_rows (ID p) (set_ovpn (Username p) ip cert) (rows st)))"
    using inv(2) fresh
    by (intro nonempty_distinct_update_rows store_inv_ids inv)
      (auto simp: set_ovpn_def ovpn_ips_distinct_def)
  moreover have "store_inv st'" unfolding st' by (intro store_inv_update_rows inv keeps_keys_ovpn)
  ultimately show ?thesis using commit(2) by (simp add: serial_inv_def one st' ovpn_ips_distinct_def)
qed

section \<open>Sample values\<close>

definition demo_pki :: "'k pki" where
  "demo_pki = \<lparr>gen_ec = (\<lambda>k. (Inr ''KEY'', k)), gen_rsa = (\<lambda>k. (Inr ''RSA'', k)), marshal_ec = Inr,
     marshal_rsa = id, parse_cert = Inr, parse_ec = Inr, pem_decode = Some,
     sign = (\<lambda>t parent key by k. (Inr (CommonName t), k))\<rparr>"

definition demo_subnet :: string where
  "demo_subnet = cidr_str (IP4 10 8 0 0) 24"

definition ovpn_config :: config where
  "ovpn_config = sample_config\<lparr>OvpnDir := ''/etc/openvpn'', OvpnSubnet := demo_subnet\<rparr>"

lemma demo_ovpn_alloc:
  assumes "\<forall>p\<in>set (rows st). OvpnIP p \<noteq> ip_str (IP4 10 8 0 9)"
  shows "\<exists>ip. ovpnNextFreeIP demo_subnet st = Inr ip"
proof -
  let ?n = "mk_net (IP4 10 8 0 0) 24"
  have "mask_ones (net_mask ?n) \<noteq> None" "hostAllocatable (IP4 10 8 0 9) ?n" by code_simp+
  then have u: "pool_usable ?n (ip_str (IP4 10 8 0 9))" unfolding pool_usable_def by blast
  have "nextIP (net_ip ?n) = IP4 10 8 0 1" by code_simp
  then have "\<not> ovpn_used ?n st (ip_str (IP4 10 8 0 9))"
    using assms by (auto simp: ovpn_used_def allPeers_def list_ex_iff simp del: ip_str.simps)
  have "\<exists>ip. nextFreeHost ?n (ovpn_used ?n st) = Some ip"
    by (rule host_pool.alloc_succeeds) (rule u, fact)
  then show ?thesis by (auto simp: ovpnNextFreeIP_def demo_subnet_def)
qed

lemma sample_ovpn_free: "\<forall>p\<in>set (rows sample_store). OvpnIP p \<noteq> ip_str (IP4 10 8 0 9)"
proof -
  have "ip_str (IP4 10 8 0 9) = ''10.8.0.9''" by code_simp
  then show ?thesis by (simp add: sample_store_def ann_def bob_def default_row_def)
qed

definition initialized_world :: "ip4 list world" where
  "initialized_world = sample_world\<lparr>files :=
     [''/etc/openvpn/ca.crt'' \<mapsto> \<lparr>content = ''CACERT'', mtime = 0\<rparr>,
      ''/etc/openvpn/ca.key'' \<mapsto> \<lparr>content = ''CAKEY'', mtime = 0\<rparr>,
      ''/etc/openvpn/tc.key'' \<mapsto> \<lparr>content = ''STATIC'', mtime = 0\<rparr>]\<rparr>"

lemma db_initialized: "db initialized_world = sample_store"
  by (simp add: initialized_world_def db_sample_world)

lemma demo_attach:
  "\<exists>ip w'. create_ovpn kset_os demo_pki ovpn_config ''eve'' 0 [] initialized_world = (Inr ip, w')"
proof -
  have paths: "path_join ''/etc/openvpn'' ''ca.crt'' = ''/etc/openvpn/ca.crt''"
    "path_join ''/etc/openvpn'' ''ca.key'' = ''/etc/openvpn/ca.key''" by code_simp+
  let ?w = "initialized_world" and ?p = "new_ovpn_row ''eve'' 0 []"
  obtain st where "sql_insert ?p sample_store = Inr st"
    by (simp add: sql_insert_def conflict_def sample_store_def ann_def bob_def new_ovpn_row_def default_row_def)
  then have i: "insert_peer ?p ?w = (Inr (), ?w\<lparr>db := st\<rparr>)" by (simp add: insert_peer_def db_initialized)
  obtain q where q: "rows st = rows sample_store @ [q]" "q = ?p\<lparr>ID := row_seq sample_store + 1\<rparr>" "store_inv st"
    "must_get ''eve'' (?w\<lparr>db := st\<rparr>) = (Inr q, ?w\<lparr>db := st\<rparr>)"
    by (rule insert_then_get [OF _ i]) (simp_all add: db_initialized sample_store_inv new_ovpn_row_def)
  have u: "Username q = ''eve''" by (simp add: q(2) new_ovpn_row_def)
  have "OvpnIP q \<noteq> ip_str (IP4 10 8 0 9)"
  proof -
    have "ip_str (IP4 10 8 0 9) = ''10.8.0.9''" by code_simp
    then show ?thesis by (simp add: q(2) new_ovpn_row_def default_row_def)
  qed
  then obtain ip where ip: "ovpnNextFreeIP demo_subnet st = Inr ip"
    using demo_ovpn_alloc [of st] sample_ovpn_free by (auto simp: q(1))
  obtain mask where mask: "ovpnMask demo_subnet = Inr mask" by (simp add: ovpnMask_def demo_subnet_def)
  have "\<exists>w'. ovpnAttach kset_os demo_pki ovpn_config q (?w\<lparr>db := st\<rparr>) = (Inr ip, w')"
    using ip mask sql_update_keeps_keys [OF q(3) keeps_keys_ovpn(1)]
    by (simp add: ovpnAttach_def ovpnEnsureCA_def Let_def paths fileExists_def loadCert_def loadKey_def load_pem_def
        readFileStr_def file_text_def ovpnIssueCert_def ovpnGenKey_def call_lib_def randSerial_def keyPEM_def
        writeFileMode_def or_die_def write_file_def update_or_die_def and_then_def lift_sum_def
        ovpn_config_def initialized_world_def demo_pki_def kset_os_def)
  then show ?thesis
    using i q(4) u by (auto simp: create_ovpn_def ovpnAttachNewUser_def cleanup_on_die_def and_then_def
        ovpn_config_def paths fileExists_def initialized_world_def)
qed

section \<open>Properties of the users\<close>

lemma create_ovpn_result:
  assumes inv: "store_inv (db w)" and run: "create_ovpn os pki cfg u quota expires w = (r, w')"
    and fs: "\<And>p. fs_err os ''remove'' p = None" and dir: "OvpnDir cfg \<noteq> []" and u: "u \<noteq> []"
  obtains (failed) e where "r = Inl e" "rows (db w') = rows (db w)"
      "files w' (ccd_path cfg u) = None \<or> files w' (ccd_path cfg u) = files w (ccd_path cfg u)"
  | (created) q ip cert st where "r = Inr ip" "attached cfg q ip cert st w'" "rows st = rows (db w) @ [q]"
      "q = (new_ovpn_row u quota expires)\<lparr>ID := row_seq (db w) + 1\<rparr>" "store_inv st"
      "ovpnAttach os pki cfg q (w\<lparr>db := st\<rparr>) = (Inr ip, w')"
proof (cases "fileExists (path_join (OvpnDir cfg) ''ca.crt'') w")
  case False
  with run show thesis by (intro failed) (auto simp: create_ovpn_def)
next
  case True
  let ?new = "new_ovpn_row u quota expires"
  have un: "Username ?new = u" by (simp add: new_ovpn_row_def)
  obtain r1 w1 where i: "insert_peer ?new w = (r1, w1)" by fastforce
  show thesis
  proof (cases r1)
    case (Inl e)
    then have "w1 = w" "r = Inl e" "w' = w1"
      using run True i by (auto simp: create_ovpn_def and_then_def insert_peer_def split: sum.splits)
    then show thesis by (intro failed) simp_all
  next
    case (Inr x)
    then have i': "insert_peer ?new w = (Inr (), w1)" using i by simp
    obtain q where q: "rows (db w1) = rows (db w) @ [q]" "q = ?new\<lparr>ID := row_seq (db w) + 1\<rparr>"
      "store_inv (db w1)" "must_get (Username ?new) w1 = (Inr q, w1)" "w1 = w\<lparr>db := db w1\<rparr>"
      "rows (sql_delete (ID q) (db w1)) = rows (db w)"
      using insert_then_get [OF inv i'] .
    obtain r2 w2 where a: "ovpnAttach os pki cfg q w1 = (r2, w2)" by fastforce
    have rr: "(r, w') = (case r2 of Inl e \<Rightarrow> (Inl e, ovpnRemoveCCD os cfg u (w2\<lparr>db := sql_delete (ID q) (db w2)\<rparr>))
        | Inr ip \<Rightarrow> (Inr ip, w2))"
      using run True i' q(2,4) a un
      by (auto simp: create_ovpn_def and_then_def ovpnAttachNewUser_def cleanup_on_die_def split: sum.splits)
    from ovpnAttach_steps [OF a] show thesis
    proof (elim disjE exE conjE)
      fix e assume "db w2 = db w1" and "r2 = Inl e"
      with rr q(6) ovpnRemoveCCD_gone [OF fs dir u] show thesis by (intro failed) simp_all
    next
      fix ip cert assume "r2 = Inr ip" and "attached cfg q ip cert (db w1) w2"
      moreover have "ovpnAttach os pki cfg q (w\<lparr>db := db w1\<rparr>) = (r2, w2)" using a q(5) by metis
      ultimately show thesis using rr q(1-3) by (intro created [of ip q cert "db w1"]) simp_all
    qed
  qed
qed



text \<open>
  Attaches that do not overlap never share an address: from a table whose OpenVPN addresses are distinct,
  any sequence of attaches with at most one in flight leaves them distinct.
\<close>

theorem serialized_attaches_distinct:
  assumes "attach_reach 1 subnet st0 s" and "store_inv st0" and "ovpn_ips_distinct st0"
  shows "ovpn_ips_distinct (fst s) \<and> store_inv (fst s)"
proof -
  have "serial_inv s"
    using assms(1)
  proof (induction rule: attach_reach.induct)
    case start
    show ?case using assms(2,3) by (simp add: serial_inv_def)
  next
    case (step s s')
    then show ?case by (blast intro: attach_step_serial)
  qed
  then show ?thesis by (simp add: serial_inv_def)
qed

lemma serialized_attaches_distinct_witness:
  "\<exists>s. attach_reach 1 demo_subnet sample_store s \<and> length (snd s) = 1 \<and> ovpn_ips_distinct (fst s)"
proof -
  have nd: "ovpn_ips_distinct sample_store"
    by (simp add: ovpn_ips_distinct_def nonempty_distinct_def sample_store_def ann_def bob_def default_row_def)
  obtain ip where ip: "ovpnNextFreeIP demo_subnet sample_store = Inr ip"
    using demo_ovpn_alloc [OF sample_ovpn_free] by blast
  have "bob \<in> set (allPeers sample_store)" by (simp add: allPeers_def sample_store_def)
  then have r: "attach_reach 1 demo_subnet sample_store (sample_store, [(bob, ip, ([], []))])"
    by (intro attach_reach.step [OF attach_reach.start] attach_step.choose ip) simp_all
  from serialized_attaches_distinct [OF r sample_store_inv nd] show ?thesis
    using r by (intro exI [of _ "(sample_store, [(bob, ip, ([], []))])"]) simp
qed

text \<open>
  C40. Two attaches that overlap can end with the same address, and the table accepts it: no index covers
  \<^verbatim>\<open>ovpn_ip\<close>, and the panel's handlers take no lock around the two statements.
\<close>

theorem overlapping_attaches_collide:
  assumes inv: "store_inv st" and p: "p \<in> set (allPeers st)" and q: "q \<in> set (allPeers st)"
    and pq: "ID p \<noteq> ID q" and ip: "ovpnNextFreeIP subnet st = Inr ip" and k: "2 \<le> k"
  shows "\<exists>st2 p' q'. attach_reach k subnet st (st2, []) \<and> store_inv st2 \<and>
    getPeer st2 (Username p) = Some p' \<and> getPeer st2 (Username q) = Some q' \<and>
    OvpnIP p' = ip \<and> OvpnIP q' = ip \<and> ID p' \<noteq> ID q'"
proof -
  let ?c = "([], []) :: string \<times> string"
  let ?f = "set_ovpn (Username p) ip ?c" and ?g = "set_ovpn (Username q) ip ?c"
  define st1 where "st1 = st\<lparr>rows := update_rows (ID p) ?f (rows st)\<rparr>"
  define st2 where "st2 = st1\<lparr>rows := update_rows (ID q) ?g (rows st1)\<rparr>"
  have i1: "store_inv st1" unfolding st1_def by (intro store_inv_update_rows inv keeps_keys_ovpn)
  have i2: "store_inv st2" unfolding st2_def by (intro store_inv_update_rows i1 keeps_keys_ovpn)
  have 0: "attach_reach k subnet st (st, [])" by (rule start)
  have 1: "attach_reach k subnet st (st, [(p, ip, ?c)])"
    using k by (intro step [OF 0] choose p ip) simp
  have 2: "attach_reach k subnet st (st, [(q, ip, ?c), (p, ip, ?c)])"
    using k by (intro step [OF 1] choose q ip) simp
  have u1: "sql_update (ID p) ?f st = Inr st1"
    unfolding st1_def by (rule sql_update_keeps_keys [OF inv keeps_keys_ovpn(1)])
  have u2: "sql_update (ID q) ?g st1 = Inr st2"
    unfolding st2_def by (rule sql_update_keeps_keys [OF i1 keeps_keys_ovpn(1)])
  have ne: "p \<noteq> q" using pq by auto
  have 3: "attach_reach k subnet st (st1, [(q, ip, ?c)])"
    using step [OF 2 commit [OF _ u1, of "[(q, ip, ?c), (p, ip, ?c)]"]] ne by simp
  have 4: "attach_reach k subnet st (st2, [])"
    using step [OF 3 commit [OF _ u2, of "[(q, ip, ?c)]"]] by simp
  have r: "rows st2 = map (\<lambda>r. if ID r = ID q then ?g r else if ID r = ID p then ?f r else r) (rows st)"
    unfolding st2_def st1_def by (auto simp: update_rows_def set_ovpn_def)
  have mem: "?f p \<in> set (rows st2)" "?g q \<in> set (rows st2)"
    using p q pq by (auto simp: r allPeers_def image_iff)
  have "getPeer st2 (Username (?f p)) = Some (?f p)" "getPeer st2 (Username (?g q)) = Some (?g q)"
    using getPeer_member [OF i2] mem by blast+
  then show ?thesis
    using 4 i2 pq by (intro exI [of _ st2] exI [of _ "?f p"] exI [of _ "?g q"]) (simp add: set_ovpn_def)
qed

lemma overlapping_attaches_collide_witness:
  "\<exists>st2 p q. attach_reach 2 demo_subnet sample_store (st2, []) \<and> getPeer st2 ''ann'' = Some p \<and>
     getPeer st2 ''bob'' = Some q \<and> OvpnIP p = OvpnIP q"
proof -
  obtain ip where ip: "ovpnNextFreeIP demo_subnet sample_store = Inr ip"
    using demo_ovpn_alloc [OF sample_ovpn_free] by blast
  have m: "ann \<in> set (allPeers sample_store)" "bob \<in> set (allPeers sample_store)"
    by (simp_all add: allPeers_def sample_store_def)
  have n: "ID ann \<noteq> ID bob" "Username ann = ''ann''" "Username bob = ''bob''"
    by (simp_all add: ann_def bob_def default_row_def)
  obtain st2 p q where "attach_reach 2 demo_subnet sample_store (st2, [])"
    "getPeer st2 ''ann'' = Some p" "getPeer st2 ''bob'' = Some q" "OvpnIP p = ip" "OvpnIP q = ip"
    using overlapping_attaches_collide [OF sample_store_inv m n(1) ip order_refl] unfolding n(2,3) by blast
  then show ?thesis by (intro exI [of _ st2] exI [of _ p] exI [of _ q]) simp
qed

text \<open>
  On the WireGuard side the unique index catches the same race: of two creations that have chosen the same
  address, the second insert is refused.
\<close>

theorem wg_race_refused:
  assumes "store_inv st" and "sql_insert (new_wg_row u k1 ip quota1 exp1) st = Inr st1" and "ip \<noteq> []"
  shows "\<exists>e. sql_insert (new_wg_row v k2 ip quota2 exp2) st1 = Inl e"
proof -
  have "ip \<in> Address ` set (rows st1)"
    using assms(2) by (auto simp: sql_insert_def new_wg_row_def split: option.splits prod.splits)
  then have "conflict (rows st1) (new_wg_row v k2 ip quota2 exp2) \<noteq> None"
    using assms(3) by (simp add: conflict_None new_wg_row_def split: prod.split)
  then show ?thesis by (auto simp: sql_insert_def)
qed

lemma wg_race_refused_witness:
  "\<exists>st1 e. sql_insert (new_wg_row ''eve'' (''a'', ''b'', ''c'') ''10.66.66.9'' 0 []) empty_store = Inr st1 \<and>
     sql_insert (new_wg_row ''zoe'' (''d'', ''f'', ''g'') ''10.66.66.9'' 0 []) st1 = Inl e"
proof -
  have "conflict [] p = None" for p by (simp add: conflict_def)
  then obtain st1 where s: "sql_insert (new_wg_row ''eve'' (''a'', ''b'', ''c'') ''10.66.66.9'' 0 []) empty_store = Inr st1"
    by (simp add: sql_insert_def empty_store_def)
  from wg_race_refused [OF store_inv_empty s] s show ?thesis by blast
qed

end
