(* ===== verification/Metering.thy ===== *)
theory Metering
  imports Enforce
begin

text \<open>
  What the delta carry-over of enforce.go counts.  A meter keeps a running total and the last reading of
  each counter it follows (two for WireGuard, one for OpenVPN); the locale \<open>usage_meter\<close> states that one
  step adds, in 64-bit arithmetic, the growth of every counter.  A counter restarts from zero when the
  interface or the session does: its readings are a list of epochs, each ascending, and the traffic is
  the sum of the last readings of the epochs.  The lemmas compare the two.
\<close>

text \<open>The growth counted over a list of readings of one counter.\<close>

fun counted :: "int \<Rightarrow> int list \<Rightarrow> int" where
  "counted old [] = 0"
| "counted old (x # xs) = (if x < old then x else x - old) + counted x xs"

definition is_epoch :: "int list \<Rightarrow> bool" where
  "is_epoch e \<longleftrightarrow> e \<noteq> [] \<and> 0 \<le> hd e \<and> sorted e"

definition traffic :: "int list list \<Rightarrow> int" where
  "traffic es = sum_list (map last es)"

text \<open>Every restart shows: the first reading after it is below the last one before it.\<close>

fun restarts_seen :: "int \<Rightarrow> int list list \<Rightarrow> bool" where
  "restarts_seen old [] \<longleftrightarrow> True"
| "restarts_seen old (e # es) \<longleftrightarrow> (hd e < old \<or> old = 0) \<and> restarts_seen (last e) es"

lemma counted_sorted_append:
  "sorted (x # e) \<Longrightarrow> counted x (e @ xs) = last (x # e) - x + counted (last (x # e)) xs"
proof (induction e arbitrary: x)
  case (Cons y e)
  then have "x \<le> y" and "sorted (y # e)" by auto
  with Cons.IH [of y] show ?case by auto
qed simp

lemma counted_epoch:
  assumes "is_epoch e"
  shows "counted old (e @ xs) = (if hd e < old then last e else last e - old) + counted (last e) xs"
  using assms counted_sorted_append [of "hd e" "tl e" xs]
  by (cases e) (auto simp: is_epoch_def)

lemma epoch_last_nonneg:
  assumes "is_epoch e"
  shows "0 \<le> last e"
proof -
  have e: "e \<noteq> []" "0 \<le> hd e" "sorted e" using assms by (auto simp: is_epoch_def)
  have "hd e \<le> last e"
    using e(1,3) by (cases e) (auto dest: last_in_set)
  with e(2) show ?thesis by linarith
qed

lemma counted_le_traffic:
  "list_all is_epoch es \<Longrightarrow> 0 \<le> old \<Longrightarrow> counted old (concat es) \<le> traffic es"
proof (induction es arbitrary: old)
  case (Cons e es)
  have e: "is_epoch e" using Cons.prems by simp
  have "counted (last e) (concat es) \<le> traffic es"
    using Cons epoch_last_nonneg [OF e] by simp
  with Cons.prems(2) counted_epoch [OF e, of old "concat es"] show ?case
    by (auto simp: traffic_def split: if_splits)
qed (simp add: traffic_def)

lemma counted_eq_traffic:
  "list_all is_epoch es \<Longrightarrow> 0 \<le> old \<Longrightarrow> restarts_seen old es \<Longrightarrow> counted old (concat es) = traffic es"
proof (induction es arbitrary: old)
  case (Cons e es)
  have e: "is_epoch e" using Cons.prems by simp
  have "counted (last e) (concat es) = traffic es"
    using Cons epoch_last_nonneg [OF e] by simp
  with Cons.prems counted_epoch [OF e, of old "concat es"] show ?case
    by (auto simp: traffic_def is_epoch_def split: if_splits)
qed (simp add: traffic_def)

section \<open>The interface\<close>

definition growth :: "int list \<Rightarrow> int list \<Rightarrow> int" where
  "growth olds curs = sum_list (map2 (\<lambda>o' c. if c < o' then c else c - o') olds curs)"

fun counted_all :: "int list \<Rightarrow> int list list \<Rightarrow> int" where
  "counted_all olds [] = 0"
| "counted_all olds (c # cs) = growth olds c + counted_all c cs"

locale usage_meter =
  fixes step :: "'s \<Rightarrow> 'r \<Rightarrow> 's"
    and total :: "'s \<Rightarrow> int"
    and marks :: "'s \<Rightarrow> int list"
    and comps :: "'r \<Rightarrow> int list"
  assumes step_marks: "marks (step s r) = comps r"
    and step_total: "total (step s r) = i64 (total s + growth (marks s) (comps r))"
begin

lemma total_after:
  "in_i64 (total s) \<Longrightarrow>
     total (foldl step s rs) = i64 (total s + counted_all (marks s) (map comps rs))"
proof (induction rs arbitrary: s)
  case (Cons r rs)
  have "in_i64 (total (step s r))" unfolding step_total by (rule i64_in_range)
  from Cons.IH [OF this] show ?case by (simp add: step_total step_marks add.assoc)
qed simp

lemma total_after_no_wrap:
  assumes "in_i64 (total s)" and "in_i64 (total s + counted_all (marks s) (map comps rs))"
  shows "total (foldl step s rs) = total s + counted_all (marks s) (map comps rs)"
  using total_after [OF assms(1), of rs] assms(2) by simp

text \<open>Reading the same counters twice adds nothing.\<close>

lemma same_reading: "total (step (step s r) r) = total (step s r)"
proof -
  have "growth xs xs = 0" for xs
    unfolding growth_def by (induction xs) auto
  then show ?thesis by (simp add: step_total [of "step s r"] step_marks) (simp add: step_total)
qed

end

lemma i64_delta: "i64 (a + delta o' c) = i64 (a + (if c < o' then c else c - o'))"
  by (simp add: delta_def)

interpretation wg_meter: usage_meter count_wg UsedBytes "\<lambda>p. [LastRx p, LastTx p]" "\<lambda>(rx, tx). [rx, tx]"
proof
  fix p :: peer and r :: "int \<times> int"
  obtain rx tx where r: "r = (rx, tx)" by (cases r)
  show "[LastRx (count_wg p r), LastTx (count_wg p r)] = (case r of (rx, tx) \<Rightarrow> [rx, tx])"
    by (simp add: r count_wg_def)
  have "i64 (UsedBytes p + (delta (LastRx p) rx + delta (LastTx p) tx)) =
    i64 (UsedBytes p + ((if rx < LastRx p then rx else rx - LastRx p) +
      (if tx < LastTx p then tx else tx - LastTx p)))"
    using i64_delta [of "UsedBytes p + delta (LastRx p) rx" "LastTx p" tx]
      i64_delta [of "UsedBytes p + (if tx < LastTx p then tx else tx - LastTx p)" "LastRx p" rx]
    by (simp only: ac_simps)
  then show "UsedBytes (count_wg p r) =
    i64 (UsedBytes p + growth [LastRx p, LastTx p] (case r of (rx, tx) \<Rightarrow> [rx, tx]))"
    by (simp add: r count_wg_def growth_def)
qed

interpretation ovpn_meter: usage_meter count_ovpn UsedOvpnBytes "\<lambda>p. [LastOvpnBytes p]" "\<lambda>c. [c]"
  by unfold_locales (simp_all add: count_ovpn_def growth_def i64_delta)

lemma counted_all_pair:
  "counted_all [a, b] (map (\<lambda>(x, y). [x, y]) rs) = counted a (map fst rs) + counted b (map snd rs)"
  by (induction rs arbitrary: a b) (auto simp: growth_def)

lemma counted_all_single: "counted_all [a] (map (\<lambda>x. [x]) rs) = counted a rs"
  by (induction rs arbitrary: a) (auto simp: growth_def)

lemma counted_nonneg: "0 \<le> old \<Longrightarrow> list_all (\<lambda>x. 0 \<le> x) xs \<Longrightarrow> 0 \<le> counted old xs"
  by (induction xs arbitrary: old) auto

lemma epochs_nonneg: "list_all is_epoch es \<Longrightarrow> list_all (\<lambda>x. 0 \<le> x) (concat es)"
proof (induction es)
  case (Cons e es)
  then have e: "is_epoch e" by simp
  have "0 \<le> x" if "x \<in> set e" for x
    using e that by (cases e) (auto simp: is_epoch_def)
  with Cons show ?case by (auto simp: list_all_iff)
qed simp

lemma traffic_nonneg: "list_all is_epoch es \<Longrightarrow> 0 \<le> traffic es"
  using counted_le_traffic [of es 0] counted_nonneg [of 0 "concat es"] epochs_nonneg [of es] by simp

text \<open>Both meters of a peer, over epochs of their counters, from fresh marks.\<close>

lemma wg_total_bound:
  assumes "list_all is_epoch rxs" "list_all is_epoch txs"
    and "map fst rs = concat rxs" "map snd rs = concat txs"
    and "LastRx p = 0" "LastTx p = 0" "0 \<le> UsedBytes p"
    and fits: "UsedBytes p + traffic rxs + traffic txs < 2 ^ 63"
  shows "UsedBytes (foldl count_wg p rs) = UsedBytes p + counted 0 (concat rxs) + counted 0 (concat txs)"
proof -
  have c: "counted_all [LastRx p, LastTx p] (map (\<lambda>(x, y). [x, y]) rs) =
    counted 0 (concat rxs) + counted 0 (concat txs)"
    by (simp add: counted_all_pair assms)
  have n: "0 \<le> counted 0 (concat rxs)" "0 \<le> counted 0 (concat txs)"
    using assms(1,2) by (simp_all add: counted_nonneg epochs_nonneg)
  have l: "counted 0 (concat rxs) \<le> traffic rxs" "counted 0 (concat txs) \<le> traffic txs"
    using assms(1,2) by (simp_all add: counted_le_traffic)
  have "in_i64 (UsedBytes p)"
    using assms(7) fits traffic_nonneg [OF assms(1)] traffic_nonneg [OF assms(2)]
    unfolding in_i64_def by linarith
  moreover have "in_i64 (UsedBytes p + counted_all [LastRx p, LastTx p] (map (\<lambda>(x, y). [x, y]) rs))"
    unfolding c in_i64_def using assms(7) fits n l by linarith
  ultimately show ?thesis
    using wg_meter.total_after_no_wrap [of p rs] c by simp
qed

section \<open>Properties\<close>

text \<open>
  C12. Usage survives restarts of the interface without over-billing: whatever the readings, the bytes billed
  for a user never exceed what the counters carried, and when each restart shows as a smaller reading the bill
  is exactly the traffic of all epochs in both directions.
\<close>

theorem wg_usage_survives_restarts:
  assumes "list_all is_epoch rxs" "list_all is_epoch txs"
    and "map fst rs = concat rxs" "map snd rs = concat txs"
    and "LastRx p = 0" "LastTx p = 0" "0 \<le> UsedBytes p"
    and "UsedBytes p + traffic rxs + traffic txs < 2 ^ 63"
  shows "UsedBytes (foldl count_wg p rs) \<le> UsedBytes p + traffic rxs + traffic txs \<and>
    (restarts_seen 0 rxs \<and> restarts_seen 0 txs \<longrightarrow>
      UsedBytes (foldl count_wg p rs) = UsedBytes p + traffic rxs + traffic txs)"
  unfolding wg_total_bound [OF assms]
  using counted_le_traffic [OF assms(1), of 0] counted_le_traffic [OF assms(2), of 0]
    counted_eq_traffic [OF assms(1), of 0] counted_eq_traffic [OF assms(2), of 0] by auto

lemma wg_usage_survives_restarts_witness:
  "UsedBytes (foldl count_wg default_row [(5, 1), (9, 4), (2, 2), (3, 7)]) = 0 + (9 + 3) + (4 + 7)"
  using wg_usage_survives_restarts [of "[[5, 9], [2, 3]]" "[[1, 4], [2, 7]]" "[(5, 1), (9, 4), (2, 2), (3, 7)]"
      default_row]
  by (simp add: is_epoch_def traffic_def default_row_def)

text \<open>
  C13. The same for OpenVPN: a session counter that restarts at every reconnect is billed at most, and with
  visible reconnects exactly, for the bytes of all sessions.
\<close>

theorem ovpn_usage_survives_reconnects:
  assumes "list_all is_epoch es" and "LastOvpnBytes p = 0" and "0 \<le> UsedOvpnBytes p"
    and "UsedOvpnBytes p + traffic es < 2 ^ 63"
  shows "UsedOvpnBytes (foldl count_ovpn p (concat es)) \<le> UsedOvpnBytes p + traffic es \<and>
    (restarts_seen 0 es \<longrightarrow> UsedOvpnBytes (foldl count_ovpn p (concat es)) = UsedOvpnBytes p + traffic es)"
proof -
  have n: "0 \<le> counted 0 (concat es)" using assms(1) by (simp add: counted_nonneg epochs_nonneg)
  have l: "counted 0 (concat es) \<le> traffic es" using assms(1) by (simp add: counted_le_traffic)
  have "in_i64 (UsedOvpnBytes p)" "in_i64 (UsedOvpnBytes p + counted 0 (concat es))"
    unfolding in_i64_def using assms(3,4) n l by linarith+
  then have "UsedOvpnBytes (foldl count_ovpn p (concat es)) = UsedOvpnBytes p + counted 0 (concat es)"
    using ovpn_meter.total_after_no_wrap [of p "concat es"] assms(2) by (simp add: counted_all_single)
  with l show ?thesis using counted_eq_traffic [OF assms(1), of 0] by auto
qed

lemma ovpn_usage_survives_reconnects_witness:
  "UsedOvpnBytes (foldl count_ovpn default_row [10, 25, 4, 30]) = 0 + (25 + 30)"
  using ovpn_usage_survives_reconnects [of "[[10, 25], [4, 30]]" default_row]
  by (simp add: is_epoch_def traffic_def default_row_def)

end
