(* ===== verification/Reset.thy ===== *)
theory Reset
  imports Metering Blocking Complex_Main
begin

text \<open>
  reset.go: recharging a user.  A reset zeroes the billing period and takes the counters' present values
  as the next baseline (\<open>readResetCounters\<close>); the quota may be set or increased in the same transaction.
  The older command-line path of main.go, \<^verbatim>\<open>wgmgr recharge --reset\<close>, is modelled beside it.

  A JSON number is a Go \<^verbatim>\<open>float64\<close>: a rational, an infinity or NaN.  Multiplying by 1024 is exact, and the
  conversion to \<^verbatim>\<open>int64\<close> truncates; out of range it gives \<open>-2^63\<close>, as on amd64, the platform of the install
  script.
\<close>

section \<open>JSON numbers\<close>

datatype f64 = Fin rat | PInf | NInf | NaN

datatype json = JNull | JBool bool | JNum f64 | JStr string

type_synonym body = "string \<Rightarrow> json option"

definition trunc_rat :: "rat \<Rightarrow> int" where
  "trunc_rat q = (if q < 0 then - \<lfloor>- q\<rfloor> else \<lfloor>q\<rfloor>)"

definition f64_to_int :: "f64 \<Rightarrow> int" where
  "f64_to_int v =
     (case v of Fin q \<Rightarrow> if in_i64 (trunc_rat q) then trunc_rat q else - (2 ^ 63) | _ \<Rightarrow> - (2 ^ 63))"

definition gib :: int where "gib = 1024 * 1024 * 1024"

definition gbToBytes :: "f64 \<Rightarrow> int" where
  "gbToBytes v = f64_to_int (case v of Fin q \<Rightarrow> Fin (q * of_int gib) | _ \<Rightarrow> v)"

text \<open>\<^verbatim>\<open>n >= float64(math.MaxInt64)/(1024*1024*1024)\<close>: the bound is the double \<open>2^33\<close>.\<close>

definition gb_amount_ok :: "f64 \<Rightarrow> bool" where
  "gb_amount_ok v = (case v of Fin q \<Rightarrow> 0 \<le> q \<and> q < 2 ^ 33 | _ \<Rightarrow> False)"

lemma gbToBytes_in_range: "in_i64 (gbToBytes v)"
  by (auto simp: gbToBytes_def f64_to_int_def in_i64_def split: f64.splits)

lemma trunc_rat_nonneg: "0 \<le> q \<Longrightarrow> trunc_rat q = \<lfloor>q\<rfloor>"
  by (simp add: trunc_rat_def)

lemma gbToBytes_ok:
  assumes "gb_amount_ok (Fin q)"
  shows "gbToBytes (Fin q) = \<lfloor>q * of_int gib\<rfloor>" and "0 \<le> gbToBytes (Fin q)"
proof -
  have q: "0 \<le> q" "q < 2 ^ 33" using assms by (simp_all add: gb_amount_ok_def)
  have "q * of_int gib < 2 ^ 33 * of_int gib"
    using q(2) by (intro mult_strict_right_mono) (simp_all add: gib_def)
  then have "q * of_int gib < of_int (2 ^ 63)" by (simp add: gib_def)
  then have hi: "\<lfloor>q * of_int gib\<rfloor> < 2 ^ 63" by (simp only: floor_less_iff)
  have "0 \<le> q * of_int gib" using q(1) by (simp add: gib_def)
  then have lo: "0 \<le> \<lfloor>q * of_int gib\<rfloor>" and t: "trunc_rat (q * of_int gib) = \<lfloor>q * of_int gib\<rfloor>"
    by (simp_all add: trunc_rat_nonneg)
  have "in_i64 (trunc_rat (q * of_int gib))" unfolding t in_i64_def using lo hi by linarith
  then show "gbToBytes (Fin q) = \<lfloor>q * of_int gib\<rfloor>" by (simp add: gbToBytes_def f64_to_int_def t)
  with lo show "0 \<le> gbToBytes (Fin q)" by simp
qed

section \<open>Reading the baseline\<close>

record resetCounters =
  rc_rx :: int
  rc_tx :: int
  rc_ovpn :: int

text \<open>One line of the transfer listing, for the key of the peer.\<close>

definition reset_line :: "string \<Rightarrow> string + resetCounters \<Rightarrow> string \<Rightarrow> string + resetCounters" where
  "reset_line key acc line =
     (case acc of
        Inl e \<Rightarrow> Inl e
      | Inr c \<Rightarrow>
          (let f = str_fields line in
           if f = [] \<or> hd f \<noteq> key then Inr c
           else if length f \<noteq> 3 then Inl ''invalid WireGuard counter row''
           else (let (rx, rxErr) = parse_int64 (f ! 1); (tx, txErr) = parse_int64 (f ! 2) in
             if rxErr \<noteq> None \<or> txErr \<noteq> None \<or> rx < 0 \<or> tx < 0
             then Inl ''invalid WireGuard byte counters''
             else Inr (c\<lparr>rc_rx := rx, rc_tx := tx\<rparr>))))"

definition reset_wg :: "'k os \<Rightarrow> config \<Rightarrow> peer \<Rightarrow> resetCounters \<Rightarrow> ('k world, resetCounters) prog" where
  "reset_wg os cfg p c w =
     (if PublicKey p = [] then (Inr c, w)
      else case run os ''wg'' [''show'', Interface cfg, ''transfer''] w of
        ((_, Some e), w') \<Rightarrow> (Inl (''cannot read WireGuard counters: '' @ e), w')
      | ((out, None), w') \<Rightarrow>
          (foldl (reset_line (PublicKey p)) (Inr c) (split_on CHR 0x0A out), w'))"

definition ovpn_count :: "(string \<Rightarrow> int option) \<Rightarrow> string \<Rightarrow> int" where
  "ovpn_count m cn = (case m cn of None \<Rightarrow> 0 | Some v \<Rightarrow> v)"

definition status_complete :: "string \<Rightarrow> bool" where
  "status_complete b \<longleftrightarrow> contains ([CHR 0x0A] @ replace_all b [CHR 0x0D] []) ([CHR 0x0A] @ ''END'')"

definition reset_ovpn :: "'k os \<Rightarrow> config \<Rightarrow> peer \<Rightarrow> resetCounters \<Rightarrow> 'k world \<Rightarrow> string + resetCounters" where
  "reset_ovpn os cfg p c w =
     (if OvpnCN p = [] then Inr c
      else if OvpnMgmt cfg = [] \<and> OvpnStatus cfg = [] then Inl ''OpenVPN traffic tracking is not configured''
      else (let statusFile = resolveOvpnStatus cfg (files w) in
        case (if statusFile = [] then None else files w statusFile) of
          Some f \<Rightarrow>
            if now w - mtime f > 120 * second
            then Inl ''OpenVPN status is stale; retry after accounting recovers''
            else if \<not> status_complete (content f) then Inl ''OpenVPN status is incomplete; retry reset''
            else Inr (c\<lparr>rc_ovpn := ovpn_count (parseOvpnStatus (content f)) (OvpnCN p)\<rparr>)
        | None \<Rightarrow>
            if OvpnMgmt cfg = [] then Inl ''cannot read OpenVPN counters''
            else (case ovpnUsageMgmt os (OvpnMgmt cfg) (kern w) of
                    Inl e \<Rightarrow> Inl (''cannot read OpenVPN counters: '' @ e)
                  | Inr usage \<Rightarrow> Inr (c\<lparr>rc_ovpn := ovpn_count usage (OvpnCN p)\<rparr>))))"

definition readResetCounters :: "'k os \<Rightarrow> config \<Rightarrow> peer \<Rightarrow> ('k world, resetCounters) prog" where
  "readResetCounters os cfg p =
     and_then (reset_wg os cfg p \<lparr>rc_rx = LastRx p, rc_tx = LastTx p, rc_ovpn = LastOvpnBytes p\<rparr>)
       (\<lambda>c w. (reset_ovpn os cfg p c w, w))"

section \<open>The recharge transaction\<close>

type_synonym 'k counter_reader = "config \<Rightarrow> peer \<Rightarrow> ('k world, resetCounters) prog"

definition amount_error :: "body \<Rightarrow> string \<Rightarrow> string option" where
  "amount_error m key =
     (case m key of
        None \<Rightarrow> None
      | Some (JNum n) \<Rightarrow> if gb_amount_ok n then None else Some (key @ '' must be a non-negative GB amount'')
      | Some _ \<Rightarrow> Some (key @ '' must be a non-negative GB amount''))"

definition recharge_error :: "body \<Rightarrow> string option" where
  "recharge_error m =
     (if m ''reset'' \<noteq> None \<and> m ''reset'' \<notin> {Some (JBool True), Some (JBool False)}
      then Some ''reset must be a boolean''
      else case amount_error m ''set_gb'' of
        Some e \<Rightarrow> Some e
      | None \<Rightarrow>
          (case amount_error m ''add_gb'' of
             Some e \<Rightarrow> Some e
           | None \<Rightarrow>
               if m ''reset'' \<noteq> Some (JBool True) \<and> m ''set_gb'' = None \<and> m ''add_gb'' = None
               then Some ''recharge needs reset, set_gb, or add_gb'' else None))"

definition apply_reset :: "resetCounters \<Rightarrow> peer \<Rightarrow> peer" where
  "apply_reset c r = r\<lparr>UsedBytes := 0, UsedOvpnBytes := 0, LastRx := rc_rx c, LastTx := rc_tx c,
     LastOvpnBytes := rc_ovpn c\<rparr>"

text \<open>
  \<^verbatim>\<open>quota_bytes+?\<close> in SQLite does not wrap: a sum beyond 64 bits is stored as a floating-point value.  The
  model keeps the exact sum in the column, and \<open>scannable\<close> says whether \<^verbatim>\<open>scanPeer\<close> can read the row back
  into an \<^verbatim>\<open>int64\<close> field.
\<close>

definition scannable :: "peer \<Rightarrow> bool" where
  "scannable r \<longleftrightarrow> in_i64 (QuotaBytes r)"

definition num_of :: "json option \<Rightarrow> f64 option" where
  "num_of v = (case v of Some (JNum n) \<Rightarrow> Some n | _ \<Rightarrow> None)"

definition recharge_tx :: "body \<Rightarrow> resetCounters option \<Rightarrow> int \<Rightarrow> store \<Rightarrow> string + store" where
  "recharge_tx m rc i st0 =
     (case (case rc of None \<Rightarrow> Inr st0 | Some c \<Rightarrow> sql_update i (apply_reset c) st0) of
        Inl e \<Rightarrow> Inl e
      | Inr st1 \<Rightarrow>
     (case (case num_of (m ''set_gb'') of None \<Rightarrow> Inr st1
              | Some v \<Rightarrow> sql_update i (\<lambda>r. r\<lparr>QuotaBytes := gbToBytes v\<rparr>) st1) of
        Inl e \<Rightarrow> Inl e
      | Inr st2 \<Rightarrow>
          (case num_of (m ''add_gb'') of None \<Rightarrow> Inr st2
             | Some v \<Rightarrow> sql_update i (\<lambda>r. r\<lparr>QuotaBytes := QuotaBytes r + gbToBytes v\<rparr>) st2)))"

definition rechargePeer ::
  "config \<Rightarrow> string \<Rightarrow> body \<Rightarrow> 'k counter_reader \<Rightarrow> ('k world, unit) prog" where
  "rechargePeer cfg username m snapshot w =
     (case getPeer (db w) username of
        None \<Rightarrow> (Inl (''no such user '' @ quoted username), w)
      | Some p \<Rightarrow>
          (case recharge_error m of
             Some e \<Rightarrow> (Inl e, w)
           | None \<Rightarrow>
               (case (if m ''reset'' = Some (JBool True)
                      then (case snapshot cfg p w of (Inl e, w') \<Rightarrow> (Inl e, w') | (Inr c, w') \<Rightarrow> (Inr (Some c), w'))
                      else (Inr None, w)) of
                  (Inl e, w') \<Rightarrow> (Inl e, w')
                | (Inr rc, w') \<Rightarrow>
                    (case recharge_tx m rc (ID p) (db w') of
                       Inl e \<Rightarrow> (Inl e, w')
                     | Inr st \<Rightarrow> (Inr (), w'\<lparr>db := st\<rparr>)))))"

text \<open>main.go, \<^verbatim>\<open>case "recharge"\<close>: the statement the command line runs for \<^verbatim>\<open>--reset\<close>.\<close>

definition cli_reset :: "int \<Rightarrow> store \<Rightarrow> store" where
  "cli_reset i = sql_update_ign i (\<lambda>r. r\<lparr>UsedBytes := 0, LastRx := 0, LastTx := 0\<rparr>)"

section \<open>What a recharge does\<close>

definition recharged :: "body \<Rightarrow> resetCounters option \<Rightarrow> peer \<Rightarrow> peer" where
  "recharged m rc r =
     (let r1 = (case rc of None \<Rightarrow> r | Some c \<Rightarrow> apply_reset c r);
          r2 = (case num_of (m ''set_gb'') of None \<Rightarrow> r1 | Some v \<Rightarrow> r1\<lparr>QuotaBytes := gbToBytes v\<rparr>)
      in case num_of (m ''add_gb'') of None \<Rightarrow> r2
         | Some v \<Rightarrow> r2\<lparr>QuotaBytes := QuotaBytes r2 + gbToBytes v\<rparr>)"

lemma keeps_keys_recharge [simp]:
  "keeps_keys (apply_reset c)" "keeps_keys (\<lambda>r. r\<lparr>QuotaBytes := q r\<rparr>)"
  "keeps_keys (recharged m rc)"
  by (simp_all add: keeps_keys_def apply_reset_def recharged_def Let_def split: option.splits)

lemma keeps_keysD: "keeps_keys f \<Longrightarrow> ID (f r) = ID r"
  by (simp add: keeps_keys_def)

text \<open>The transaction always commits, and is one update of the row.\<close>

lemma recharge_tx_commits:
  assumes "store_inv st"
  shows "recharge_tx m rc i st = Inr (st\<lparr>rows := update_rows i (recharged m rc) (rows st)\<rparr>)"
proof -
  define f1 where "f1 = (case rc of None \<Rightarrow> id | Some c \<Rightarrow> apply_reset c)"
  define f2 where "f2 = (case num_of (m ''set_gb'') of None \<Rightarrow> id | Some v \<Rightarrow> (\<lambda>r :: peer. r\<lparr>QuotaBytes := gbToBytes v\<rparr>))"
  define f3 where "f3 = (case num_of (m ''add_gb'') of None \<Rightarrow> id
    | Some v \<Rightarrow> (\<lambda>r :: peer. r\<lparr>QuotaBytes := QuotaBytes r + gbToBytes v\<rparr>))"
  have k: "keeps_keys f1" "keeps_keys f2" "keeps_keys f3"
    by (simp_all add: f1_def f2_def f3_def keeps_keys_def apply_reset_def split: option.splits)
  note i = k(1,2,3) [THEN keeps_keysD]
  define st1 where "st1 = st\<lparr>rows := update_rows i f1 (rows st)\<rparr>"
  define st2 where "st2 = st1\<lparr>rows := update_rows i f2 (rows st1)\<rparr>"
  have inv1: "store_inv st1" unfolding st1_def using assms k(1) by (rule store_inv_update_rows)
  have inv2: "store_inv st2" unfolding st2_def using inv1 k(2) by (rule store_inv_update_rows)
  have s: "update_rows i id rs = rs" for rs using update_rows_id by (simp add: id_def)
  have "(case rc of None \<Rightarrow> Inr st | Some c \<Rightarrow> sql_update i (apply_reset c) st) = Inr st1"
    by (simp add: st1_def f1_def s sql_update_keeps_keys [OF assms] split: option.split)
  moreover have "(case num_of (m ''set_gb'') of None \<Rightarrow> Inr st1
      | Some v \<Rightarrow> sql_update i (\<lambda>r. r\<lparr>QuotaBytes := gbToBytes v\<rparr>) st1) = Inr st2"
    by (simp add: st2_def f2_def s sql_update_keeps_keys [OF inv1] split: option.split)
  moreover have "(case num_of (m ''add_gb'') of None \<Rightarrow> Inr st2
      | Some v \<Rightarrow> sql_update i (\<lambda>r. r\<lparr>QuotaBytes := QuotaBytes r + gbToBytes v\<rparr>) st2) =
      Inr (st2\<lparr>rows := update_rows i f3 (rows st2)\<rparr>)"
    by (simp add: f3_def s sql_update_keeps_keys [OF inv2] split: option.split)
  ultimately have "recharge_tx m rc i st = Inr (st2\<lparr>rows := update_rows i f3 (rows st2)\<rparr>)"
    by (simp add: recharge_tx_def)
  also have "\<dots> = Inr (st\<lparr>rows := update_rows i (\<lambda>r. f3 (f2 (f1 r))) (rows st)\<rparr>)"
    by (simp add: st2_def st1_def update_rows_comp i)
  also have "(\<lambda>r. f3 (f2 (f1 r))) = recharged m rc"
    by (rule ext) (simp add: f1_def f2_def f3_def recharged_def Let_def split: option.split)
  finally show ?thesis .
qed

lemma update_rows_only:
  assumes inv: "store_inv st" and p: "getPeer st u = Some p" and f: "keeps_keys f"
  shows "getPeer (st\<lparr>rows := update_rows (ID p) f (rows st)\<rparr>) u = Some (f p)"
    and "v \<noteq> u \<Longrightarrow> getPeer (st\<lparr>rows := update_rows (ID p) f (rows st)\<rparr>) v = getPeer st v"
proof -
  have un: "Username (f r) = Username r" for r using f by (simp add: keeps_keys_def)
  show "getPeer (st\<lparr>rows := update_rows (ID p) f (rows st)\<rparr>) u = Some (f p)"
    by (simp add: getPeer_update [OF un] p)
  assume v: "v \<noteq> u"
  have "ID r \<noteq> ID p" if r: "getPeer st v = Some r" for r
  proof
    assume "ID r = ID p"
    moreover have "r \<in> set (rows st)" "p \<in> set (rows st)" "Username r = v" "Username p = u"
      using getPeer_Some [OF r] getPeer_Some [OF p] by auto
    ultimately have "r = p" using store_inv_ids [OF inv] by (metis distinct_map inj_onD)
    with v \<open>Username r = v\<close> \<open>Username p = u\<close> show False by simp
  qed
  then show "getPeer (st\<lparr>rows := update_rows (ID p) f (rows st)\<rparr>) v = getPeer st v"
    by (cases "getPeer st v") (auto simp: getPeer_update [OF un])
qed

lemma rechargePeer_ok:
  assumes inv: "store_inv (db w)" and p: "getPeer (db w) u = Some p"
    and reader: "\<And>r w'. snapshot cfg p w = (r, w') \<Longrightarrow> db w' = db w"
  shows "rechargePeer cfg u m snapshot w =
    (case recharge_error m of
       Some e \<Rightarrow> (Inl e, w)
     | None \<Rightarrow>
         if m ''reset'' = Some (JBool True) then
           (case snapshot cfg p w of
              (Inl e, w') \<Rightarrow> (Inl e, w')
            | (Inr c, w') \<Rightarrow>
                (Inr (), w'\<lparr>db := (db w)\<lparr>rows := update_rows (ID p) (recharged m (Some c)) (rows (db w))\<rparr>\<rparr>))
         else (Inr (), w\<lparr>db := (db w)\<lparr>rows := update_rows (ID p) (recharged m None) (rows (db w))\<rparr>\<rparr>))"
proof -
  obtain r w' where s: "snapshot cfg p w = (r, w')" by fastforce
  have d: "db w' = db w" by (rule reader [OF s])
  show ?thesis
    by (cases r) (simp_all add: rechargePeer_def p s d recharge_tx_commits [OF inv] split: option.split)
qed

lemma reset_wg_db: "reset_wg os cfg p c w = (r, w') \<Longrightarrow> db w' = db w"
  by (auto simp: reset_wg_def run_def exec_in_def split: if_splits prod.splits option.splits)

lemma readResetCounters_db: "readResetCounters os cfg p w = (r, w') \<Longrightarrow> db w' = db w"
  by (auto simp: readResetCounters_def and_then_def split: prod.splits sum.splits dest: reset_wg_db)

lemma rechargePeer_result:
  assumes inv: "store_inv (db w)" and p: "getPeer (db w) u = Some p"
    and run: "rechargePeer cfg u m (readResetCounters os) w = (res, w')"
  obtains (refused) e where "res = Inl e" "db w' = db w"
  | (committed) rc where "res = Inr ()" "recharge_error m = None" "rc \<noteq> None \<longleftrightarrow> m ''reset'' = Some (JBool True)"
      "db w' = (db w)\<lparr>rows := update_rows (ID p) (recharged m rc) (rows (db w))\<rparr>"
proof -
  have eq: "rechargePeer cfg u m (readResetCounters os) w =
    (case recharge_error m of
       Some e \<Rightarrow> (Inl e, w)
     | None \<Rightarrow>
         if m ''reset'' = Some (JBool True) then
           (case readResetCounters os cfg p w of
              (Inl e, w') \<Rightarrow> (Inl e, w')
            | (Inr c, w') \<Rightarrow>
                (Inr (), w'\<lparr>db := (db w)\<lparr>rows := update_rows (ID p) (recharged m (Some c)) (rows (db w))\<rparr>\<rparr>))
         else (Inr (), w\<lparr>db := (db w)\<lparr>rows := update_rows (ID p) (recharged m None) (rows (db w))\<rparr>\<rparr>))"
    by (rule rechargePeer_ok [OF inv p]) (rule readResetCounters_db)
  note R = run [unfolded eq]
  obtain r w1 where s: "readResetCounters os cfg p w = (r, w1)" by fastforce
  note d = readResetCounters_db [OF s]
  show thesis
  proof (cases "m ''reset'' = Some (JBool True)")
    case True
    note reset = True
    show thesis
    proof (cases "recharge_error m")
      case (Some e)
      with R show thesis by (intro refused [of e]) auto
    next
      case None
      with R s d reset show thesis
        by (cases r) (auto intro: refused committed [of "Some c" for c])
    qed
  next
    case False
    with R show thesis by (auto intro: refused committed [of None] split: option.splits)
  qed
qed

section \<open>Properties\<close>



text \<open>A recharge of the sample user: 2 GB more.\<close>

definition two_more :: body where
  "two_more = [''add_gb'' \<mapsto> JNum (Fin 2)]"

lemma getPeer_ann: "getPeer sample_store ''ann'' = Some ann"
  by (simp add: getPeer_def sample_store_def ann_def bob_def default_row_def)



text \<open>
  C39. The command line's \<^verbatim>\<open>recharge --reset\<close> does not start a new period: it zeroes the marks as well, so the
  next pass bills the tunnel's whole cumulative counters again.
\<close>

theorem cli_reset_bills_everything:
  assumes "store_inv st" and "getPeer st u = Some p" and "PublicKey p \<noteq> []"
    and "tr (PublicKey p) = Some (rx, tx)" and "0 \<le> rx" "0 \<le> tx" "rx + tx < 2 ^ 63"
  shows "\<exists>q. getPeer (cli_reset (ID p) st) u = Some q \<and> UsedBytes q = 0 \<and>
    UsedBytes (settle tr ov t q) = rx + tx"
proof -
  let ?f = "\<lambda>r :: peer. r\<lparr>UsedBytes := 0, LastRx := 0, LastTx := 0\<rparr>"
  have k: "keeps_keys ?f" by (simp add: keeps_keys_def)
  have st: "cli_reset (ID p) st = st\<lparr>rows := update_rows (ID p) ?f (rows st)\<rparr>"
    unfolding cli_reset_def by (rule sql_update_ign_keeps_keys [OF assms(1) k])
  have q: "getPeer (cli_reset (ID p) st) u = Some (?f p)"
    unfolding st by (rule update_rows_only(1) [OF assms(1,2) k])
  have r: "in_i64 rx" "in_i64 tx" "in_i64 (rx + tx)" unfolding in_i64_def using assms(5-7) by linarith+
  have "bill_wg tr (?f p) = count_wg (?f p) (rx, tx)"
    using assms(3,4) by (simp add: bill_wg_def)
  then have "UsedBytes (bill_wg tr (?f p)) = rx + tx"
    using r assms(5,6) by (simp add: count_wg_def delta_def)
  then have "UsedBytes (settle tr ov t (?f p)) = rx + tx"
    by (simp add: settle_def Let_def bill_ovpn_def count_ovpn_def split: option.split)
  with q show ?thesis by auto
qed

lemma cli_reset_bills_everything_witness:
  "\<exists>q. getPeer (cli_reset 1 sample_store) ''ann'' = Some q \<and>
     UsedBytes (settle [''KA'' \<mapsto> (500, 70)] Map.empty 0 q) = 570"
proof -
  have a: "ID ann = 1" "PublicKey ann = ''KA''" by (simp_all add: ann_def default_row_def)
  show ?thesis
    using cli_reset_bills_everything [OF sample_store_inv getPeer_ann, of "[''KA'' \<mapsto> (500, 70)]" 500 70 Map.empty 0]
    unfolding a by auto
qed

text \<open>
  C32. A recharge keeps a quota the program can read back as long as the new total stays below \<open>2^63\<close> bytes:
  setting alone always does, and what \<open>set_gb\<close> writes is the amount rounded down to whole bytes.
\<close>

theorem recharge_quota:
  assumes "recharge_error m = None" and "scannable p" and "0 \<le> QuotaBytes p"
    and "m ''add_gb'' = None \<or> QuotaBytes (recharged m rc p) < 2 ^ 63"
  shows "scannable (recharged m rc p) \<and> 0 \<le> QuotaBytes (recharged m rc p) \<and>
    (\<forall>q. m ''set_gb'' = Some (JNum (Fin q)) \<and> m ''add_gb'' = None \<longrightarrow>
       QuotaBytes (recharged m rc p) = \<lfloor>q * of_int gib\<rfloor>)"
proof -
  have ok: "0 \<le> gbToBytes v" if "m key = Some (JNum v)" "key \<in> {''set_gb'', ''add_gb''}" for v key
  proof -
    have "amount_error m key = None"
      using assms(1) that(2) by (auto simp: recharge_error_def split: if_splits option.splits)
    then have "gb_amount_ok v" using that(1) by (simp add: amount_error_def split: if_splits)
    then show ?thesis by (cases v) (auto simp: gb_amount_ok_def intro!: gbToBytes_ok(2))
  qed
  have s: "num_of (m k) = Some v \<longleftrightarrow> m k = Some (JNum v)" for k v
    by (auto simp: num_of_def split: option.splits json.splits)
  have n: "num_of None = None" by (simp add: num_of_def)
  define q1 where "q1 = (case num_of (m ''set_gb'') of None \<Rightarrow> QuotaBytes p | Some v \<Rightarrow> gbToBytes v)"
  have q: "QuotaBytes (recharged m rc p) =
    q1 + (case num_of (m ''add_gb'') of None \<Rightarrow> 0 | Some v \<Rightarrow> gbToBytes v)"
    by (simp add: recharged_def q1_def Let_def apply_reset_def split: option.split)
  have q1: "0 \<le> q1" "in_i64 q1"
    using assms(2,3) ok [of "''set_gb''"] s [of "''set_gb''"] gbToBytes_in_range
    by (auto simp: q1_def scannable_def split: option.splits)
  have a: "0 \<le> (case num_of (m ''add_gb'') of None \<Rightarrow> 0 | Some v \<Rightarrow> gbToBytes v)"
    using ok [of "''add_gb''"] s [of "''add_gb''"] by (auto split: option.splits)
  have "scannable (recharged m rc p)"
  proof (cases "m ''add_gb''")
    case None
    then show ?thesis using q1 by (simp add: scannable_def q n)
  next
    case (Some v)
    then have "QuotaBytes (recharged m rc p) < 2 ^ 63" using assms(4) by simp
    moreover have "0 \<le> QuotaBytes (recharged m rc p)" using q q1(1) a by linarith
    ultimately show ?thesis unfolding scannable_def in_i64_def by linarith
  qed
  moreover have "QuotaBytes (recharged m rc p) = \<lfloor>x * of_int gib\<rfloor>"
    if "m ''set_gb'' = Some (JNum (Fin x))" "m ''add_gb'' = None" for x
  proof -
    have "amount_error m ''set_gb'' = None"
      using assms(1) by (auto simp: recharge_error_def split: if_splits option.splits)
    then have "gb_amount_ok (Fin x)" using that(1) by (simp add: amount_error_def split: if_splits)
    then show ?thesis using that by (simp add: q q1_def n num_of_def gbToBytes_ok(1))
  qed
  moreover have "0 \<le> QuotaBytes (recharged m rc p)" using q q1(1) a by linarith
  ultimately show ?thesis by blast
qed

lemma recharge_quota_witness:
  "scannable (recharged two_more None ann) \<and> 0 \<le> QuotaBytes (recharged two_more None ann)"
proof -
  have "recharge_error two_more = None"
    by (simp add: recharge_error_def amount_error_def two_more_def gb_amount_ok_def)
  moreover have "QuotaBytes (recharged two_more None ann) = 100 + gbToBytes (Fin 2)"
    by (simp add: recharged_def two_more_def num_of_def ann_def)
  moreover have "gbToBytes (Fin 2) = 2 * gib"
  proof -
    have "(2 :: rat) * of_int gib = of_int (2 * gib)" by simp
    then show ?thesis using gbToBytes_ok(1) [of 2] by (simp only: floor_of_int) (simp add: gb_amount_ok_def)
  qed
  moreover have "scannable ann" "0 \<le> QuotaBytes ann" by (simp_all add: scannable_def in_i64_def ann_def)
  ultimately show ?thesis using recharge_quota [of two_more ann None] by (simp add: gib_def)
qed

definition huge :: body where
  "huge = [''set_gb'' \<mapsto> JNum (Fin (2 ^ 33 - 1)), ''add_gb'' \<mapsto> JNum (Fin (2 ^ 33 - 1))]"

text \<open>
  The bound on one amount does not bound the sum: some accepted request leaves a quota that no longer
  fits the field it is read into.
\<close>

theorem recharge_sum_can_overflow: "recharge_error huge = None \<and> \<not> scannable (recharged huge None p)"
proof -
  have ok: "gb_amount_ok (Fin (2 ^ 33 - 1))" by (simp add: gb_amount_ok_def)
  have e: "recharge_error huge = None"
    using ok by (simp add: recharge_error_def amount_error_def huge_def)
  have "(2 ^ 33 - 1) * of_int gib = (of_int ((2 ^ 33 - 1) * gib) :: rat)" by (simp add: gib_def)
  then have "gbToBytes (Fin (2 ^ 33 - 1)) = (2 ^ 33 - 1) * gib"
    using gbToBytes_ok(1) [OF ok] by (simp only: floor_of_int)
  then have "QuotaBytes (recharged huge None p) = (2 ^ 33 - 1) * gib + (2 ^ 33 - 1) * gib"
    by (simp add: recharged_def huge_def num_of_def Let_def)
  with e show ?thesis by (simp add: scannable_def in_i64_def gib_def)
qed

end
