(* ===== verification/Host.thy ===== *)
theory Host
  imports Ovpn "HOL-Library.Char_ord" "HOL-Library.List_Lexorder"
begin

text \<open>
  The host services of main.go and migration.go that several commands share: command-line flags
  (\<^verbatim>\<open>parseFlags\<close>), systemd units (\<^verbatim>\<open>serviceState\<close>, \<^verbatim>\<open>existingOpenVPNUnit\<close>, \<^verbatim>\<open>activeOpenvpnUnit\<close>, \<^verbatim>\<open>cmdRestart\<close>),
  backups (\<^verbatim>\<open>backupFile\<close>, subnet.go), the copy of \<^verbatim>\<open>server.conf\<close> for the newer unit
  (\<^verbatim>\<open>syncOpenVPNServerUnitConfig\<close>), and uninstalling.  What is only printed is left out; a command run with
  the terminal attached (\<^verbatim>\<open>runInteractive\<close>) is a command like any other.
\<close>

section \<open>Flags\<close>

type_synonym flags = "string \<Rightarrow> string option"

text \<open>
  One pass over the arguments: \<^verbatim>\<open>--key=value\<close>, \<^verbatim>\<open>--key value\<close> unless the next argument is itself a flag, and
  \<^verbatim>\<open>--key\<close> for \<^verbatim>\<open>true\<close>.  A repeated flag keeps its last value.
\<close>

fun parse_flags :: "string list \<Rightarrow> flags \<Rightarrow> string list \<Rightarrow> string list \<times> flags" where
  "parse_flags ps m [] = (rev ps, m)"
| "parse_flags ps m [a] =
     (if has_prefix a ''--'' then
        (case cut_at CHR ''='' (trim_prefix a ''--'') of
           Some (k, v) \<Rightarrow> (rev ps, m(k \<mapsto> v))
         | None \<Rightarrow> (rev ps, m(trim_prefix a ''--'' \<mapsto> ''true'')))
      else (rev (a # ps), m))"
| "parse_flags ps m (a # b # as) =
     (if has_prefix a ''--'' then
        (case cut_at CHR ''='' (trim_prefix a ''--'') of
           Some (k, v) \<Rightarrow> parse_flags ps (m(k \<mapsto> v)) (b # as)
         | None \<Rightarrow>
             if \<not> has_prefix b ''--'' then parse_flags ps (m(trim_prefix a ''--'' \<mapsto> b)) as
             else parse_flags ps (m(trim_prefix a ''--'' \<mapsto> ''true'')) (b # as))
      else parse_flags (a # ps) m (b # as))"

definition parseFlags :: "string list \<Rightarrow> string list \<times> flags" where
  "parseFlags = parse_flags [] Map.empty"

definition flag_on :: "flags \<Rightarrow> string \<Rightarrow> bool" where
  "flag_on m k \<longleftrightarrow> m k = Some ''true''"

text \<open>\<^verbatim>\<open>flags[k]\<close>: the zero value, the empty text, when the flag is absent.\<close>

definition flag_text :: "flags \<Rightarrow> string \<Rightarrow> string" where
  "flag_text m k = (case m k of None \<Rightarrow> [] | Some v \<Rightarrow> v)"

section \<open>Units\<close>

definition serviceState :: "'k os \<Rightarrow> string \<Rightarrow> 'k world \<Rightarrow> string \<times> 'k world" where
  "serviceState os name w =
     (case run os ''systemctl'' [''is-active'', name] w of
        ((out, Some _), w') \<Rightarrow> (if trim_space out = [] then ''unknown'' else trim_space out, w')
      | ((out, None), w') \<Rightarrow> (trim_space out, w'))"

fun first_unit :: "'k os \<Rightarrow> string list \<Rightarrow> 'k world \<Rightarrow> string \<times> 'k world" where
  "first_unit os [] w = ([], w)"
| "first_unit os (u # us) w =
     (case serviceState os u w of
        (s, w1) \<Rightarrow>
          if s = ''active'' then (u, w1)
          else (case run os ''systemctl'' [''cat'', u] w1 of
                  ((_, None), w2) \<Rightarrow> (u, w2)
                | ((_, Some _), w2) \<Rightarrow> first_unit os us w2))"

definition existingOpenVPNUnit :: "'k os \<Rightarrow> 'k world \<Rightarrow> string \<times> 'k world" where
  "existingOpenVPNUnit os =
     first_unit os [''openvpn-server@server.service'', ''openvpn@server.service'']"

fun first_active :: "'k os \<Rightarrow> string list \<Rightarrow> 'k world \<Rightarrow> string \<times> 'k world" where
  "first_active os [] w = ([], w)"
| "first_active os (u # us) w =
     (case run os ''systemctl'' [''is-active'', u] w of
        ((out, _), w') \<Rightarrow> if trim_space out = ''active'' then (u, w') else first_active os us w')"

definition activeOpenvpnUnit :: "'k os \<Rightarrow> 'k world \<Rightarrow> string \<times> 'k world" where
  "activeOpenvpnUnit os = first_active os [''openvpn-server@server'', ''openvpn@server'']"

definition restart :: "'k os \<Rightarrow> string \<Rightarrow> 'k world \<Rightarrow> 'k world" where
  "restart os unit = runq os ''systemctl'' [''restart'', unit]"

definition restart_wg :: "'k os \<Rightarrow> config \<Rightarrow> 'k world \<Rightarrow> 'k world" where
  "restart_wg os cfg w =
     (if Interface cfg \<noteq> [] then restart os (''wg-quick@'' @ Interface cfg @ ''.service'') w else w)"

definition restart_ovpn :: "'k os \<Rightarrow> 'k world \<Rightarrow> 'k world" where
  "restart_ovpn os w =
     (case existingOpenVPNUnit os w of (u, w') \<Rightarrow> if u \<noteq> [] then restart os u w' else w')"

definition config_or :: "config \<Rightarrow> 'k world \<Rightarrow> config" where
  "config_or dflt w = (case conf w of None \<Rightarrow> dflt | Some c \<Rightarrow> c)"

definition cmdRestart :: "'k os \<Rightarrow> string list \<Rightarrow> ('k world, unit) prog" where
  "cmdRestart os args w =
     (let target = (case args of [] \<Rightarrow> ''all'' | a # _ \<Rightarrow> a);
          cfg = config_or (zero_config\<lparr>Interface := ''wg0''\<rparr>) w
      in if target \<in> {''wgmgr'', ''panel'', ''api'', ''service''} then (Inr (), restart os ''wgmgr.service'' w)
         else if target \<in> {''routing'', ''openvpn-routing''}
         then (Inr (), restart os ''wgmgr-openvpn-routing.service'' w)
         else if target \<in> {''wg'', ''wireguard''} then (Inr (), restart_wg os cfg w)
         else if target \<in> {''ovpn'', ''openvpn''} then (Inr (), restart_ovpn os w)
         else if target = ''vpn''
         then (Inr (), restart_ovpn os (restart os ''wgmgr-openvpn-routing.service'' (restart_wg os cfg w)))
         else if target = ''all''
         then (Inr (), restart os ''wgmgr.service''
                (restart_ovpn os (restart_wg os cfg (restart os ''wgmgr-openvpn-routing.service'' w))))
         else (Inl ''usage: wgmgr restart [all|wgmgr|vpn|wireguard|openvpn|routing]'', w))"

section \<open>Files\<close>

text \<open>\<^verbatim>\<open>Format("20060102T150405Z")\<close> of the clock.\<close>

definition stamp :: "int \<Rightarrow> string" where
  "stamp t =
     (let s = t div second;
          sod = s mod day_secs;
          (y, m, d) = civil_from_days (s div day_secs)
      in pad 4 y @ pad 2 m @ pad 2 d @ ''T'' @
         pad 2 (sod div 3600) @ pad 2 (sod div 60 mod 60) @ pad 2 (sod mod 60) @ ''Z'')"

definition backupFile :: "'k os \<Rightarrow> string \<Rightarrow> ('k world, string) prog" where
  "backupFile os path w =
     (case file_text w path of
        None \<Rightarrow> (Inl (''backup '' @ path), w)
      | Some t \<Rightarrow>
          (let bak = path @ ''.bak-'' @ stamp (now w) in
           and_then (or_die (''backup '' @ path @ '': '') (write_file os bak t)) (\<lambda>_. finish bak) w))"

definition syncOpenVPNServerUnitConfig :: "'k os \<Rightarrow> config \<Rightarrow> ('k world, unit) prog" where
  "syncOpenVPNServerUnitConfig os cfg w =
     (if OvpnDir cfg \<noteq> ''/etc/openvpn'' then (Inr (), w)
      else (case file_text w (path_join (OvpnDir cfg) ''server.conf'') of
              None \<Rightarrow> (Inr (), w)
            | Some t \<Rightarrow>
                or_die ''openvpn: write server unit config: ''
                  (write_file os (path_join (path_join (OvpnDir cfg) ''server'') ''server.conf'') t) w))"

section \<open>Uninstalling\<close>

text \<open>
  \<^verbatim>\<open>removePath\<close>: \<^verbatim>\<open>os.RemoveAll\<close>, whose failure is only a warning.  The configuration file and the database
  lie below \<^verbatim>\<open>/etc/wgmgr\<close> and \<^verbatim>\<open>/var/lib/wgmgr\<close>, the locations \<^verbatim>\<open>cmdInit\<close> chooses.
\<close>

definition below :: "string \<Rightarrow> string \<Rightarrow> bool" where
  "below dir p \<longleftrightarrow> p = dir \<or> has_prefix p (dir @ ''/'')"

definition removePath :: "'k os \<Rightarrow> string \<Rightarrow> 'k world \<Rightarrow> 'k world" where
  "removePath os dir w =
     (case fs_err os ''remove'' dir of
        Some _ \<Rightarrow> w
      | None \<Rightarrow> w\<lparr>files := (\<lambda>p. if below dir p then None else files w p),
                  conf := (if below dir ''/etc/wgmgr/config.json'' then None else conf w),
                  db := (if below dir ''/var/lib/wgmgr/wgmgr.db'' then empty_store else db w)\<rparr>)"

record purge =
  purgeData :: bool
  purgeOpenVPN :: bool
  purgeWireGuard :: bool

definition purge_flags :: "flags \<Rightarrow> purge" where
  "purge_flags m =
     (let vpn = flag_on m ''purge-vpn'' in
      \<lparr>purgeData = flag_on m ''purge-data'',
       purgeOpenVPN = vpn \<or> flag_on m ''purge-openvpn'' \<or> flag_on m ''purge-ovpn'',
       purgeWireGuard = vpn \<or> flag_on m ''purge-wireguard'' \<or> flag_on m ''purge-wg''\<rparr>)"

definition ovpn_paths :: "string list" where
  "ovpn_paths =
     [''/etc/systemd/system/wgmgr-openvpn-routing.service'',
      ''/etc/systemd/system/openvpn-server@server.service.d/10-wgmgr-routing.conf'',
      ''/etc/systemd/system/openvpn@server.service.d/10-wgmgr-routing.conf'',
      ''/usr/local/bin/wgmgr-openvpn-routing'',
      ''/etc/sysctl.d/99-wgmgr-openvpn.conf'',
      ''/etc/tmpfiles.d/wgmgr.conf'',
      ''/run/wgmgr'',
      ''/etc/openvpn/server'',
      ''/etc/openvpn/server.conf'']"

text \<open>The commands and the paths, in the order they are issued.\<close>

definition uninstall_cmds :: "config \<Rightarrow> purge \<Rightarrow> (string \<times> string list) list" where
  "uninstall_cmds cfg pg =
     (''systemctl'', [''disable'', ''--now'', ''wgmgr.service'']) #
     (if purgeOpenVPN pg then
        map (\<lambda>u. (''systemctl'', [''disable'', ''--now'', u]))
          [''wgmgr-openvpn-routing.service'', ''openvpn-server@server.service'', ''openvpn@server.service'']
      else []) @
     (if purgeWireGuard pg \<and> Interface cfg \<noteq> [] then
        [(''systemctl'', [''disable'', ''--now'', ''wg-quick@'' @ Interface cfg @ ''.service''])] else []) @
     [(''iptables'', [''-D'', ''FORWARD'', ''-m'', ''set'', ''--match-set'', IPSet cfg, ''src'', ''-j'', ''DROP'']),
      (''iptables'', [''-D'', ''FORWARD'', ''-m'', ''set'', ''--match-set'', IPSet cfg, ''dst'', ''-j'', ''DROP'']),
      (''ipset'', [''destroy'', IPSet cfg])]"

definition uninstall_paths :: "purge \<Rightarrow> string list" where
  "uninstall_paths pg =
     ''/etc/systemd/system/wgmgr.service'' #
     (if purgeData pg then [''/etc/wgmgr'', ''/var/lib/wgmgr''] else []) @
     (if purgeOpenVPN pg then ovpn_paths else []) @
     (if purgeWireGuard pg then [''/etc/wireguard''] else [])"

definition uninstall :: "'k os \<Rightarrow> config \<Rightarrow> purge \<Rightarrow> 'k world \<Rightarrow> 'k world" where
  "uninstall os cfg pg w =
     removePath os ''/usr/local/bin/wgmgr''
       (runq os ''systemctl'' [''daemon-reload'']
         (fold (removePath os) (uninstall_paths pg)
           (fold (\<lambda>(c, as). runq os c as) (uninstall_cmds cfg pg) w)))"

text \<open>\<open>answers\<close> is what the operator types at a terminal, if there is one: the word, and the three choices.\<close>

definition cmdUninstall :: "'k os \<Rightarrow> (string \<times> purge) option \<Rightarrow> string list \<Rightarrow> ('k world, unit) prog" where
  "cmdUninstall os answers args w =
     (let m = snd (parseFlags args);
          c = config_or (zero_config\<lparr>Interface := ''wg0'', IPSet := ''wgmgr_blocked''\<rparr>) w;
          cfg = (if IPSet c = [] then c\<lparr>IPSet := ''wgmgr_blocked''\<rparr> else c)
      in if flag_on m ''yes'' \<or> flag_on m ''force'' then (Inr (), uninstall os cfg (purge_flags m) w)
         else (case answers of
                 None \<Rightarrow> (Inl ''uninstall requires --yes when stdin is not interactive'', w)
               | Some (word, pg) \<Rightarrow>
                   if word \<noteq> ''UNINSTALL'' then (Inr (), w) else (Inr (), uninstall os cfg pg w)))"

end
