(* ===== verification/Subnet.thy ===== *)
theory Subnet
  imports Host
begin

text \<open>
  subnet.go: widening the address pools in place.  The pure parts are the new CIDR text (\<open>widenCIDR\<close>), the
  rewriting of the two configuration files, the reading of the host's routes, the conflicts of a plan and
  the \<^verbatim>\<open>iptables\<close> rules to insert (\<open>widenRuleArgs\<close>); \<open>expandSubnet\<close> runs a plan.  What is printed is left
  out, and \<^verbatim>\<open>%q\<close> quotes without escapes.
\<close>

section \<open>Widening a CIDR\<close>

definition net_ones :: "ipnet \<Rightarrow> nat" where
  "net_ones n = (case mask_ones (net_mask n) of None \<Rightarrow> 0 | Some k \<Rightarrow> k)"

definition widenCIDR :: "string \<Rightarrow> int \<Rightarrow> bool \<Rightarrow> string + (string \<times> bool)" where
  "widenCIDR cidr plen keepHost =
     (case parse_cidr (trim_space cidr) of
        None \<Rightarrow> Inl (''not an IPv4 CIDR: '' @ quoted cidr)
      | Some (ip, n) \<Rightarrow>
          if plen < 16 \<or> 30 < plen
          then Inl (''prefix /'' @ itoa plen @ '' out of range (/16../30)'')
          else if int (net_ones n) \<le> plen then Inr (cidr, False)
          else if keepHost then Inr (cidr_str ip (nat plen), True)
          else Inr (cidr_str (ip_and ip (cidr_mask (nat plen))) (nat plen), True))"

definition networkOf :: "string \<Rightarrow> string" where
  "networkOf cidr = (case parse_cidr cidr of None \<Rightarrow> [] | Some (_, n) \<Rightarrow> net_str n)"

section \<open>Rewriting the configuration files\<close>

definition rewrite_head_line :: "string \<Rightarrow> string \<Rightarrow> string \<Rightarrow> string" where
  "rewrite_head_line oldAddr newAddr l =
     (let oldNet = networkOf oldAddr; newNet = networkOf newAddr in
      if has_prefix (to_lower (trim_space l)) ''address'' \<and> contains l oldAddr
      then replace_first l oldAddr newAddr
      else if oldNet \<noteq> [] \<and> contains l oldNet then replace_all l oldNet newNet
      else l)"

fun map_head :: "(string \<Rightarrow> string) \<Rightarrow> string list \<Rightarrow> string list" where
  "map_head f [] = []"
| "map_head f (l # ls) = (if isHeadEnd (trim_space l) then l # ls else f l # map_head f ls)"

definition rewriteWGHead :: "string \<Rightarrow> string \<Rightarrow> string \<Rightarrow> string" where
  "rewriteWGHead text oldAddr newAddr =
     join nl (map_head (rewrite_head_line oldAddr newAddr) (lines text))"

definition is_server_line :: "string \<Rightarrow> bool" where
  "is_server_line l \<longleftrightarrow> 3 \<le> length (str_fields l) \<and> hd (str_fields l) = ''server''"

fun replace_server :: "string \<Rightarrow> string list \<Rightarrow> string list option" where
  "replace_server new [] = None"
| "replace_server new (l # ls) =
     (if is_server_line l then Some (new # ls) else map_option ((#) l) (replace_server new ls))"

definition server_line :: "ipnet \<Rightarrow> string" where
  "server_line n = ''server '' @ ip_str (net_ip n) @ '' '' @ ip_str (net_mask n)"

definition rewriteOvpnServerLine :: "string \<Rightarrow> string \<Rightarrow> string \<times> bool" where
  "rewriteOvpnServerLine text subnet =
     (case parse_cidr subnet of
        None \<Rightarrow> (text, False)
      | Some (_, n) \<Rightarrow>
          (case replace_server (server_line n) (lines text) of
             None \<Rightarrow> (text, False)
           | Some ls \<Rightarrow> (join nl ls, True)))"

section \<open>The host's networks\<close>

record netEntry =
  Dev :: string
  Net :: ipnet

definition route_types :: "string list" where
  "route_types = [''blackhole'', ''unreachable'', ''prohibit'', ''throw'', ''local'', ''broadcast'',
     ''anycast'', ''multicast'']"

fun last_dev :: "string \<Rightarrow> string list \<Rightarrow> string" where
  "last_dev d (a # b # r) = last_dev (if a = ''dev'' then b else d) (b # r)"
| "last_dev d _ = d"

definition route_entry :: "string \<Rightarrow> netEntry option" where
  "route_entry line =
     (let f0 = str_fields line;
          f = (if 1 < length f0 \<and> hd f0 \<in> set route_types then tl f0 else f0)
      in if f = [] \<or> hd f = ''default'' then None
         else (let (cidr, dev) = (if 4 \<le> length f \<and> f ! 2 = ''inet'' then (f ! 3, f ! 1)
                                  else (hd f, last_dev [] f));
                   cidr' = (if contains cidr ''/'' then cidr else cidr @ ''/32'')
               in map_option (\<lambda>(_, n). \<lparr>Dev = dev, Net = n\<rparr>) (parse_cidr cidr')))"

definition parseIPRoutes :: "string \<Rightarrow> netEntry list" where
  "parseIPRoutes out = List.map_filter route_entry (lines out)"

definition hostNetEntries :: "'k os \<Rightarrow> 'k world \<Rightarrow> netEntry list \<times> 'k world" where
  "hostNetEntries os w =
     (let routes = (\<lambda>(out, e). if e = None then parseIPRoutes out else []);
          (r1, w1) = run os ''ip'' [''-4'', ''-o'', ''route'', ''show''] w;
          (r2, w2) = run os ''ip'' [''-4'', ''-o'', ''addr'', ''show''] w1
      in (routes r1 @ routes r2, w2))"

definition poolDevs :: "ipnet \<Rightarrow> netEntry list \<Rightarrow> string list \<Rightarrow> string \<Rightarrow> bool" where
  "poolDevs pool entries extra d \<longleftrightarrow>
     d \<noteq> [] \<and>
     (d \<in> set extra \<or>
      list_ex (\<lambda>e. Dev e = d \<and> net_ones pool \<le> net_ones (Net e) \<and> net_contains pool (net_ip (Net e))) entries)"

text \<open>The entries without repetition, in the order of their first occurrence.\<close>

fun firsts :: "'a list \<Rightarrow> 'a list \<Rightarrow> 'a list" where
  "firsts seen [] = []"
| "firsts seen (x # xs) = (if x \<in> set seen then firsts seen xs else x # firsts (x # seen) xs)"

definition entry_text :: "netEntry \<Rightarrow> string" where
  "entry_text e = net_str (Net e) @ '' dev '' @ Dev e"

definition subnetConflicts :: "ipnet \<Rightarrow> ipnet \<Rightarrow> (string \<Rightarrow> bool) \<Rightarrow> netEntry list \<Rightarrow> string list" where
  "subnetConflicts oldNet newNet ownDev entries =
     firsts [] (map entry_text
       (filter (\<lambda>e. \<not> (ownDev (Dev e) \<or> netsOverlap oldNet (Net e) \<or> \<not> netsOverlap newNet (Net e))) entries))"

section \<open>The firewall\<close>

fun split_rule :: "bool \<Rightarrow> bool \<Rightarrow> string \<Rightarrow> string \<Rightarrow> string list" where
  "split_rule inQ have_tok cur [] = (if have_tok then [rev cur] else [])"
| "split_rule inQ have_tok cur (r # rs) =
     (if r = CHR 0x22 then split_rule (\<not> inQ) True cur rs
      else if (r = CHR '' '' \<or> r = CHR 0x09) \<and> \<not> inQ then
        (if have_tok then rev cur # split_rule inQ False [] rs else split_rule inQ False cur rs)
      else split_rule inQ True (r # cur) rs)"

definition splitRule :: "string \<Rightarrow> string list" where
  "splitRule = split_rule False False []"

text \<open>The rule with the new network for the old one, whether there was any, and whether one was negated.\<close>

fun rule_args :: "string \<Rightarrow> string \<Rightarrow> string list \<Rightarrow> bool \<Rightarrow> bool \<Rightarrow> string list \<Rightarrow> string list \<times> bool \<times> bool" where
  "rule_args old new rule hit neg [] = (rule, hit, neg)"
| "rule_args old new rule hit neg (t # ts) =
     (if t = old
      then rule_args old new (rule @ [new]) True
             (neg \<or> 2 \<le> length rule \<and> rule ! (length rule - 2) = ''!'') ts
      else rule_args old new (rule @ [t]) hit neg ts)"

type_synonym rule_cmd = "string list \<times> string list"

fun widen_lines :: "string \<Rightarrow> string \<Rightarrow> string \<Rightarrow> (string \<Rightarrow> nat) \<Rightarrow> string list \<Rightarrow> rule_cmd list \<times> string list" where
  "widen_lines table old new pos [] = ([], [])"
| "widen_lines table old new pos (line # ls) =
     (case splitRule (trim_space line) of
        a # chain # ts \<Rightarrow>
          if a \<noteq> ''-A'' then widen_lines table old new pos ls
          else
            (let pos' = pos(chain := pos chain + 1);
                 (rule, hit, neg) = rule_args old new [] False False ts;
                 (cmds, manual) = widen_lines table old new pos' ls
             in if \<not> hit then (cmds, manual)
                else if neg then (cmds, (''-t '' @ table @ '' '' @ trim_space line) # manual)
                else (([''-w'', ''-t'', table, ''-C'', chain] @ rule,
                       [''-w'', ''-t'', table, ''-I'', chain, nat_str (pos' chain)] @ rule) # cmds, manual))
      | _ \<Rightarrow> widen_lines table old new pos ls)"

definition widenRuleArgs :: "string \<Rightarrow> string \<Rightarrow> string \<Rightarrow> string \<Rightarrow> rule_cmd list \<times> string list" where
  "widenRuleArgs table saveOut old new =
     (case widen_lines table old new (\<lambda>_. 0) (lines saveOut) of (cmds, manual) \<Rightarrow> (rev cmds, manual))"

definition widen_rule :: "'k os \<Rightarrow> rule_cmd \<Rightarrow> 'k world \<Rightarrow> 'k world" where
  "widen_rule os c w =
     (case run os ''iptables'' (fst c) w of
        ((_, None), w') \<Rightarrow> w'
      | ((_, Some _), w') \<Rightarrow> runq os ''iptables'' (snd c) w')"

definition widen_table :: "'k os \<Rightarrow> string \<Rightarrow> string \<Rightarrow> string \<Rightarrow> 'k world \<Rightarrow> 'k world" where
  "widen_table os old new table w =
     (case run os ''iptables'' [''-w'', ''-t'', table, ''-S''] w of
        ((_, Some _), w') \<Rightarrow> w'
      | ((out, None), w') \<Rightarrow> fold (widen_rule os) (fst (widenRuleArgs table out old new)) w')"

definition widenFirewall :: "'k os \<Rightarrow> string \<Rightarrow> string \<Rightarrow> 'k world \<Rightarrow> 'k world" where
  "widenFirewall os old new w =
     (case run os ''iptables'' [''-w'', ''-S''] w of
        ((_, Some _), w') \<Rightarrow> w'
      | ((_, None), w') \<Rightarrow> fold (widen_table os old new) [''filter'', ''nat'', ''mangle''] w')"

section \<open>The plan\<close>

record expandPlan =
  WGOldAddr :: string
  WGNewAddr :: string
  OvOldNet :: string
  OvNewNet :: string
  WGConflicts :: "string list"
  OvConflicts :: "string list"

definition plan_empty :: "expandPlan \<Rightarrow> bool" where
  "plan_empty p \<longleftrightarrow> WGNewAddr p = [] \<and> OvNewNet p = []"

definition prefixAll :: "string \<Rightarrow> string list \<Rightarrow> string list" where
  "prefixAll pre xs = map (\<lambda>x. pre @ x) xs"

text \<open>Each protocol's present network, and its old and new text when it is to be widened.\<close>

definition plan_wg :: "config \<Rightarrow> int \<Rightarrow> ('k world, string \<times> string \<times> string) prog" where
  "plan_wg cfg plen w0 =
     (if WGConf cfg = [] \<or> \<not> fileExists (WGConf cfg) w0 then (Inr ([], [], []), w0)
      else and_then (interfaceHead (WGConf cfg)) (\<lambda>(_, n, srv).
        let old = cidr_str srv (net_ones n) in
        case widenCIDR old plen True of
          Inl e \<Rightarrow> die (''wireguard: '' @ e)
        | Inr (nw, changed) \<Rightarrow> finish (net_str n, if changed then (old, nw) else ([], []))) w0)"

definition plan_ovpn :: "config \<Rightarrow> bool \<Rightarrow> int \<Rightarrow> string + (string \<times> string \<times> string)" where
  "plan_ovpn cfg ovpnOn plen =
     (if \<not> ovpnOn then Inr ([], [], [])
      else
        (let cur = networkOf (OvpnSubnet cfg) in
         case widenCIDR (OvpnSubnet cfg) plen False of
           Inl e \<Rightarrow> Inl (''openvpn: '' @ e)
         | Inr (nw, changed) \<Rightarrow> Inr (cur, if changed then (cur, nw) else ([], []))))"

text \<open>The first of the other protocol's networks that the new one overlaps.\<close>

definition overlap_with :: "string \<Rightarrow> ipnet \<Rightarrow> string list \<Rightarrow> string list" where
  "overlap_with pre n others =
     (case find (\<lambda>m. netsOverlap n m) (List.map_filter (\<lambda>o'. map_option snd (parse_cidr o')) others) of
        None \<Rightarrow> []
      | Some m \<Rightarrow> [pre @ net_str m])"

definition wg_conflicts :: "config \<Rightarrow> netEntry list \<Rightarrow> string \<Rightarrow> string \<Rightarrow> string list \<Rightarrow> string list" where
  "wg_conflicts cfg entries old new others =
     (case (parse_cidr old, parse_cidr new) of
        (Some (_, oldN), Some (_, newN)) \<Rightarrow>
          prefixAll (''wireguard '' @ net_str newN @ '' overlaps '')
            (subnetConflicts oldN newN (poolDevs oldN entries [Interface cfg]) entries) @
          overlap_with (''wireguard '' @ net_str newN @ '' overlaps openvpn '') newN others
      | _ \<Rightarrow> [])"

definition ovpn_conflicts :: "netEntry list \<Rightarrow> int \<Rightarrow> string \<Rightarrow> string \<Rightarrow> string list \<Rightarrow> string list" where
  "ovpn_conflicts entries plen old new others =
     (case (parse_cidr old, parse_cidr new) of
        (Some (_, oldN), Some (_, newN)) \<Rightarrow>
          (let oldSrv = nextIP (net_ip oldN); newSrv = nextIP (net_ip newN) in
           if oldSrv \<noteq> newSrv
           then [''openvpn server IP would move '' @ ip_str oldSrv @ '' -> '' @ ip_str newSrv @ '' ('' @
                   net_str oldN @ '' is not aligned to /'' @ itoa plen @ '')'']
           else []) @
          prefixAll (''openvpn '' @ net_str newN @ '' overlaps '')
            (subnetConflicts oldN newN (poolDevs oldN entries []) entries) @
          overlap_with (''openvpn '' @ net_str newN @ '' overlaps wireguard '') newN others
      | _ \<Rightarrow> [])"

definition make_plan ::
  "config \<Rightarrow> int \<Rightarrow> netEntry list \<Rightarrow> string \<times> string \<times> string \<Rightarrow> string \<times> string \<times> string \<Rightarrow> expandPlan" where
  "make_plan cfg plen entries wg ov =
     (case (wg, ov) of
        ((wgCur, wgOld, wgNew), (ovCur, ovOld, ovNew)) \<Rightarrow>
          \<lparr>WGOldAddr = wgOld, WGNewAddr = wgNew, OvOldNet = ovOld, OvNewNet = ovNew,
           WGConflicts = sort (if wgNew = [] then [] else wg_conflicts cfg entries wgOld wgNew [ovCur, ovNew]),
           OvConflicts = sort (if ovNew = [] then []
             else ovpn_conflicts entries plen ovOld ovNew [wgCur, networkOf wgNew])\<rparr>)"

text \<open>
  The old network is the present one's text, which is empty when the configured subnet has blanks around it:
  \<^verbatim>\<open>widenCIDR\<close> trims, \<^verbatim>\<open>networkOf\<close> does not.  Its parsed form is then nil, and reading it panics.
\<close>

definition nil_deref :: string where
  "nil_deref = ''runtime error: invalid memory address or nil pointer dereference''"

definition buildExpandPlan :: "config \<Rightarrow> bool \<Rightarrow> int \<Rightarrow> netEntry list \<Rightarrow> ('k world, expandPlan) prog" where
  "buildExpandPlan cfg ovpnOn plen entries =
     and_then (plan_wg cfg plen) (\<lambda>wg.
     and_then (lift_sum (plan_ovpn cfg ovpnOn plen)) (\<lambda>ov.
     if snd (snd ov) \<noteq> [] \<and> parse_cidr (fst (snd ov)) = None then die nil_deref
     else finish (make_plan cfg plen entries wg ov)))"

definition ovpnConfigured :: "config \<Rightarrow> 'k world \<Rightarrow> bool" where
  "ovpnConfigured cfg w \<longleftrightarrow>
     OvpnSubnet cfg \<noteq> [] \<and>
     fileExists (path_join (or_default (OvpnDir cfg) ''/etc/openvpn'') ''server.conf'') w"

section \<open>Carrying it out\<close>

definition swap_address :: "'k os \<Rightarrow> config \<Rightarrow> string \<Rightarrow> string \<Rightarrow> ('k world, unit) prog" where
  "swap_address os cfg old new w =
     (case run os ''ip'' [''link'', ''show'', Interface cfg] w of
        ((_, Some _), w1) \<Rightarrow> (Inr (), w1)
      | ((_, None), w1) \<Rightarrow>
          (case run os ''ip'' [''-4'', ''addr'', ''add'', new, ''dev'', Interface cfg] w1 of
             ((out, e), w2) \<Rightarrow>
               if e \<noteq> None \<and> \<not> contains out ''File exists''
               then (Inl (''ip addr add '' @ new @ '' dev '' @ Interface cfg @ '': '' @ the e @ '' '' @ out), w2)
               else (Inr (), runq os ''ip'' [''-4'', ''addr'', ''del'', old, ''dev'', Interface cfg] w2)))"

definition livePeersInDB :: "'k os \<Rightarrow> string \<Rightarrow> 'k world \<Rightarrow> bool \<times> 'k world" where
  "livePeersInDB os iface w =
     (case livePeers os iface w of (live, w1) \<Rightarrow> (unknown_live (db w1) live = None, w1))"

definition expanded_conf :: "'k os \<Rightarrow> config \<Rightarrow> string \<Rightarrow> string \<Rightarrow> string \<Rightarrow> ('k world, string) prog" where
  "expanded_conf os cfg old new text w =
     (case livePeersInDB os (Interface cfg) w of
        (owned, w1) \<Rightarrow>
          (let c = rewriteWGHead text old new in
           (Inr (if owned
                 then trim_right_char CHR 0x0A (confHead c) @ renderPeerSection (db w1) else c), w1)))"

definition read_or_die :: "string \<Rightarrow> ('k world, string) prog" where
  "read_or_die path w =
     (case file_text w path of None \<Rightarrow> (Inl (''read '' @ path), w) | Some t \<Rightarrow> (Inr t, w))"

definition expandWireGuard :: "'k os \<Rightarrow> config \<Rightarrow> string \<Rightarrow> string \<Rightarrow> ('k world, unit) prog" where
  "expandWireGuard os cfg old new =
     (let tmp = WGConf cfg @ ''.wgmgr-expand.tmp'' in
      and_then (backupFile os (WGConf cfg)) (\<lambda>_.
      and_then (read_or_die (WGConf cfg)) (\<lambda>text.
      and_then (expanded_conf os cfg old new text) (\<lambda>text'.
      and_then (or_die ''write conf: '' (write_file os tmp text')) (\<lambda>_.
      and_then (or_die ''replace conf: '' (rename_file os tmp (WGConf cfg))) (\<lambda>_.
      and_then (swap_address os cfg old new) (\<lambda>_.
      modify (widenFirewall os (networkOf old) (networkOf new)))))))))"

text \<open>A user without a file under \<^verbatim>\<open>ccd\<close> is locked out, and stays so.\<close>

fun rewrite_ccds :: "'k os \<Rightarrow> config \<Rightarrow> string \<Rightarrow> peer list \<Rightarrow> ('k world, unit) prog" where
  "rewrite_ccds os cfg mask_text [] w = (Inr (), w)"
| "rewrite_ccds os cfg mask_text (p # ps) w =
     (if OvpnCN p = [] \<or> OvpnIP p = [] \<or> \<not> fileExists (ccd_path cfg (Username p)) w
      then rewrite_ccds os cfg mask_text ps w
      else and_then (writeFileMode os (ccd_path cfg (Username p))
               (''ifconfig-push '' @ OvpnIP p @ '' '' @ mask_text @ nl))
             (\<lambda>_. rewrite_ccds os cfg mask_text ps) w)"

definition reload_ovpn :: "'k os \<Rightarrow> 'k world \<Rightarrow> 'k world" where
  "reload_ovpn os w =
     (let w2 = (case run os ''systemctl'' [''cat'', ''wgmgr-openvpn-routing.service''] w of
          ((_, None), w1) \<Rightarrow> restart os ''wgmgr-openvpn-routing.service'' w1
        | ((_, Some _), w1) \<Rightarrow> w1)
      in restart_ovpn os w2)"

definition expandOpenVPN :: "'k os \<Rightarrow> config \<Rightarrow> string \<Rightarrow> string \<Rightarrow> ('k world, unit) prog" where
  "expandOpenVPN os cfg old new =
     (let path = path_join (OvpnDir cfg) ''server.conf''; cfg' = cfg\<lparr>OvpnSubnet := new\<rparr> in
      and_then (read_or_die path) (\<lambda>text.
        case rewriteOvpnServerLine text new of
          (_, False) \<Rightarrow> die (''openvpn: no `server <net> <mask>` line in '' @ path @ '' '' @ dash @ '' not touching it'')
        | (text', True) \<Rightarrow>
            and_then (backupFile os path) (\<lambda>_.
            and_then (writeFileMode os path text') (\<lambda>_.
            and_then (syncOpenVPNServerUnitConfig os cfg') (\<lambda>_.
            and_then (lift_sum (ovpnMask new)) (\<lambda>mask_text.
            and_then (\<lambda>w. rewrite_ccds os cfg' mask_text (allPeers (db w)) w) (\<lambda>_.
            and_then (saveConfig os cfg') (\<lambda>_.
            modify (\<lambda>w. reload_ovpn os (widenFirewall os old new w))))))))))"

definition drop_conflicts :: "expandPlan \<Rightarrow> expandPlan" where
  "drop_conflicts p =
     p\<lparr>WGOldAddr := (if WGConflicts p \<noteq> [] then [] else WGOldAddr p),
       WGNewAddr := (if WGConflicts p \<noteq> [] then [] else WGNewAddr p),
       OvOldNet := (if OvConflicts p \<noteq> [] then [] else OvOldNet p),
       OvNewNet := (if OvConflicts p \<noteq> [] then [] else OvNewNet p)\<rparr>"

definition run_plan :: "'k os \<Rightarrow> config \<Rightarrow> bool \<Rightarrow> expandPlan \<Rightarrow> ('k world, unit) prog" where
  "run_plan os cfg unattended p =
     and_then (if WGNewAddr p \<noteq> [] then expandWireGuard os cfg (WGOldAddr p) (WGNewAddr p) else finish ()) (\<lambda>_.
     and_then (if OvNewNet p \<noteq> [] then expandOpenVPN os cfg (OvOldNet p) (OvNewNet p) else finish ()) (\<lambda>_.
     modify (\<lambda>w. if unattended then w
       else case serviceState os ''wgmgr.service'' w of
              (s, w') \<Rightarrow> if s = ''active'' then restart os ''wgmgr.service'' w' else w')))"

definition expand_prefix :: "flags \<Rightarrow> string + int" where
  "expand_prefix m =
     (case m ''prefix'' of
        None \<Rightarrow> Inr 16
      | Some v \<Rightarrow>
          (case atoi (trim_prefix v ''/'') of None \<Rightarrow> Inl (''bad --prefix '' @ quoted v) | Some n \<Rightarrow> Inr n))"

text \<open>What happens once the plan is known; \<open>answer\<close> is the operator's, when there is a terminal.\<close>

definition decide_plan :: "'k os \<Rightarrow> config \<Rightarrow> flags \<Rightarrow> bool option \<Rightarrow> expandPlan \<Rightarrow> ('k world, unit) prog" where
  "decide_plan os cfg m answer p =
     (let unattended = flag_on m ''auto''; p' = drop_conflicts p in
      if plan_empty p then finish ()
      else if WGConflicts p @ OvConflicts p \<noteq> [] \<and> \<not> unattended
      then die ''refusing to expand: resolve the conflicts above or pick a smaller --prefix (e.g. 20)''
      else if plan_empty p' \<or> flag_on m ''dry-run'' then finish ()
      else if unattended \<or> flag_on m ''yes'' then run_plan os cfg unattended p'
      else (case answer of
              None \<Rightarrow> die ''expand-subnet requires --yes when stdin is not interactive''
            | Some ok \<Rightarrow> if ok then run_plan os cfg unattended p' else finish ()))"

definition expandSubnet :: "'k os \<Rightarrow> bool option \<Rightarrow> string list \<Rightarrow> ('k world, unit) prog" where
  "expandSubnet os answer args =
     (let m = snd (parseFlags args) in
      and_then (lift_sum (expand_prefix m)) (\<lambda>plen.
      and_then loadConfig (\<lambda>cfg0 w0.
        let on = ovpnConfigured cfg0 w0;
            (cfg, w1) = (if on then ovpnDefaults os cfg0 w0 else (cfg0, w0));
            (entries, w2) = hostNetEntries os w1
        in and_then (buildExpandPlan cfg on plen entries) (decide_plan os cfg m answer) w2)))"

end
