(* ===== verification/Widening.thy ===== *)
theory Widening
  imports Subnet WgRender
begin

text \<open>
  What widening a pool preserves: the server's and every user's address, the separation of the two pools and
  of the host's other networks, the order of the firewall's rules, the rest of \<^verbatim>\<open>server.conf\<close>, and who is
  locked out.
\<close>

section \<open>Nested networks\<close>

lemma net_widens:
  assumes n: "is_net n k" and m: "is_net m j" and le: "j \<le> k"
    and sh: "net_contains n y" "net_contains m y" and x: "net_contains n x"
  shows "net_contains m x"
  using net_nested [OF m n le sh(2) sh(1) x] .

lemma allocatable_widens:
  assumes n: "is_net n k" and m: "is_net m j" and le: "j \<le> k"
    and sh: "net_contains n y" "net_contains m y" and x: "hostAllocatable x n"
  shows "hostAllocatable x m"
proof -
  note w = net_widens [OF n m le sh]
  have xn: "net_contains n x" and x': "x \<noteq> network_addr n" "x \<noteq> broadcastAddr n"
    using x by (auto simp: hostAllocatable_def)
  have c: "net_contains m (net_ip n)" "net_contains m (broadcastAddr n)"
    using w net_contains_self [OF n] net_contains_broadcast [OF n] by blast+
  have "x \<noteq> net_ip m"
  proof
    assume e: "x = net_ip m"
    have "ip_nat (net_ip n) = ip_nat x"
      using xn c(1) unfolding net_contains_range [OF n] net_contains_range [OF m] e by linarith
    then show False using x'(1) n by simp
  qed
  moreover have "x \<noteq> broadcastAddr m"
  proof
    assume e: "x = broadcastAddr m"
    have "ip_nat (broadcastAddr n) = ip_nat x"
      using xn c(2) unfolding net_contains_range [OF n] net_contains_range [OF m] e
        ip_nat_broadcast [OF n] ip_nat_broadcast [OF m] by linarith
    then show False using x'(2) by simp
  qed
  ultimately show ?thesis using x w [OF xn] m by (auto simp: hostAllocatable_def)
qed

lemma net_ones_mk_net [simp]: "k \<le> 32 \<Longrightarrow> net_ones (mk_net ip k) = k"
  by (simp add: net_ones_def mk_net_def)

lemma widenCIDR_changed:
  assumes "widenCIDR cidr plen keep = Inr (new, True)"
  obtains ip n k where "parse_cidr (trim_space cidr) = Some (ip, n)" "is_net n k" "n = mk_net ip k"
    "16 \<le> plen" "plen \<le> 30" "nat plen < k" "k \<le> 32"
    "new = cidr_str (if keep then ip else ip_and ip (cidr_mask (nat plen))) (nat plen)"
proof -
  from assms obtain ip n where p: "parse_cidr (trim_space cidr) = Some (ip, n)"
    by (auto simp: widenCIDR_def split: option.splits)
  from parse_cidr_Some [OF p] obtain k where k: "is_net n k" "k \<le> 32" "n = mk_net ip k" by blast
  from k(1) have "net_ones n = k" by (simp add: net_ones_def)
  with assms p that [OF p k(1,3)] k(2) show thesis by (auto simp: widenCIDR_def split: if_splits)
qed

lemma parse_cidr_widened:
  assumes "k \<le> 32"
  shows "parse_cidr (cidr_str (if keep then ip else ip_and ip (cidr_mask k)) k) =
    Some (if keep then ip else ip_and ip (cidr_mask k), mk_net ip k)"
  using assms by (simp add: mk_net_def ip_and_assoc_mask)

lemma mk_net_contains: "k \<le> 32 \<Longrightarrow> net_contains (mk_net ip k) ip"
  by (simp add: net_contains_def mk_net_def ip_and_assoc_mask)

section \<open>The firewall's chains\<close>

text \<open>
  The rules of one chain in a dump, and what \<^verbatim>\<open>iptables\<close> documents for an insertion at a position counted from
  one.
\<close>

definition chain_rule :: "string \<Rightarrow> string \<Rightarrow> string list option" where
  "chain_rule chain line =
     (case splitRule (trim_space line) of
        a # c # ts \<Rightarrow> if a = ''-A'' \<and> c = chain then Some ts else None
      | _ \<Rightarrow> None)"

definition chain_rules :: "string \<Rightarrow> string list \<Rightarrow> string list list" where
  "chain_rules chain ls = List.map_filter (chain_rule chain) ls"

fun insert_args :: "string \<Rightarrow> string list \<Rightarrow> string list list \<Rightarrow> string list list" where
  "insert_args chain (w # t # tb # i # c # k # rule) rs =
     (case parse_uint64 k of
        Inr (Suc n) \<Rightarrow> if c = chain then take n rs @ rule # drop n rs else rs
      | _ \<Rightarrow> rs)"
| "insert_args chain _ rs = rs"

text \<open>A rule as it stands afterwards: behind its widened copy, if it mentions the old network.\<close>

definition with_copy :: "string \<Rightarrow> string \<Rightarrow> string list \<Rightarrow> string list list" where
  "with_copy old new ts =
     (case rule_args old new [] False False ts of (r, hit, neg) \<Rightarrow> if hit \<and> \<not> neg then [r, ts] else [ts])"

lemma parse_uint64_nat_str: "n < 2 ^ 64 \<Longrightarrow> parse_uint64 (nat_str n) = Inr n"
  using nat_str_digits [of n] by (simp add: parse_uint64_def parse_digits_nat_str)

lemma chain_rules_Cons:
  "chain_rules chain (l # ls) =
     (case chain_rule chain l of None \<Rightarrow> [] | Some ts \<Rightarrow> [ts]) @ chain_rules chain ls"
  by (simp add: chain_rules_def List.map_filter_simps split: option.split)

lemma widen_lines_inserts:
  assumes "length pre = pos chain" and "\<forall>c. pos c + length ls \<le> B" and B: "B < 2 ^ 64"
  shows "fold (\<lambda>c. insert_args chain (snd c)) (rev (fst (widen_lines table old new pos ls)))
      (pre @ chain_rules chain ls) = pre @ concat (map (with_copy old new) (chain_rules chain ls))"
  using assms(1,2)
proof (induction ls arbitrary: pos pre)
  case Nil
  then show ?case by (simp add: chain_rules_def)
next
  case (Cons l ls)
  show ?case
  proof (cases "\<exists>c ts. splitRule (trim_space l) = ''-A'' # c # ts")
    case False
    then have w: "widen_lines table old new pos (l # ls) = widen_lines table old new pos ls"
      and c: "chain_rule chain l = None"
      by (auto simp: chain_rule_def split: list.split)
    have "\<forall>c. pos c + length ls \<le> B" using Cons.prems(2) by (auto intro: Suc_leD)
    then show ?thesis unfolding w chain_rules_Cons c using Cons.IH [of pre pos] Cons.prems(1) by simp
  next
    case True
    then obtain c ts where l: "splitRule (trim_space l) = ''-A'' # c # ts" by blast
    define pos' where "pos' = pos(c := pos c + 1)"
    obtain r hit neg where r: "rule_args old new [] False False ts = (r, hit, neg)" by (cases "rule_args old new [] False False ts")
    obtain cmds manual where m: "widen_lines table old new pos' ls = (cmds, manual)" by fastforce
    define cmd where "cmd = ([''-w'', ''-t'', table, ''-C'', c] @ r,
      [''-w'', ''-t'', table, ''-I'', c, nat_str (pos' c)] @ r)"
    have W: "fst (widen_lines table old new pos (l # ls)) = (if hit \<and> \<not> neg then cmd # cmds else cmds)"
      using l r m by (simp add: pos'_def cmd_def)
    have le: "Suc (pos d + length ls) \<le> B" for d using Cons.prems(2) by simp
    have b: "\<forall>d. pos' d + length ls \<le> B" using le by (auto simp: pos'_def intro: Suc_leD)
    have "pos' c < 2 ^ 64" using le [of c] B by (simp add: pos'_def)
    then have k: "parse_uint64 (nat_str (pos' c)) = Inr (Suc (pos c))"
      by (simp only: parse_uint64_nat_str) (simp add: pos'_def)
    show ?thesis
    proof (cases "c = chain")
      case c: True
      have cr: "chain_rules chain (l # ls) = ts # chain_rules chain ls"
        using l c by (simp add: chain_rules_Cons chain_rule_def)
      have "length (pre @ [ts]) = pos' chain" using Cons.prems(1) c by (simp add: pos'_def)
      note Cons.IH [OF this b, unfolded m fst_conv]
      then show ?thesis unfolding W cr
        using Cons.prems(1) c k by (simp add: with_copy_def r cmd_def)
    next
      case c: False
      have cr: "chain_rules chain (l # ls) = chain_rules chain ls"
        using l c by (simp add: chain_rules_Cons chain_rule_def)
      have "length pre = pos' chain" using Cons.prems(1) c by (simp add: pos'_def)
      note Cons.IH [OF this b, unfolded m fst_conv]
      then show ?thesis unfolding W cr using c k by (simp add: cmd_def)
    qed
  qed
qed

section \<open>Clean plans\<close>

lemma firsts_Nil: "firsts [] xs = [] \<longleftrightarrow> xs = []"
  by (cases xs) auto

lemma overlap_with_Nil:
  "overlap_with pre n os = [] \<longleftrightarrow>
     (\<forall>o'\<in>set os. \<forall>ip m. parse_cidr o' = Some (ip, m) \<longrightarrow> \<not> netsOverlap n m)"
proof -
  have "overlap_with pre n os = [] \<longleftrightarrow>
      (\<forall>m\<in>set (List.map_filter (\<lambda>o'. map_option snd (parse_cidr o')) os). \<not> netsOverlap n m)"
    by (auto simp: overlap_with_def find_None_iff split: option.split dest: find_Some_iff2)
  also have "\<dots> \<longleftrightarrow> (\<forall>o'\<in>set os. \<forall>ip m. parse_cidr o' = Some (ip, m) \<longrightarrow> \<not> netsOverlap n m)"
    by (induction os) (auto simp: List.map_filter_simps split: option.split)
  finally show ?thesis .
qed

lemma sort_Nil [simp]: "sort xs = [] \<longleftrightarrow> xs = ([] :: 'a :: linorder list)"
  by (metis length_0_conv length_sort)

lemma subnetConflicts_Nil:
  assumes "subnetConflicts oldN newN own es = []" and "e \<in> set es" "\<not> own (Dev e)" "\<not> netsOverlap oldN (Net e)"
  shows "\<not> netsOverlap newN (Net e)"
  using assms by (auto simp: subnetConflicts_def firsts_Nil filter_empty_conv)

text \<open>Two networks share no address.\<close>

definition disjoint_nets :: "string \<Rightarrow> string \<Rightarrow> bool" where
  "disjoint_nets a b \<longleftrightarrow>
     (case (parse_cidr a, parse_cidr b) of
        (Some (_, n), Some (_, m)) \<Rightarrow> \<not> netsOverlap n m
      | _ \<Rightarrow> True)"

lemma disjoint_nets_iff:
  "disjoint_nets a b \<longleftrightarrow>
     (\<forall>i n j m x. parse_cidr a = Some (i, n) \<longrightarrow> parse_cidr b = Some (j, m) \<longrightarrow>
        \<not> (net_contains n x \<and> net_contains m x))"
proof -
  have "netsOverlap n m \<longleftrightarrow> (\<exists>x. net_contains n x \<and> net_contains m x)"
    if "parse_cidr a = Some (i, n)" "parse_cidr b = Some (j, m)" for i n j m
    using parse_cidr_Some [OF that(1)] parse_cidr_Some [OF that(2)] netsOverlap_iff by blast
  then show ?thesis by (auto simp: disjoint_nets_def split: option.split)
qed

text \<open>The pools once the plan has been carried out; a protocol that is not widened keeps its own.\<close>

definition wg_after :: "string \<Rightarrow> expandPlan \<Rightarrow> string" where
  "wg_after cur p = (if WGNewAddr p = [] then cur else WGNewAddr p)"

definition ovpn_after :: "string \<Rightarrow> expandPlan \<Rightarrow> string" where
  "ovpn_after cur p = (if OvNewNet p = [] then cur else OvNewNet p)"

lemma parse_networkOf:
  "parse_cidr a = Some (i, n) \<Longrightarrow> parse_cidr (networkOf a) = Some (net_ip n, n)"
  using parse_cidr_Some [of a i n] parse_cidr_net_str by (auto simp: networkOf_def)

lemma cidr_str_not_Nil: "cidr_str ip k \<noteq> []"
  by (simp add: cidr_str_def)

lemma head_address_net: "head_address text = Some (ip, n) \<Longrightarrow> \<exists>k. is_net n k \<and> n = mk_net ip k"
proof -
  have "foldl address_line acc ls = Some (ip, n) \<Longrightarrow>
      (\<And>i m. acc = Some (i, m) \<Longrightarrow> \<exists>k. is_net m k \<and> m = mk_net i k) \<Longrightarrow>
      \<exists>k. is_net n k \<and> n = mk_net ip k" for acc ls
  proof (induction ls arbitrary: acc)
    case (Cons l ls)
    have "\<exists>k. is_net m k \<and> m = mk_net i k" if "address_line acc l = Some (i, m)" for i m
      using that Cons.prems(2) parse_cidr_Some
      by (fastforce simp: address_line_def Let_def split: if_splits option.splits)
    with Cons show ?case by simp
  qed simp
  then show "head_address text = Some (ip, n) \<Longrightarrow> \<exists>k. is_net n k \<and> n = mk_net ip k"
    unfolding head_address_def by blast
qed

lemma interfaceHead_Inr:
  assumes "interfaceHead path w = (Inr (head, n, srv), w')"
  obtains k where "w' = w" "is_net n k" "n = mk_net srv k" "fileExists path w"
proof -
  from assms obtain tx where f: "file_text w path = Some tx" "head_address tx = Some (srv, n)" "w' = w"
    by (auto simp: interfaceHead_def split: option.splits prod.splits)
  then have "fileExists path w" by (auto simp: fileExists_def file_text_def)
  with head_address_net [OF f(2)] f(3) that show thesis by blast
qed

text \<open>What the two halves of the plan say about the networks they name.\<close>

lemma plan_wg_steps:
  assumes h: "interfaceHead (WGConf cfg) w = (Inr (head, n, srv), w)" and ne: "WGConf cfg \<noteq> []"
    and p: "plan_wg cfg plen w = (Inr (cur, old, new), w')"
  shows "cur = net_str n \<and> w' = w \<and>
    (new \<noteq> [] \<longrightarrow> parse_cidr old = Some (srv, n) \<and>
       parse_cidr new = Some (srv, mk_net srv (nat plen)) \<and> nat plen \<le> 32)"
proof -
  from interfaceHead_Inr [OF h] obtain k where k: "is_net n k" "n = mk_net srv k" "fileExists (WGConf cfg) w"
    by blast
  then have k32: "k \<le> 32" and ones: "net_ones n = k" by (simp_all add: is_net_def net_ones_def)
  have old: "parse_cidr (cidr_str srv k) = Some (srv, n)" using k32 k(2) by simp
  obtain nw ch where c: "widenCIDR (cidr_str srv k) plen True = Inr (nw, ch)" "cur = net_str n" "w' = w"
    "(old, new) = (if ch then (cidr_str srv k, nw) else ([], []))"
  proof (cases "widenCIDR (cidr_str srv k) plen True")
    case (Inr r)
    then show thesis using p k(3) ne that [of "fst r" "snd r"]
      by (auto simp: plan_wg_def and_then_def h ones Let_def split: if_splits prod.splits)
  qed (use p k(3) ne in \<open>simp add: plan_wg_def and_then_def h ones\<close>)
  show ?thesis
  proof (cases ch)
    case True
    from c(1) True have "widenCIDR (cidr_str srv k) plen True = Inr (nw, True)" by simp
    then obtain ip n' k' where
      w: "parse_cidr (trim_space (cidr_str srv k)) = Some (ip, n')" "nat plen < k'" "k' \<le> 32"
        "nw = cidr_str ip (nat plen)"
      by (rule widenCIDR_changed) (use that in simp)
    then have "ip = srv" using old by (simp add: cidr_str_tight)
    with w c True old show ?thesis by simp
  next
    case False
    with c show ?thesis by simp
  qed
qed

lemma plan_ovpn_steps:
  assumes p: "plan_ovpn cfg True plen = Inr (cur, old, new)" and ne: "new \<noteq> []"
  shows "cur = networkOf (OvpnSubnet cfg) \<and> old = cur \<and> (\<exists>i m. parse_cidr new = Some (i, m))"
proof -
  from p ne have c: "cur = networkOf (OvpnSubnet cfg)" "old = cur" "widenCIDR (OvpnSubnet cfg) plen False = Inr (new, True)"
    by (auto simp: plan_ovpn_def Let_def split: sum.splits if_splits prod.splits)
  from c(3) obtain ip k where
    "nat plen < k" "k \<le> 32" "new = cidr_str (ip_and ip (cidr_mask (nat plen))) (nat plen)"
    by (rule widenCIDR_changed) (use that in simp)
  with c show ?thesis by simp
qed

lemma plan_ovpn_cur: "plan_ovpn cfg True plen = Inr (cur, old, new) \<Longrightarrow> cur = networkOf (OvpnSubnet cfg)"
  by (auto simp: plan_ovpn_def Let_def split: sum.splits)

text \<open>No network of the host outside the pool's own devices is newly covered.\<close>

definition clear_of_host :: "(string \<Rightarrow> bool) \<Rightarrow> ipnet \<Rightarrow> ipnet \<Rightarrow> netEntry list \<Rightarrow> bool" where
  "clear_of_host own oldN newN es \<longleftrightarrow>
     list_all (\<lambda>e. own (Dev e) \<or> netsOverlap oldN (Net e) \<or> \<not> netsOverlap newN (Net e)) es"

lemma subnetConflicts_clear: "subnetConflicts oldN newN own es = [] \<longleftrightarrow> clear_of_host own oldN newN es"
  by (auto simp: subnetConflicts_def firsts_Nil filter_empty_conv clear_of_host_def list_all_iff)

lemma wg_conflicts_Nil:
  assumes "parse_cidr old = Some (i, oldN)" and "parse_cidr new = Some (j, newN)"
  shows "wg_conflicts cfg es old new others = [] \<longleftrightarrow>
    clear_of_host (poolDevs oldN es [Interface cfg]) oldN newN es \<and>
    (\<forall>o'\<in>set others. disjoint_nets new o')"
  using assms
  by (simp add: wg_conflicts_def prefixAll_def subnetConflicts_clear overlap_with_Nil disjoint_nets_def
      split: option.split)

lemma ovpn_conflicts_Nil:
  assumes "parse_cidr old = Some (i, oldN)" and "parse_cidr new = Some (j, newN)"
  shows "ovpn_conflicts es plen old new others = [] \<longleftrightarrow>
    nextIP (net_ip oldN) = nextIP (net_ip newN) \<and> clear_of_host (poolDevs oldN es []) oldN newN es \<and>
    (\<forall>o'\<in>set others. disjoint_nets new o')"
  using assms
  by (simp add: ovpn_conflicts_def prefixAll_def subnetConflicts_clear overlap_with_Nil disjoint_nets_def Let_def
      split: option.split)

lemma disjoint_nets_sym: "disjoint_nets a b = disjoint_nets b a"
  by (auto simp: disjoint_nets_def netsOverlap_sym split: option.split prod.split)

lemma sort_conflicts_Nil: "sort (if b then [] else xs) = [] \<longleftrightarrow> b \<or> xs = ([] :: string list)"
  by simp

text \<open>What a plan without conflicts on one side says.\<close>

lemma make_plan_wg:
  assumes "drop_conflicts (make_plan cfg plen es (cw, ow, nw) (co, oo, no)) = q" and "WGNewAddr q \<noteq> []"
  shows "WGNewAddr q = nw \<and> nw \<noteq> [] \<and> wg_conflicts cfg es ow nw [co, no] = []"
  using assms by (auto simp: drop_conflicts_def make_plan_def split: if_splits)

lemma make_plan_ovpn:
  assumes "drop_conflicts (make_plan cfg plen es (cw, ow, nw) (co, oo, no)) = q" and "OvNewNet q \<noteq> []"
  shows "OvNewNet q = no \<and> no \<noteq> [] \<and> ovpn_conflicts es plen oo no [cw, networkOf nw] = []"
  using assms by (auto simp: drop_conflicts_def make_plan_def split: if_splits)

lemma disjoint_networkOf: "disjoint_nets a (networkOf b) \<longleftrightarrow> disjoint_nets a b" if "parse_cidr b = Some (i, m)"
  using parse_networkOf [OF that] that by (simp add: disjoint_nets_def split: option.split)

section \<open>Properties of the expansion\<close>


text \<open>
  C23. A plan that is carried out leaves the two pools apart.  After the conflicting half is dropped, the
  WireGuard pool and the OpenVPN pool that are then in force share no address, whichever of them was widened;
  a widened pool reaches no network of the host that the old one did not, its own devices aside; and OpenVPN's
  server keeps its address.
\<close>

theorem clean_plan_is_safe:
  assumes h: "interfaceHead (WGConf cfg) w = (Inr (head, n, srv), w)" and ne: "WGConf cfg \<noteq> []"
    and p: "buildExpandPlan cfg True plen es w = (Inr p, w')" and q: "\<not> plan_empty (drop_conflicts p)"
  shows "disjoint_nets (wg_after (net_str n) (drop_conflicts p))
      (ovpn_after (networkOf (OvpnSubnet cfg)) (drop_conflicts p)) \<and>
    (WGNewAddr (drop_conflicts p) \<noteq> [] \<longrightarrow>
       clear_of_host (poolDevs n es [Interface cfg]) n (mk_net srv (nat plen)) es) \<and>
    (OvNewNet (drop_conflicts p) \<noteq> [] \<longrightarrow>
       (\<exists>i j old new. parse_cidr (networkOf (OvpnSubnet cfg)) = Some (i, old) \<and>
          parse_cidr (OvNewNet (drop_conflicts p)) = Some (j, new) \<and>
          nextIP (net_ip old) = nextIP (net_ip new) \<and> clear_of_host (poolDevs old es []) old new es))"
proof -
  obtain cw ow nw co oo no where wg: "plan_wg cfg plen w = (Inr (cw, ow, nw), w)"
    and ov: "plan_ovpn cfg True plen = Inr (co, oo, no)"
    and nil: "no \<noteq> [] \<longrightarrow> parse_cidr oo \<noteq> None"
    and P: "p = make_plan cfg plen es (cw, ow, nw) (co, oo, no)"
    using p plan_wg_steps [OF h ne]
    by (fastforce simp: buildExpandPlan_def and_then_Inr_iff split: if_splits)
  define q where "q = drop_conflicts p"
  note qd = q_def [unfolded P, symmetric]
  note W = plan_wg_steps [OF h ne wg]
  have co: "co = networkOf (OvpnSubnet cfg)" by (rule plan_ovpn_cur [OF ov])
  have a: "wg_conflicts cfg es ow nw [co, no] = []" "WGNewAddr q = nw" "parse_cidr ow = Some (srv, n)"
      "parse_cidr nw = Some (srv, mk_net srv (nat plen))" if "WGNewAddr q \<noteq> []"
    using make_plan_wg [OF qd that] W by auto
  have b: "ovpn_conflicts es plen oo no [cw, networkOf nw] = [] \<and> OvNewNet q = no \<and> oo = co \<and>
      (\<exists>i m. parse_cidr no = Some (i, m)) \<and> (\<exists>i m. parse_cidr oo = Some (i, m))" if "OvNewNet q \<noteq> []"
    using make_plan_ovpn [OF qd that] plan_ovpn_steps [OF ov] nil by auto
  have A: "clear_of_host (poolDevs n es [Interface cfg]) n (mk_net srv (nat plen)) es \<and>
      disjoint_nets nw co \<and> disjoint_nets nw no" if "WGNewAddr q \<noteq> []"
    using a(1) [OF that] wg_conflicts_Nil [OF a(3) [OF that] a(4) [OF that]] by simp
  have B: "\<exists>i j old new. parse_cidr co = Some (i, old) \<and> parse_cidr no = Some (j, new) \<and>
      nextIP (net_ip old) = nextIP (net_ip new) \<and> clear_of_host (poolDevs old es []) old new es \<and>
      disjoint_nets no cw" if "OvNewNet q \<noteq> []"
  proof -
    from b [OF that] obtain i old j new where "parse_cidr oo = Some (i, old)" "parse_cidr no = Some (j, new)" "oo = co"
      and c: "ovpn_conflicts es plen oo no [cw, networkOf nw] = []" by blast
    with ovpn_conflicts_Nil [OF this(1,2)] show ?thesis by auto
  qed
  have "disjoint_nets (wg_after (net_str n) q) (ovpn_after co q)"
    using A B a(2) b W assms(4) disjoint_nets_sym
    by (auto simp: wg_after_def ovpn_after_def plan_empty_def q_def [symmetric])
  then show ?thesis using A B b co unfolding q_def [symmetric] by auto
qed

text \<open>
  C25. The widened copies keep the order of the firewall.  Running the insertions in the order the code returns
  them turns each chain of the dump into itself with every rule that mentions the old network, and is not
  negated there, directly behind its copy for the new one: the precomputed positions stay valid while rules
  are inserted, and the other chains' commands do not disturb them.
\<close>

theorem firewall_copies_in_order:
  assumes "length (lines dump) < 2 ^ 64"
  shows "fold (\<lambda>c. insert_args chain (snd c)) (fst (widenRuleArgs table dump old new))
      (chain_rules chain (lines dump)) =
    concat (map (with_copy old new) (chain_rules chain (lines dump)))"
proof -
  have "fst (widenRuleArgs table dump old new) = rev (fst (widen_lines table old new (\<lambda>_. 0) (lines dump)))"
    by (simp add: widenRuleArgs_def split: prod.split)
  with widen_lines_inserts [of "[]" "\<lambda>_. 0" chain "lines dump" "length (lines dump)" table old new] assms
  show ?thesis by simp
qed

definition demo_dump :: string where
  "demo_dump = ''-P FORWARD DROP'' @ nl @ ''-A FORWARD -s 10.0.0.0/24 -j ACCEPT'' @ nl @
     ''-A INPUT -d 10.0.0.0/24 -j DROP'' @ nl @ ''-A FORWARD -j DROP''"

lemma firewall_copies_in_order_witness:
  "fold (\<lambda>c. insert_args ''FORWARD'' (snd c))
      (fst (widenRuleArgs ''filter'' demo_dump ''10.0.0.0/24'' ''10.0.0.0/16''))
      (chain_rules ''FORWARD'' (lines demo_dump)) =
    [[''-s'', ''10.0.0.0/16'', ''-j'', ''ACCEPT''], [''-s'', ''10.0.0.0/24'', ''-j'', ''ACCEPT''], [''-j'', ''DROP'']]"
proof -
  have "length (lines demo_dump) = 4" by code_simp
  then have "length (lines demo_dump) < 2 ^ 64" by simp
  from firewall_copies_in_order [OF this, of "''FORWARD''" "''filter''" "''10.0.0.0/24''" "''10.0.0.0/16''"]
  show ?thesis by (rule trans) code_simp
qed

lemma replace_server_Some:
  "replace_server new ls = Some ls' \<Longrightarrow>
     \<exists>pre l post. ls = pre @ l # post \<and> is_server_line l \<and> list_all (\<lambda>x. \<not> is_server_line x) pre \<and>
       ls' = pre @ new # post"
proof (induction ls arbitrary: ls')
  case (Cons l ls)
  show ?case
  proof (cases "is_server_line l")
    case True
    then show ?thesis using Cons.prems by (intro exI [of _ "[]"] exI [of _ l] exI [of _ ls]) auto
  next
    case False
    then obtain ls2 where r: "replace_server new ls = Some ls2" "ls' = l # ls2" using Cons.prems by auto
    from Cons.IH [OF r(1)] obtain pre m post where
      "ls = pre @ m # post" "is_server_line m" "list_all (\<lambda>x. \<not> is_server_line x) pre" "ls2 = pre @ new # post"
      by blast
    with False r(2) show ?thesis by (intro exI [of _ "l # pre"] exI [of _ m] exI [of _ post]) auto
  qed
qed simp

lemma replace_server_pre:
  "list_all (\<lambda>x. \<not> is_server_line x) pre \<Longrightarrow> is_server_line l \<Longrightarrow>
     replace_server new (pre @ l # post) = Some (pre @ new # post)"
  by (induction pre) auto

lemma server_line_is: "is_server_line (server_line n)"
proof -
  have s: "word_like ''server''" by code_simp
  have "str_fields (server_line n) = [''server'', ip_str (net_ip n), ip_str (net_mask n)]"
    unfolding server_line_def
    using str_fields_Cons [OF s, of "ip_str (net_ip n) @ '' '' @ ip_str (net_mask n)"]
      str_fields_Cons [OF ip_str_word_like, of "net_ip n" "ip_str (net_mask n)"]
    by (simp add: str_fields_word)
  then show ?thesis by (simp add: is_server_line_def)
qed

lemma server_line_one: "CHR 0x0A \<notin> set (server_line n)"
proof
  assume "CHR 0x0A \<in> set (server_line n)"
  moreover have "CHR 0x0A \<notin> set (ip_str x)" for x using ip_str_chars [of "CHR 0x0A" x] by (auto simp: is_digit_def)
  ultimately show False by (simp add: server_line_def)
qed

text \<open>
  Only the \<^verbatim>\<open>server\<close> directive of \<^verbatim>\<open>server.conf\<close> changes: the first line that is one is replaced, every other
  line stays, and rewriting the result again changes nothing.
\<close>

theorem server_line_replaced:
  assumes "rewriteOvpnServerLine tx subnet = (out, True)"
  shows "\<exists>pre l post i n. parse_cidr subnet = Some (i, n) \<and> lines tx = pre @ l # post \<and> is_server_line l \<and>
    list_all (\<lambda>x. \<not> is_server_line x) pre \<and> lines out = pre @ server_line n # post \<and>
    rewriteOvpnServerLine out subnet = (out, True)"
proof -
  obtain i n ls where s: "parse_cidr subnet = Some (i, n)" "replace_server (server_line n) (lines tx) = Some ls"
    "out = join nl ls"
    using assms by (auto simp: rewriteOvpnServerLine_def split: option.splits)
  from replace_server_Some [OF s(2)] obtain pre l post where
    r: "lines tx = pre @ l # post" "is_server_line l" "list_all (\<lambda>x. \<not> is_server_line x) pre"
      "ls = pre @ server_line n # post" by blast
  have "\<forall>w\<in>set ls. CHR 0x0A \<notin> set w"
    using lines_no_newline [of _ tx] server_line_one unfolding r(1,4) by auto
  then have o: "lines out = ls" using r(4) split_on_join [of ls "CHR 0x0A"] by (simp add: s(3) lines_def nl_def)
  have "rewriteOvpnServerLine out subnet = (out, True)"
    using replace_server_pre [OF r(3) server_line_is]
    unfolding rewriteOvpnServerLine_def s(1) o by (simp add: s(3) r(4))
  then show ?thesis using s(1) r o by blast
qed

lemma server_line_replaced_witness:
  "\<exists>out. rewriteOvpnServerLine (''port 1194'' @ nl @ server_line (mk_net (IP4 10 8 0 0) 24) @ nl @ ''verb 3'')
        (cidr_str (IP4 10 8 0 0) 16) = (out, True) \<and>
      lines out = [''port 1194'', server_line (mk_net (IP4 10 8 0 0) 16), ''verb 3'']"
proof -
  let ?t = "''port 1194'' @ nl @ server_line (mk_net (IP4 10 8 0 0) 24) @ nl @ ''verb 3''"
  have l: "lines ?t = [''port 1194'', server_line (mk_net (IP4 10 8 0 0) 24), ''verb 3'']" by code_simp
  have p: "\<not> is_server_line ''port 1194''" "\<not> is_server_line ''verb 3''" by code_simp+
  then have r: "rewriteOvpnServerLine ?t (cidr_str (IP4 10 8 0 0) 16) =
      (join nl [''port 1194'', server_line (mk_net (IP4 10 8 0 0) 16), ''verb 3''], True)" (is "_ = (?o, True)")
    unfolding rewriteOvpnServerLine_def l by (simp add: server_line_is)
  from server_line_replaced [OF this] obtain pre l post i n where
    t: "parse_cidr (cidr_str (IP4 10 8 0 0) 16) = Some (i, n)" "lines ?t = pre @ l # post" "is_server_line l"
      "lines ?o = pre @ server_line n # post" by blast
  have "parse_cidr (cidr_str (IP4 10 8 0 0) 16) = Some (IP4 10 8 0 0, mk_net (IP4 10 8 0 0) 16)" by simp
  with t(1) have n: "n = mk_net (IP4 10 8 0 0) 16" by (metis option.inject prod.inject)
  from t(2,3) p have "pre = [''port 1194''] \<and> post = [''verb 3'']"
    unfolding l by (auto simp: Cons_eq_append_conv)
  with t(4) r show ?thesis unfolding n by auto
qed


section \<open>Who is locked out\<close>

definition pushed :: "peer \<Rightarrow> string \<Rightarrow> string" where
  "pushed p netmask = ''ifconfig-push '' @ OvpnIP p @ '' '' @ netmask @ nl"

text \<open>One user's turn: skipped, or the file rewritten.\<close>

lemma rewrite_ccds_Cons:
  assumes "rewrite_ccds os cfg netmask (p # ps) w = (Inr (), w')"
  obtains (skip) "OvpnCN p = [] \<or> OvpnIP p = [] \<or> \<not> fileExists (ccd_path cfg (Username p)) w"
      "rewrite_ccds os cfg netmask ps w = (Inr (), w')"
  | (rewrite) w1 where "OvpnCN p \<noteq> []" "OvpnIP p \<noteq> []" "fileExists (ccd_path cfg (Username p)) w"
      "files w1 = (files w)(ccd_path cfg (Username p) \<mapsto> \<lparr>content = pushed p netmask, mtime = now w\<rparr>)"
      "rewrite_ccds os cfg netmask ps w1 = (Inr (), w')"
proof (cases "OvpnCN p = [] \<or> OvpnIP p = [] \<or> \<not> fileExists (ccd_path cfg (Username p)) w")
  case True
  with assms show thesis by (intro skip) simp_all
next
  case False
  with assms obtain w1 where
    1: "writeFileMode os (ccd_path cfg (Username p)) (pushed p netmask) w = (Inr (), w1)"
      "rewrite_ccds os cfg netmask ps w1 = (Inr (), w')"
    by (auto simp: and_then_Inr_iff pushed_def)
  then have "files w1 = (files w)(ccd_path cfg (Username p) \<mapsto> \<lparr>content = pushed p netmask, mtime = now w\<rparr>)"
    by (auto simp: writeFileMode_def or_die_def write_file_def split: option.splits)
  with 1(2) False show thesis by (intro rewrite) simp_all
qed

lemma rewrite_ccds_exists:
  "rewrite_ccds os cfg netmask ps w = (Inr (), w') \<Longrightarrow> fileExists path w' = fileExists path w"
proof (induction ps arbitrary: w)
  case (Cons p ps)
  from Cons.prems show ?case
  proof (cases rule: rewrite_ccds_Cons)
    case skip
    show ?thesis by (rule Cons.IH [OF skip(2)])
  next
    case (rewrite w1)
    then show ?thesis using Cons.IH [OF rewrite(5)] by (auto simp: fileExists_def)
  qed
qed simp

definition rewritten :: "config \<Rightarrow> peer list \<Rightarrow> string \<Rightarrow> bool" where
  "rewritten cfg ps path \<longleftrightarrow>
     list_ex (\<lambda>p. OvpnCN p \<noteq> [] \<and> OvpnIP p \<noteq> [] \<and> ccd_path cfg (Username p) = path) ps"

lemma rewritten_simps [simp]:
  "\<not> rewritten cfg [] path"
  "rewritten cfg (p # ps) path \<longleftrightarrow>
     OvpnCN p \<noteq> [] \<and> OvpnIP p \<noteq> [] \<and> ccd_path cfg (Username p) = path \<or> rewritten cfg ps path"
  by (simp_all add: rewritten_def)

lemma rewrite_ccds_other:
  "rewrite_ccds os cfg netmask ps w = (Inr (), w') \<Longrightarrow> \<not> rewritten cfg ps path \<Longrightarrow> files w' path = files w path"
proof (induction ps arbitrary: w)
  case (Cons p ps)
  from Cons.prems(1) show ?case
  proof (cases rule: rewrite_ccds_Cons)
    case skip
    then show ?thesis using Cons by simp
  next
    case (rewrite w1)
    then show ?thesis using Cons.IH [OF rewrite(5)] Cons.prems(2) by (auto simp: fun_upd_def split: if_splits)
  qed
qed simp

lemma rewrite_ccds_pushed:
  "rewrite_ccds os cfg netmask ps w = (Inr (), w') \<Longrightarrow> rewritten cfg ps path \<Longrightarrow> fileExists path w \<Longrightarrow>
     (\<And>q. q \<in> set ps \<Longrightarrow> ccd_path cfg (Username q) = path \<Longrightarrow> OvpnIP q = ip) \<Longrightarrow>
     file_text w' path = Some (''ifconfig-push '' @ ip @ '' '' @ netmask @ nl)"
proof (induction ps arbitrary: w)
  case (Cons p ps)
  from Cons.prems(1) show ?case
  proof (cases rule: rewrite_ccds_Cons)
    case skip
    then have "rewritten cfg ps path" using Cons.prems(2,3) by auto
    then show ?thesis using Cons.IH [OF skip(2)] Cons.prems(3,4) by simp
  next
    case (rewrite w1)
    have ex: "fileExists path w1" using rewrite(4) Cons.prems(3) by (simp add: fileExists_def)
    show ?thesis
    proof (cases "rewritten cfg ps path")
      case True
      then show ?thesis using Cons.IH [OF rewrite(5) True ex] Cons.prems(4) by simp
    next
      case False
      then have "ccd_path cfg (Username p) = path" using Cons.prems(2) by simp
      then show ?thesis using rewrite_ccds_other [OF rewrite(5) False] rewrite(4) Cons.prems(4) [of p]
        by (simp add: file_text_def pushed_def)
    qed
  qed
qed simp

text \<open>
  C24. Rewriting the client files resurrects nobody.  No file appears and none vanishes, so a user whose file was
  removed stays refused by \<^verbatim>\<open>ccd-exclusive\<close>; a file that is no attached user's is untouched; and each attached
  user's file pushes the address the user already has, with the new mask.
\<close>

theorem expansion_keeps_lockouts:
  assumes run: "rewrite_ccds os cfg netmask ps w = (Inr (), w')"
  shows "(\<forall>path. fileExists path w' = fileExists path w) \<and>
    (\<forall>path. \<not> rewritten cfg ps path \<longrightarrow> files w' path = files w path) \<and>
    (\<forall>p\<in>set ps. rewritten cfg ps (ccd_path cfg (Username p)) \<and> fileExists (ccd_path cfg (Username p)) w \<and>
       (\<forall>q\<in>set ps. ccd_path cfg (Username q) = ccd_path cfg (Username p) \<longrightarrow> q = p) \<longrightarrow>
       file_text w' (ccd_path cfg (Username p)) = Some (pushed p netmask))"
proof (intro conjI allI ballI impI)
  fix path
  show "fileExists path w' = fileExists path w" by (rule rewrite_ccds_exists [OF run])
  show "files w' path = files w path" if "\<not> rewritten cfg ps path" using rewrite_ccds_other [OF run that] .
next
  fix p
  assume "p \<in> set ps" and a: "rewritten cfg ps (ccd_path cfg (Username p)) \<and> fileExists (ccd_path cfg (Username p)) w \<and>
    (\<forall>q\<in>set ps. ccd_path cfg (Username q) = ccd_path cfg (Username p) \<longrightarrow> q = p)"
  show "file_text w' (ccd_path cfg (Username p)) = Some (pushed p netmask)"
    unfolding pushed_def by (rule rewrite_ccds_pushed [OF run]) (use a in auto)
qed

lemma rewrite_ccds_runs:
  "fs_err os = (\<lambda>c p. None) \<Longrightarrow> \<exists>w'. rewrite_ccds os cfg netmask ps w = (Inr (), w')"
  by (induction ps arbitrary: w) (auto simp: and_then_def writeFileMode_def or_die_def write_file_def)

lemma expansion_keeps_lockouts_witness:
  "\<exists>w'. rewrite_ccds demo_os (sample_config\<lparr>OvpnDir := ''/etc/openvpn''\<rparr>) ''255.255.0.0'' [ann, bob]
        (demo_world sample_store\<lparr>files := [''/etc/openvpn/ccd/ann'' \<mapsto> \<lparr>content = [], mtime = 0\<rparr>]\<rparr>) = (Inr (), w') \<and>
      \<not> fileExists ''/etc/openvpn/ccd/bob'' w' \<and>
      file_text w' ''/etc/openvpn/ccd/ann'' = Some (pushed ann ''255.255.0.0'')"
proof -
  let ?c = "sample_config\<lparr>OvpnDir := ''/etc/openvpn''\<rparr>"
  let ?w = "demo_world sample_store\<lparr>files := [''/etc/openvpn/ccd/ann'' \<mapsto> \<lparr>content = [], mtime = 0\<rparr>]\<rparr>"
  obtain w' where r: "rewrite_ccds demo_os ?c ''255.255.0.0'' [ann, bob] ?w = (Inr (), w')"
    using rewrite_ccds_runs [of demo_os ?c "''255.255.0.0''" "[ann, bob]" ?w] unfolding demo_os_def
    by (auto simp del: rewrite_ccds.simps)
  have c: "ccd_path ?c (Username ann) = ''/etc/openvpn/ccd/ann''" "ccd_path ?c (Username bob) = ''/etc/openvpn/ccd/bob''"
    by code_simp+
  have a: "OvpnCN ann \<noteq> []" "OvpnIP ann \<noteq> []" by code_simp+
  from expansion_keeps_lockouts [OF r] have "\<not> fileExists ''/etc/openvpn/ccd/bob'' w'"
    by (simp add: fileExists_def)
  moreover from expansion_keeps_lockouts [OF r] have
    "file_text w' (ccd_path ?c (Username ann)) = Some (pushed ann ''255.255.0.0'')"
    using a by (simp add: c fileExists_def)
  ultimately show ?thesis using r unfolding c by blast
qed

definition demo_pools :: config where
  "demo_pools = sample_config\<lparr>OvpnSubnet := cidr_str (IP4 10 8 0 0) 24\<rparr>"

lemma clean_plan_is_safe_witness:
  "\<exists>p w'. buildExpandPlan demo_pools True 16 [] (demo_world sample_store) = (Inr p, w') \<and>
     \<not> plan_empty (drop_conflicts p) \<and>
     disjoint_nets (wg_after (net_str (mk_net (IP4 10 66 66 1) 24)) (drop_conflicts p))
       (ovpn_after (networkOf (OvpnSubnet demo_pools)) (drop_conflicts p))"
proof -
  let ?w = "demo_world sample_store"
  let ?wg = "IP4 10 66 66 1" and ?ov = "IP4 10 8 0 0"
  have w: "WGConf demo_pools = ''/etc/wireguard/wg0.conf''" "OvpnSubnet demo_pools = cidr_str ?ov 24"
    by (simp_all add: demo_pools_def sample_config_def)
  have h: "interfaceHead (WGConf demo_pools) ?w = (Inr (demo_conf, mk_net ?wg 24, ?wg), ?w)"
    by (simp add: w interfaceHead_def demo_world_def file_text_def demo_head)
  have v1: "widenCIDR (cidr_str ?wg 24) 16 True = Inr (cidr_str ?wg 16, True)"
    by (simp add: widenCIDR_def cidr_str_tight)
  have "ip_and ?ov (cidr_mask 16) = ?ov" by code_simp
  then have v2: "widenCIDR (cidr_str ?ov 24) 16 False = Inr (cidr_str ?ov 16, True)"
    by (simp add: widenCIDR_def cidr_str_tight)
  have ex: "fileExists (WGConf demo_pools) ?w" by (simp add: w fileExists_def demo_world_def)
  have p1: "plan_wg demo_pools 16 ?w = (Inr (net_str (mk_net ?wg 24), cidr_str ?wg 24, cidr_str ?wg 16), ?w)"
    using ex unfolding plan_wg_def by (simp add: and_then_def h v1 Let_def) (simp add: w)
  have "net_ip (mk_net ?ov 24) = ?ov" by code_simp
  then have n: "networkOf (cidr_str ?ov 24) = cidr_str ?ov 24"
    using net_str_is_net [OF is_net_mk_net, of 24 ?ov] by (simp add: networkOf_def)
  have p2: "plan_ovpn demo_pools True 16 = Inr (cidr_str ?ov 24, cidr_str ?ov 24, cidr_str ?ov 16)"
    by (simp add: plan_ovpn_def w n v2 Let_def)
  define p where "p = make_plan demo_pools 16 []
    (net_str (mk_net ?wg 24), cidr_str ?wg 24, cidr_str ?wg 16) (cidr_str ?ov 24, cidr_str ?ov 24, cidr_str ?ov 16)"
  have b: "buildExpandPlan demo_pools True 16 [] ?w = (Inr p, ?w)"
    unfolding buildExpandPlan_def by (simp add: and_then_def p1 p2 p_def)
  have "\<not> netsOverlap (mk_net ?wg 16) (mk_net ?ov 24)" "\<not> netsOverlap (mk_net ?wg 16) (mk_net ?ov 16)" by code_simp+
  then have "wg_conflicts demo_pools [] (cidr_str ?wg 24) (cidr_str ?wg 16) [cidr_str ?ov 24, cidr_str ?ov 16] = []"
    by (subst wg_conflicts_Nil) (simp_all add: clear_of_host_def disjoint_nets_def)
  then have "WGNewAddr (drop_conflicts p) = cidr_str ?wg 16"
    by (simp add: p_def make_plan_def drop_conflicts_def cidr_str_not_Nil)
  then have q: "\<not> plan_empty (drop_conflicts p)" by (simp add: plan_empty_def cidr_str_not_Nil)
  have "WGConf demo_pools \<noteq> []" by (simp add: w)
  from clean_plan_is_safe [OF h this b q] b q show ?thesis by blast
qed

end
