(* ===== verification/Repair.thy ===== *)
theory Repair
  imports Host Blocking OvpnUsers
begin

text \<open>
  Cleaning up: ghosts.go (rows with neither a WireGuard nor an OpenVPN identity) and ovpn_orphans.go (files under
  \<^verbatim>\<open>ccd\<close> that no row owns).  \<^verbatim>\<open>os.ReadDir\<close> is an argument: the names of the files of the directory, or its error;
  directories have no entry of their own.  A command's result is what it prints on standard output; what goes to
  standard error is left out.
\<close>

section \<open>Ghost users\<close>

definition is_ghost :: "peer \<Rightarrow> bool" where
  "is_ghost p \<longleftrightarrow> PublicKey p = [] \<and> OvpnCN p = []"

definition ghostUsers :: "store \<Rightarrow> string list" where
  "ghostUsers st = sort (map Username (filter is_ghost (rows st)))"

definition delete_ghost :: "string \<Rightarrow> store \<Rightarrow> store" where
  "delete_ghost u st = st\<lparr>rows := filter (\<lambda>p. \<not> (Username p = u \<and> is_ghost p)) (rows st)\<rparr>"

definition cmdGhostUsers :: "string list \<Rightarrow> ('k world, string) prog" where
  "cmdGhostUsers args =
     (let m = snd (parseFlags args) in
      and_then loadConfig (\<lambda>_ w.
        let ghosts = ghostUsers (db w);
            found = nat_str (length ghosts) @ '' user(s) with no WireGuard and no OpenVPN identity: '' @ join '', '' ghosts @ nl
        in if ghosts = [] then (Inr (''no ghost users (every user has a WireGuard or OpenVPN identity)'' @ nl), w)
           else if \<not> flag_on m ''delete'' then (Inr (found @ ''delete them with: wgmgr ghost-users --delete'' @ nl), w)
           else (Inr (found @ ''deleted '' @ nat_str (length ghosts) @ '' ghost user(s)'' @ nl),
                 w\<lparr>db := fold delete_ghost ghosts (db w)\<rparr>)))"

section \<open>Orphaned client files\<close>

record orphanEntry =
  oUsername :: string
  CCDMTime :: int
  IsTest :: bool
  Connected :: bool

definition orphan_entry :: "config \<Rightarrow> (string \<Rightarrow> bool) \<Rightarrow> 'k world \<Rightarrow> string \<Rightarrow> orphanEntry option" where
  "orphan_entry cfg liveCNs w name =
     map_option (\<lambda>f. \<lparr>oUsername = name, CCDMTime = mtime f, IsTest = has_prefix name ''bserver_TEST_'',
         Connected = liveCNs name\<rparr>)
       (files w (path_join (path_join (OvpnDir cfg) ''ccd'') name))"

definition listOrphanCCDs ::
  "config \<Rightarrow> string + string list \<Rightarrow> (string \<Rightarrow> bool) \<Rightarrow> (string \<Rightarrow> bool) \<Rightarrow> 'k world \<Rightarrow> string + orphanEntry list" where
  "listOrphanCCDs cfg readdir dbUsernames liveCNs w =
     (case readdir of
        Inl e \<Rightarrow> Inl (''read '' @ path_join (OvpnDir cfg) ''ccd'' @ '': '' @ e)
      | Inr names \<Rightarrow>
          Inr (sort_key oUsername
            (List.map_filter (orphan_entry cfg liveCNs w) (filter (\<lambda>n. \<not> dbUsernames n) names))))"

text \<open>The files a purge deletes; \<open>None\<close> when no purge was asked for.\<close>

definition purge_targets :: "flags \<Rightarrow> orphanEntry list \<Rightarrow> orphanEntry list option" where
  "purge_targets m os =
     (if flag_on m ''purge-test'' then Some (filter IsTest os)
      else if flag_on m ''purge'' then
        (if flag_on m ''force'' then Some os else Some (filter (\<lambda>o'. \<not> Connected o') os))
      else None)"

definition remove_ccd :: "'k os \<Rightarrow> config \<Rightarrow> orphanEntry \<Rightarrow> 'k world \<Rightarrow> 'k world" where
  "remove_ccd os cfg o' w = snd (remove_file os (ccd_path cfg (oUsername o')) w)"

definition live_cns :: "'k os \<Rightarrow> config \<Rightarrow> 'k world \<Rightarrow> string \<Rightarrow> bool" where
  "live_cns os cfg w cn \<longleftrightarrow> ovpnUsage os cfg w cn \<noteq> None"

definition db_names :: "store \<Rightarrow> string \<Rightarrow> bool" where
  "db_names st n \<longleftrightarrow> list_ex (\<lambda>p. Username p = n) (allPeers st)"

definition orphan_row :: "orphanEntry \<Rightarrow> string" where
  "orphan_row o' =
     pad_right 40 (oUsername o') @ '' '' @ pad_right 8 (if IsTest o' then ''test'' else ''user'') @ '' '' @
     pad_right 9 (if Connected o' then ''connected'' else ''-'') @ '' '' @ format_rfc3339 (CCDMTime o') @ nl"

definition orphan_report :: "orphanEntry list \<Rightarrow> string" where
  "orphan_report os =
     ''wgmgr ovpn-orphans: '' @ nat_str (length os) @ '' orphan CCD files'' @ nl @
     ''  test-bot (bserver_TEST_*): '' @ nat_str (length (filter IsTest os)) @
     ''   real users: '' @ nat_str (length (filter (\<lambda>o'. \<not> IsTest o') os)) @
     ''   currently connected: '' @ nat_str (length (filter Connected os)) @ nl @ nl @
     (if os = [] then []
      else pad_right 40 ''USERNAME'' @ '' '' @ pad_right 8 ''TYPE'' @ '' '' @ pad_right 9 ''STATE'' @ '' CCD MTIME'' @ nl @
        concat (map orphan_row os) @ nl @
        unlines [''Actions:'',
          ''  wgmgr ovpn-orphans --purge-test           # remove only bserver_TEST_* CCDs'',
          ''  wgmgr ovpn-orphans --purge                # remove orphans NOT currently connected'',
          ''  wgmgr ovpn-orphans --purge --force        # remove ALL orphans (kicks anyone connected)'',
          ''  ... add --dry-run to any --purge* to preview without deleting.''])"

definition purge_head :: "flags \<Rightarrow> orphanEntry list \<Rightarrow> orphanEntry list \<Rightarrow> string" where
  "purge_head m orphans target =
     ''wgmgr ovpn-orphans: '' @
     (if flag_on m ''purge-test'' then ''test-bot CCDs (bserver_TEST_*)''
      else if flag_on m ''force'' then ''ALL orphans (including currently-connected '' @ dash @ '' these clients will be kicked)''
      else ''orphans not currently connected'') @ nl @
     ''  candidates: '' @ nat_str (length target) @ '' (of '' @ nat_str (length orphans) @ '' total orphans)'' @ nl"

text \<open>What is said while deleting: who is skipped, how many are gone, and whom it cuts off.\<close>

definition purge_done :: "flags \<Rightarrow> orphanEntry list \<Rightarrow> nat \<Rightarrow> string" where
  "purge_done m orphans deleted =
     (let skipped = length (filter (\<lambda>o'. \<not> IsTest o' \<and> Connected o') orphans) in
      if flag_on m ''purge'' \<and> \<not> flag_on m ''force'' \<and> skipped > 0
      then ''  (skipping '' @ nat_str skipped @ '' currently-connected orphans; pass --force to remove them too)'' @ nl else []) @
     ''removed '' @ nat_str deleted @ '' orphan CCD file(s).'' @ nl @
     (if flag_on m ''force''
      then ''note: currently-connected clients will drop at their next reconnect (ccd-exclusive).'' @ nl else [])"

definition purge_orphans ::
  "'k os \<Rightarrow> config \<Rightarrow> flags \<Rightarrow> orphanEntry list \<Rightarrow> orphanEntry list \<Rightarrow> 'k world \<Rightarrow> string \<times> 'k world" where
  "purge_orphans os cfg m orphans target w =
     (let head = purge_head m orphans target in
      if target = [] then (head @ ''  nothing to delete.'' @ nl, w)
      else if flag_on m ''dry-run''
      then (head @ ''  --dry-run set, listing without deleting:'' @ nl @ concat (map orphan_row target), w)
      else (head @ purge_done m orphans
              (length (filter (\<lambda>o'. fs_err os ''remove'' (ccd_path cfg (oUsername o')) = None) target)),
            fold (remove_ccd os cfg) target w))"

definition cmdOvpnOrphans :: "'k os \<Rightarrow> string + string list \<Rightarrow> string list \<Rightarrow> ('k world, string) prog" where
  "cmdOvpnOrphans os readdir args =
     (let m = snd (parseFlags args) in
      if flag_on m ''purge-test'' \<and> flag_on m ''purge''
      then die ''choose one of --purge-test or --purge, not both''
      else and_then loadConfig (\<lambda>cfg w.
        if OvpnDir cfg = [] then (Inl ''OpenVPN is not configured on this host (cfg.OvpnDir is empty)'', w)
        else (case listOrphanCCDs cfg readdir (db_names (db w)) (live_cns os cfg w) w of
                Inl e \<Rightarrow> (Inl (''scan CCDs: '' @ e), w)
              | Inr orphans \<Rightarrow>
                  (case purge_targets m orphans of
                     None \<Rightarrow> (Inr (orphan_report orphans), w)
                   | Some target \<Rightarrow>
                       (case purge_orphans os cfg m orphans target w of (out, w') \<Rightarrow> (Inr out, w'))))))"

section \<open>Lemmas\<close>

lemma fold_delete_ghost:
  "rows (fold delete_ghost us st) = filter (\<lambda>p. \<not> (Username p \<in> set us \<and> is_ghost p)) (rows st) \<and>
   row_seq (fold delete_ghost us st) = row_seq st"
  by (induction us arbitrary: st) (auto simp: delete_ghost_def intro: filter_cong)

lemma set_ghostUsers: "set (ghostUsers st) = Username ` {p \<in> set (rows st). is_ghost p}"
  by (simp add: ghostUsers_def)

lemma remove_ccd_frame [simp]: "db (remove_ccd os cfg e w) = db w" "conf (remove_ccd os cfg e w) = conf w"
  by (simp_all add: remove_ccd_def)

lemma fold_remove_ccd_frame [simp]:
  "db (fold (remove_ccd os cfg) es w) = db w" "conf (fold (remove_ccd os cfg) es w) = conf w"
  by (induction es arbitrary: w) simp_all

lemma fold_remove_ccd_files:
  "files (fold (remove_ccd os cfg) es w) path \<noteq> files w path \<Longrightarrow>
     files (fold (remove_ccd os cfg) es w) path = None \<and> (\<exists>e\<in>set es. path = ccd_path cfg (oUsername e))"
proof (induction es arbitrary: w)
  case (Cons e es)
  have one: "files (remove_ccd os cfg e w) path \<noteq> files w path \<Longrightarrow>
      path = ccd_path cfg (oUsername e) \<and> files (remove_ccd os cfg e w) path = None"
    by (auto simp: remove_ccd_def remove_file_def split: option.splits if_splits)
  show ?case
  proof (cases "files (fold (remove_ccd os cfg) es (remove_ccd os cfg e w)) path = files (remove_ccd os cfg e w) path")
    case True
    with Cons.prems one show ?thesis by auto
  next
    case False
    from Cons.IH [OF this] show ?thesis by auto
  qed
qed simp

lemma fold_remove_ccd_gone:
  assumes "fs_err os = (\<lambda>c p. None)" and "e \<in> set es"
  shows "files (fold (remove_ccd os cfg) es w) (ccd_path cfg (oUsername e)) = None"
proof -
  have none: "files (fold (remove_ccd os cfg) xs w) path = None" if "files w path = None" for xs w path
    using that fold_remove_ccd_files [of os cfg xs w path] by metis
  have one: "files (remove_ccd os cfg e w) (ccd_path cfg (oUsername e)) = None" for w
    using assms(1) by (simp add: remove_ccd_def remove_file_def)
  show ?thesis using assms(2)
    by (induction es arbitrary: w) (auto intro: none one)
qed

lemma set_map_filter_Some: "y \<in> set (List.map_filter f xs) \<longleftrightarrow> (\<exists>x\<in>set xs. f x = Some y)"
  by (induction xs) (auto simp: List.map_filter_simps split: option.split)

lemma orphan_entry_name: "orphan_entry cfg liveCNs w n = Some e \<Longrightarrow> oUsername e = n"
  by (auto simp: orphan_entry_def)

lemma orphan_entry_facts:
  "orphan_entry cfg liveCNs w n = Some e \<Longrightarrow>
     Connected e = liveCNs n \<and> IsTest e = has_prefix n ''bserver_TEST_''"
  by (auto simp: orphan_entry_def)

lemma orphans_iff:
  assumes "listOrphanCCDs cfg (Inr names) known_user liveCNs w = Inr os"
  shows "e \<in> set os \<longleftrightarrow>
    oUsername e \<in> set names \<and> \<not> known_user (oUsername e) \<and> orphan_entry cfg liveCNs w (oUsername e) = Some e"
proof -
  have "e \<in> set os \<longleftrightarrow> (\<exists>n\<in>set (filter (\<lambda>n. \<not> known_user n) names). orphan_entry cfg liveCNs w n = Some e)"
    using assms by (auto simp: listOrphanCCDs_def set_map_filter_Some)
  also have "\<dots> \<longleftrightarrow>
      oUsername e \<in> set names \<and> \<not> known_user (oUsername e) \<and> orphan_entry cfg liveCNs w (oUsername e) = Some e"
    using orphan_entry_name [of cfg liveCNs w _ e] by auto
  finally show ?thesis .
qed

section \<open>Properties\<close>

text \<open>
  Deleting ghost users deletes exactly them: afterwards the rows are those with an identity, in their order,
  so no user who can connect is lost and none without an identity is left.
\<close>

theorem ghosts_deleted_exactly:
  assumes c: "conf w = Some cfg" and f: "flag_on (snd (parseFlags args)) ''delete''"
  shows "\<exists>out w'. cmdGhostUsers args w = (Inr out, w') \<and> rows (db w') = filter (\<lambda>p. \<not> is_ghost p) (rows (db w)) \<and>
    ghostUsers (db w') = [] \<and> files w' = files w"
proof -
  let ?g = "ghostUsers (db w)"
  have "filter (\<lambda>p. \<not> (Username p \<in> set ?g \<and> is_ghost p)) (rows (db w)) = filter (\<lambda>p. \<not> is_ghost p) (rows (db w))"
    by (rule filter_cong) (auto simp: set_ghostUsers)
  then have r: "rows (fold delete_ghost ?g (db w)) = filter (\<lambda>p. \<not> is_ghost p) (rows (db w))"
    by (simp add: fold_delete_ghost)
  have n: "ghostUsers st = [] \<longleftrightarrow> filter is_ghost (rows st) = []" for st
    by (metis ghostUsers_def length_0_conv length_map length_sort)
  define w' where "w' = (if ?g = [] then w else w\<lparr>db := fold delete_ghost ?g (db w)\<rparr>)"
  have "\<exists>out. cmdGhostUsers args w = (Inr out, w')"
    using c f by (simp add: cmdGhostUsers_def loadConfig_def and_then_def w'_def Let_def)
  moreover have "rows (db w') = filter (\<lambda>p. \<not> is_ghost p) (rows (db w))"
    using r n [of "db w"] by (auto simp: w'_def filter_empty_conv)
  moreover from this have "ghostUsers (db w') = []" unfolding n by (simp add: filter_empty_conv)
  ultimately show ?thesis by (auto simp: w'_def)
qed

lemma cmdOvpnOrphans_result:
  assumes run: "cmdOvpnOrphans os listing args w = (r, w')" and c: "conf w = Some cfg"
  obtains (same) "w' = w"
  | (purged) orphans target where
    "listOrphanCCDs cfg listing (db_names (db w)) (live_cns os cfg w) w = Inr orphans"
    "purge_targets (snd (parseFlags args)) orphans = Some target" "w' = fold (remove_ccd os cfg) target w"
proof -
  let ?m = "snd (parseFlags args)"
  have L: "loadConfig w = (Inr cfg, w)" using c by (simp add: loadConfig_def)
  let ?l = "listOrphanCCDs cfg listing (db_names (db w)) (live_cns os cfg w) w"
  show thesis
  proof (cases "flag_on ?m ''purge-test'' \<and> flag_on ?m ''purge''")
    case True
    with run show thesis by (intro same) (simp add: cmdOvpnOrphans_def Let_def)
  next
    case ok: False
    have R: "(if OvpnDir cfg = [] then (Inl ''OpenVPN is not configured on this host (cfg.OvpnDir is empty)'', w)
        else case ?l of Inl e \<Rightarrow> (Inl (''scan CCDs: '' @ e), w)
        | Inr orphans \<Rightarrow> (case purge_targets ?m orphans of None \<Rightarrow> (Inr (orphan_report orphans), w)
            | Some target \<Rightarrow> (case purge_orphans os cfg ?m orphans target w of (out, w') \<Rightarrow> (Inr out, w')))) = (r, w')"
      using run unfolding cmdOvpnOrphans_def Let_def if_not_P [OF ok] by (simp add: and_then_def L)
    show thesis
    proof (cases ?l)
      case (Inl e)
      with R show thesis by (intro same) (simp split: if_splits)
    next
      case (Inr orphans)
      with R show thesis
        by (cases "purge_targets ?m orphans")
          (auto simp: purge_orphans_def Let_def intro: same purged split: if_splits)
    qed
  qed
qed

text \<open>
  C27. A purge deletes only orphans.  The client file of a user in the table is never touched, whatever the flags;
  without \<^verbatim>\<open>--force\<close> the file of a connected client is not touched either, unless it is a test artifact; and
  the table and the configuration stay.
\<close>

theorem purge_spares_users:
  assumes run: "cmdOvpnOrphans os (Inr names) args w = (r, w')" and c: "conf w = Some cfg"
    and names: "\<forall>n\<in>set names. plain_name n \<and> ccd_path cfg n = ccd @ ''/'' @ n"
  shows "db w' = db w \<and> conf w' = conf w \<and>
    (\<forall>u. files w' (ccd @ ''/'' @ u) \<noteq> files w (ccd @ ''/'' @ u) \<longrightarrow>
       u \<in> set names \<and> u \<notin> Username ` set (rows (db w)) \<and>
       (\<not> flag_on (snd (parseFlags args)) ''force'' \<longrightarrow>
          ovpnUsage os cfg w u = None \<or> has_prefix u ''bserver_TEST_''))"
proof -
  let ?m = "snd (parseFlags args)"
  from run c show ?thesis
  proof (cases rule: cmdOvpnOrphans_result)
    case (purged orphans target)
    have "u \<in> set names \<and> u \<notin> Username ` set (rows (db w)) \<and>
        (\<not> flag_on ?m ''force'' \<longrightarrow> ovpnUsage os cfg w u = None \<or> has_prefix u ''bserver_TEST_'')"
      if ch: "files w' (ccd @ ''/'' @ u) \<noteq> files w (ccd @ ''/'' @ u)" for u
    proof -
      obtain e where e: "e \<in> set target" "ccd @ ''/'' @ u = ccd_path cfg (oUsername e)"
        using fold_remove_ccd_files [OF ch [unfolded purged(3)]] by blast
      have t: "e \<in> set orphans" using e(1) purged(2) by (auto simp: purge_targets_def split: if_splits)
      note o' = iffD1 [OF orphans_iff [OF purged(1)] t]
      then have u: "u = oUsername e" using e(2) names by auto
      have "u \<notin> Username ` set (rows (db w))"
        using o' u by (auto simp: db_names_def allPeers_def list_ex_iff)
      moreover have "\<not> Connected e \<or> IsTest e" if "\<not> flag_on ?m ''force''"
        using e(1) purged(2) that by (auto simp: purge_targets_def split: if_splits)
      moreover have "Connected e \<longleftrightarrow> ovpnUsage os cfg w u \<noteq> None" "IsTest e \<longleftrightarrow> has_prefix u ''bserver_TEST_''"
        using orphan_entry_facts [OF conjunct2 [OF conjunct2 [OF o']]] u by (simp_all add: live_cns_def)
      ultimately show ?thesis using o' u by auto
    qed
    then show ?thesis by (simp add: purged(3))
  qed simp
qed

text \<open>
  A dry run shows what the purge would do.  It changes nothing, and the rows it lists are exactly those of the
  files the same command without \<^verbatim>\<open>--dry-run\<close> deletes.
\<close>

theorem dry_run_lists_the_purge:
  assumes c: "conf w = Some cfg" and m: "snd (parseFlags args) = m" "snd (parseFlags dry) = m(''dry-run'' \<mapsto> ''true'')"
    and p: "\<not> flag_on m ''dry-run''" "flag_on m ''purge'' \<or> flag_on m ''purge-test''"
    and n: "\<forall>n\<in>set names. ccd_path cfg n = path_join (path_join (OvpnDir cfg) ''ccd'') n"
    and e: "fs_err os = (\<lambda>c p. None)"
    and run: "cmdOvpnOrphans os (Inr names) args w = (Inr out, w')"
  shows "\<exists>orphans target. purge_targets m orphans = Some target \<and>
    cmdOvpnOrphans os (Inr names) dry w =
      (Inr (purge_head m orphans target @
        (if target = [] then ''  nothing to delete.'' @ nl
         else ''  --dry-run set, listing without deleting:'' @ nl @ concat (map orphan_row target))), w) \<and>
    {path. files w' path \<noteq> files w path} = (\<lambda>o'. ccd_path cfg (oUsername o')) ` set target"
proof -
  let ?d = "m(''dry-run'' \<mapsto> ''true'')"
  have L: "loadConfig w = (Inr cfg, w)" using c by (simp add: loadConfig_def)
  have on: "flag_on ?d k = flag_on m k" if "k \<noteq> ''dry-run''" for k using that by (simp add: flag_on_def)
  have dry: "flag_on ?d ''dry-run''" by (simp add: flag_on_def)
  have sel: "\<not> (flag_on m ''purge-test'' \<and> flag_on m ''purge'')" and dir: "OvpnDir cfg \<noteq> []"
    using run by (auto simp: cmdOvpnOrphans_def m(1) Let_def and_then_def L split: if_splits)
  obtain orphans where O: "listOrphanCCDs cfg (Inr names) (db_names (db w)) (live_cns os cfg w) w = Inr orphans"
    by (simp add: listOrphanCCDs_def)
  obtain target where t: "purge_targets m orphans = Some target"
    using p(2) by (cases "purge_targets m orphans") (auto simp: purge_targets_def split: if_splits)
  have same: "purge_targets ?d = purge_targets m" "purge_head ?d = purge_head m"
    by (simp_all add: fun_eq_iff purge_targets_def purge_head_def on)
  have "cmdOvpnOrphans os (Inr names) dry w = (case purge_orphans os cfg ?d orphans target w of (out, w') \<Rightarrow> (Inr out, w'))"
    using sel dir O t by (auto simp: cmdOvpnOrphans_def m(2) Let_def and_then_def L on same)
  moreover have "w' = fold (remove_ccd os cfg) target w"
    using run sel dir O t p(1)
    by (auto simp: cmdOvpnOrphans_def m(1) Let_def and_then_def L purge_orphans_def split: if_splits)
  moreover have there: "files w (ccd_path cfg (oUsername o')) \<noteq> None" if "o' \<in> set target" for o'
  proof -
    have "o' \<in> set orphans" using that t by (auto simp: purge_targets_def split: if_splits)
    note i = iffD1 [OF orphans_iff [OF O] this]
    then show ?thesis using n by (auto simp: orphan_entry_def)
  qed
  moreover have "{path. files (fold (remove_ccd os cfg) target w) path \<noteq> files w path} =
      (\<lambda>o'. ccd_path cfg (oUsername o')) ` set target"
    using fold_remove_ccd_files fold_remove_ccd_gone [OF e] there by (fastforce simp: image_iff)
  ultimately show ?thesis
    using t dry by (intro exI [of _ orphans] exI [of _ target]) (simp add: purge_orphans_def Let_def same)
qed


section \<open>Instances\<close>

definition repair_config :: config where
  "repair_config = sample_config\<lparr>OvpnDir := ''/etc/openvpn'', OvpnMgmt := ''unix:/run/wgmgr/ovpn.sock''\<rparr>"

definition repair_world :: "unit world" where
  "repair_world = (demo_world \<lparr>rows = [ann, bob, (default_row\<lparr>ID := 3, Username := ''lost''\<rparr>)], row_seq = 3\<rparr>)
     \<lparr>conf := Some repair_config,
      files := [''/etc/openvpn/ccd/ann'' \<mapsto> \<lparr>content = [], mtime = 0\<rparr>,
                ''/etc/openvpn/ccd/old'' \<mapsto> \<lparr>content = [], mtime = 0\<rparr>]\<rparr>"

lemma repair_conf: "conf repair_world = Some repair_config" "OvpnDir repair_config \<noteq> []"
  by (simp_all add: repair_world_def repair_config_def)

lemma repair_paths:
  "ccd_path repair_config ''ann'' = ''/etc/openvpn/ccd/ann''" "ccd_path repair_config ''old'' = ''/etc/openvpn/ccd/old''"
  "path_join (path_join (OvpnDir repair_config) ''ccd'') ''old'' = ''/etc/openvpn/ccd/old''"
  by code_simp+

lemma ghosts_deleted_exactly_witness:
  "\<exists>out w'. cmdGhostUsers [''--delete''] repair_world = (Inr out, w') \<and> rows (db w') = [ann, bob]"
proof -
  have f: "flag_on (snd (parseFlags [''--delete''])) ''delete''" by code_simp
  have "filter (\<lambda>p. \<not> is_ghost p) (rows (db repair_world)) = [ann, bob]"
    by (simp add: repair_world_def demo_world_def is_ghost_def ann_def bob_def default_row_def)
  with ghosts_deleted_exactly [OF repair_conf(1) f] show ?thesis by auto
qed

lemma purge_spares_users_witness:
  "\<exists>r w'. cmdOvpnOrphans demo_os (Inr [''ann'', ''old'']) [''--purge'', ''--force''] repair_world = (r, w') \<and>
     files w' ''/etc/openvpn/ccd/ann'' = files repair_world ''/etc/openvpn/ccd/ann''"
proof -
  obtain r w' where r: "cmdOvpnOrphans demo_os (Inr [''ann'', ''old'']) [''--purge'', ''--force''] repair_world = (r, w')"
    by fastforce
  have n: "\<forall>n\<in>set [''ann'', ''old'']. plain_name n \<and> ccd_path repair_config n = ''/etc/openvpn/ccd'' @ ''/'' @ n"
    by (simp add: repair_paths plain_name_def)
  have "''ann'' \<in> Username ` set (rows (db repair_world))"
    by (simp add: repair_world_def demo_world_def ann_def)
  then have "files w' (''/etc/openvpn/ccd'' @ ''/'' @ ''ann'') = files repair_world (''/etc/openvpn/ccd'' @ ''/'' @ ''ann'')"
    using purge_spares_users [OF r repair_conf(1) n] by blast
  with r show ?thesis by (intro exI [of _ r] exI [of _ w']) simp
qed

lemma dry_run_lists_the_purge_witness:
  "\<exists>out. cmdOvpnOrphans demo_os (Inr [''ann'', ''old'']) [''--purge'', ''--dry-run''] repair_world = (Inr out, repair_world)"
proof -
  let ?names = "[''ann'', ''old'']" and ?m = "[''purge'' \<mapsto> ''true'']"
  have m: "snd (parseFlags [''--purge'']) = ?m" "snd (parseFlags [''--purge'', ''--dry-run'']) = ?m(''dry-run'' \<mapsto> ''true'')"
    by (simp_all add: parseFlags_def trim_prefix_def cut_at_def fun_eq_iff)
  have p: "\<not> flag_on ?m ''dry-run''" "flag_on ?m ''purge'' \<or> flag_on ?m ''purge-test''" by (simp_all add: flag_on_def)
  have n: "\<forall>n\<in>set ?names. ccd_path repair_config n = path_join (path_join (OvpnDir repair_config) ''ccd'') n"
    by code_simp
  have e: "fs_err demo_os = (\<lambda>c p. None)" by (simp add: demo_os_def)
  obtain orphans where O: "listOrphanCCDs repair_config (Inr ?names) (db_names (db repair_world))
      (live_cns demo_os repair_config repair_world) repair_world = Inr orphans" by (simp add: listOrphanCCDs_def)
  obtain out w' where "cmdOvpnOrphans demo_os (Inr ?names) [''--purge''] repair_world = (Inr out, w')"
    using p repair_conf O
    by (fastforce simp: cmdOvpnOrphans_def m loadConfig_def and_then_def Let_def flag_on_def purge_targets_def
        split: prod.splits)
  from dry_run_lists_the_purge [OF repair_conf(1) m p n e this] show ?thesis by blast
qed


end
