(* ===== verification/Version.thy ===== *)
theory Version
  imports GoStrconv GoTime
begin

text \<open>
  version.go: whether a release is newer than the installed version (\<open>semParts\<close>, \<open>isNewer\<close>), and the cache in
  front of GitHub's answer (\<open>fetchLatestRelease\<close>).  The HTTP request is a parameter that returns an error or a
  release; the cache is handled under its own mutex, which every path releases.
\<close>

section \<open>Comparing versions\<close>

text \<open>\<^verbatim>\<open>strings.SplitN(s, ".", 3)\<close>: the third part keeps what follows.\<close>

fun split_n :: "nat \<Rightarrow> char \<Rightarrow> string \<Rightarrow> string list" where
  "split_n n c s =
     (if n \<le> 1 then [s] else case cut_at c s of None \<Rightarrow> [s] | Some (a, b) \<Rightarrow> a # split_n (n - 1) c b)"

declare split_n.simps [simp del]

definition strip_suffix :: "string \<Rightarrow> string" where
  "strip_suffix p = takeWhile (\<lambda>c. c \<noteq> CHR ''-'' \<and> c \<noteq> CHR ''+'') p"

fun sem_loop :: "string list \<Rightarrow> int list option" where
  "sem_loop [] = Some []"
| "sem_loop (p # ps) =
     (case atoi (strip_suffix p) of
        None \<Rightarrow> None
      | Some n \<Rightarrow> map_option ((#) n) (sem_loop ps))"

definition semParts :: "string \<Rightarrow> int list option" where
  "semParts s =
     map_option (\<lambda>ns. take 3 (ns @ [0, 0, 0]))
       (sem_loop (split_n 3 CHR ''.'' (trim_prefix (trim_space s) ''v'')))"

fun newer_parts :: "int list \<Rightarrow> int list \<Rightarrow> bool" where
  "newer_parts (l # ls) (i # is') = (if l \<noteq> i then i < l else newer_parts ls is')"
| "newer_parts _ _ = False"

definition isNewer :: "string \<Rightarrow> string \<Rightarrow> bool" where
  "isNewer latest installed =
     (if latest = [] \<or> installed = [] \<or> latest = installed then False
      else if installed = ''dev'' \<or> has_prefix installed ''source-'' then True
      else (case (semParts latest, semParts installed) of
              (Some l, Some i) \<Rightarrow> newer_parts l i
            | _ \<Rightarrow> latest \<noteq> installed))"

section \<open>The cache\<close>

record latestRelease =
  Tag :: string
  RelName :: string
  PublishedAt :: string
  HTMLURL :: string
  Body :: string

record versionCache =
  fetched :: "int option"
  ttl :: int
  payload :: latestRelease
  fetchErr :: "string option"

type_synonym 'k http_get = "'k \<Rightarrow> (string + latestRelease) \<times> 'k"

definition cache_fresh :: "int \<Rightarrow> versionCache \<Rightarrow> bool" where
  "cache_fresh t c \<longleftrightarrow> fetchErr c = None \<and> (case fetched c of None \<Rightarrow> False | Some f \<Rightarrow> t - f < ttl c)"

text \<open>The release and the error, the cache, and the outside world after the request, if one was made.\<close>

definition fetchLatestRelease ::
  "'k http_get \<Rightarrow> int \<Rightarrow> versionCache \<Rightarrow> 'k \<Rightarrow> (latestRelease \<times> string option) \<times> versionCache \<times> 'k" where
  "fetchLatestRelease get t c k =
     (if cache_fresh t c then ((payload c, None), c, k)
      else (case get k of
              (Inl e, k') \<Rightarrow> ((payload c, Some e), c\<lparr>fetchErr := Some e\<rparr>, k')
            | (Inr rel, k') \<Rightarrow> ((rel, None), c\<lparr>payload := rel, fetched := Some t, fetchErr := None\<rparr>, k')))"

section \<open>Lemmas\<close>

lemma newer_parts_irrefl: "\<not> newer_parts l l"
  by (induction l) auto

lemma newer_parts_lex:
  "length l = length i \<Longrightarrow> newer_parts l i \<longleftrightarrow> (i, l) \<in> lexord {(a, b). a < b}"
  by (induction l i rule: newer_parts.induct) auto

lemma semParts_length: "semParts s = Some l \<Longrightarrow> length l = 3"
  by (auto simp: semParts_def)

lemma newer_parts_trans:
  "length a = length b \<Longrightarrow> length b = length c \<Longrightarrow> newer_parts a b \<Longrightarrow> newer_parts b c \<Longrightarrow> newer_parts a c"
proof (induction a b arbitrary: c rule: newer_parts.induct)
  case (1 l ls i is')
  then obtain x xs where c: "c = x # xs" by (cases c) auto
  with 1 show ?case by (auto split: if_splits)
qed auto

lemma newer_parts_total:
  "length a = length b \<Longrightarrow> a \<noteq> b \<Longrightarrow> newer_parts a b \<or> newer_parts b a"
  by (induction a b rule: newer_parts.induct) auto

lemma sem_loop_values:
  "map strip_suffix ps = qs \<Longrightarrow> sem_loop ps = those (map atoi qs)"
  by (induction ps arbitrary: qs) (auto split: option.split)

section \<open>Properties\<close>

text \<open>
  On readable versions, "newer" is the strict lexicographic order of the three numbers: it never holds both
  ways, it chains, and it fails both ways exactly when the numbers agree, so an update is offered when and
  only when the release's numbers are higher.
\<close>

theorem newer_is_version_order:
  assumes a: "semParts a = Some x" and b: "semParts b = Some y" and c: "semParts c = Some z"
    and dev: "\<forall>s\<in>{a, b, c}. s \<noteq> [] \<and> s \<noteq> ''dev'' \<and> \<not> has_prefix s ''source-''"
  shows "(isNewer a b \<longleftrightarrow> (y, x) \<in> lexord {(m, n). m < n}) \<and>
    \<not> (isNewer a b \<and> isNewer b a) \<and>
    (isNewer a b \<and> isNewer b c \<longrightarrow> isNewer a c) \<and>
    (\<not> isNewer a b \<and> \<not> isNewer b a \<longleftrightarrow> x = y)"
proof -
  have len: "length x = 3" "length y = 3" "length z = 3" using a b c semParts_length by blast+
  have N: "isNewer s t \<longleftrightarrow> newer_parts p q"
    if "semParts s = Some p" "semParts t = Some q" "s \<in> {a, b, c}" "t \<in> {a, b, c}" for s t p q
    using bspec [OF dev that(3)] bspec [OF dev that(4)] that(1,2) newer_parts_irrefl [of p]
    by (cases "s = t") (simp_all add: isNewer_def)
  note ab = N [OF a b] and ba = N [OF b a] and bc = N [OF b c] and ac = N [OF a c]
  have "\<not> (newer_parts x y \<and> newer_parts y x)"
    using newer_parts_trans [of x y x] newer_parts_irrefl [of x] len by auto
  moreover have "newer_parts x y \<and> newer_parts y z \<longrightarrow> newer_parts x z"
    using newer_parts_trans [of x y z] len by auto
  moreover have "\<not> newer_parts x y \<and> \<not> newer_parts y x \<longleftrightarrow> x = y"
    using newer_parts_total [of x y] newer_parts_irrefl len by auto
  ultimately show ?thesis using newer_parts_lex [of x y] len ab ba bc ac by simp
qed

lemma newer_is_version_order_witness:
  "isNewer ''v1.10.2'' ''v1.9'' \<and> \<not> isNewer ''v1.9'' ''v1.10.2''"
proof -
  have i: "itoa 1 = ''1''" "itoa 10 = ''10''" "itoa 2 = ''2''" "itoa 9 = ''9''" by code_simp+
  have r: "in_i64 1" "in_i64 10" "in_i64 2" "in_i64 9" by (simp_all add: in_i64_def)
  have n: "atoi ''1'' = Some 1" "atoi ''10'' = Some 10" "atoi ''2'' = Some 2" "atoi ''9'' = Some 9"
    using r [THEN atoi_itoa] by (simp_all only: i)
  have s: "map strip_suffix (split_n 3 CHR ''.'' (trim_prefix (trim_space ''v1.10.2'') ''v'')) = [''1'', ''10'', ''2'']"
    "map strip_suffix (split_n 3 CHR ''.'' (trim_prefix (trim_space ''v1.9'') ''v'')) = [''1'', ''9'']"
    by code_simp+
  have a: "semParts ''v1.10.2'' = Some [1, 10, 2]" and b: "semParts ''v1.9'' = Some [1, 9, 0]"
    using sem_loop_values [OF s(1)] sem_loop_values [OF s(2)] by (simp_all add: semParts_def n)
  have "([1, 9, 0], [1, 10, 2]) \<in> lexord {(m, n). m < (n :: int)}" by simp
  with newer_is_version_order [OF a b a] show ?thesis by simp
qed

text \<open>
  GitHub is asked at most once in the cache's lifetime: after an answer, every call within it returns that
  answer and makes no request; a failed attempt keeps the last known release and is retried at the next call.
\<close>

theorem cache_limits_requests:
  assumes stale: "\<not> cache_fresh t c" and f: "fetchLatestRelease get t c k = ((rel, err), c', k')"
  shows "(err = None \<longrightarrow> (\<forall>u get2 k2. u - t < ttl c \<longrightarrow>
      fetchLatestRelease get2 u c' k2 = ((rel, None), c', k2))) \<and>
    (err \<noteq> None \<longrightarrow> rel = payload c \<and> payload c' = payload c \<and>
      (\<forall>u get2 k2. snd (snd (fetchLatestRelease get2 u c' k2)) = snd (get2 k2)))"
proof (cases "get k")
  case (Pair r k1)
  then show ?thesis
  proof (cases r)
    case (Inl e)
    with Pair stale f show ?thesis
      by (auto simp: fetchLatestRelease_def cache_fresh_def split: prod.splits sum.splits)
  next
    case (Inr q)
    with Pair stale f show ?thesis by (auto simp: fetchLatestRelease_def cache_fresh_def)
  qed
qed

definition demo_release :: latestRelease where
  "demo_release = \<lparr>Tag = ''v1.8.2'', RelName = [], PublishedAt = [], HTMLURL = [], Body = []\<rparr>"

definition empty_cache :: versionCache where
  "empty_cache = \<lparr>fetched = None, ttl = 5 * 60 * second,
     payload = \<lparr>Tag = [], RelName = [], PublishedAt = [], HTMLURL = [], Body = []\<rparr>, fetchErr = None\<rparr>"

lemma cache_limits_requests_witness:
  "\<exists>c'. fetchLatestRelease (\<lambda>k. (Inr demo_release, Suc k)) 0 empty_cache 0 = ((demo_release, None), c', 1) \<and>
     fetchLatestRelease (\<lambda>k. (Inl ''offline'', Suc k)) (60 * second) c' 1 = ((demo_release, None), c', 1)"
proof -
  have s: "\<not> cache_fresh 0 empty_cache" by (simp add: cache_fresh_def empty_cache_def)
  obtain c' where f: "fetchLatestRelease (\<lambda>k. (Inr demo_release, Suc k)) 0 empty_cache 0 = ((demo_release, None), c', 1)"
    using s by (simp add: fetchLatestRelease_def)
  have "60 * second - 0 < ttl empty_cache" by (simp add: empty_cache_def second_def)
  then have "fetchLatestRelease (\<lambda>k. (Inl ''offline'', Suc k)) (60 * second) c' 1 = ((demo_release, None), c', 1)"
    by (rule cache_limits_requests [OF s f, THEN conjunct1, THEN mp, OF refl, rule_format])
  with f show ?thesis by (intro exI [of _ c'] conjI)
qed

end
