(* ===== verification/Api.thy ===== *)
theory Api
  imports ServerIp Version Host Reset OvpnUsers
begin

text \<open>
  api.go and login.go: the panel's HTTP handlers.  A \<open>panel\<close> is the world with what the \<^verbatim>\<open>api\<close> struct keeps: its
  copy of the configuration and whether its mutex is held for writing.  A handler is a program that dies with
  a message; \<open>guard\<close> checks the token, runs the handler and turns the message into a reply.  A request that
  waits for a mutex nobody will release is never answered: \<open>None\<close>.

  The JSON codec is not modelled: a request carries the decoded object or the decoder's error, and nested
  values count as \<open>JNull\<close>, which no handler reads.  A number is sent as the \<^verbatim>\<open>float64\<close> the code computes.
  Password hashing is a parameter.
\<close>

record 'k panel =
  sys :: "'k world"
  acfg :: config
  locked :: bool

record request =
  hdr :: "string \<Rightarrow> string"
  pname :: string
  rbody :: "string + body"

datatype response =
    JsonReply nat "(string \<times> json) list"
  | PeersReply "(string \<times> json) list list" string
  | TextReply string

type_synonym 'k handler = "request \<Rightarrow> ('k panel, response) prog"

record 'k crypto =
  hash_pass :: "string \<Rightarrow> 'k \<Rightarrow> (string + string) \<times> 'k"
  check_pass :: "string \<Rightarrow> string \<Rightarrow> bool"

definition in_sys :: "('k world, 'a) prog \<Rightarrow> ('k panel, 'a) prog" where
  "in_sys p s = (case p (sys s) of (r, w) \<Rightarrow> (r, s\<lparr>sys := w\<rparr>))"

section \<open>Requests and tokens\<close>

definition authOK :: "(string \<Rightarrow> string) \<Rightarrow> string \<Rightarrow> bool" where
  "authOK h token =
     (if token = [] then False
      else (let s = trim_prefix (h ''Authorization'') ''Bearer '';
                supplied = (if s = [] then h ''X-API-Token'' else s)
            in supplied = token))"

definition error_reply :: "nat \<Rightarrow> string \<Rightarrow> response" where
  "error_reply n msg = JsonReply n [(''error'', JStr msg)]"

definition guard :: "'k handler \<Rightarrow> request \<Rightarrow> 'k panel \<Rightarrow> response option \<times> 'k panel" where
  "guard h r s =
     (if locked s then (None, s)
      else if \<not> authOK (hdr r) (APIToken (acfg s)) then (Some (error_reply 401 ''unauthorized''), s)
      else (case h r s of
              (Inl msg, s') \<Rightarrow> (Some (error_reply 400 msg), s')
            | (Inr resp, s') \<Rightarrow> (Some resp, s')))"

definition readJSON :: "request \<Rightarrow> body" where
  "readJSON r = (case rbody r of Inl _ \<Rightarrow> Map.empty | Inr m \<Rightarrow> m)"

definition str_of :: "json option \<Rightarrow> string" where
  "str_of v = (case v of Some (JStr s) \<Rightarrow> s | _ \<Rightarrow> [])"

definition f64_pos :: "f64 \<Rightarrow> bool" where
  "f64_pos v = (case v of Fin q \<Rightarrow> 0 < q | PInf \<Rightarrow> True | _ \<Rightarrow> False)"

text \<open>\<^verbatim>\<open>a.mu.Lock()\<close> without a deferred unlock: a death in between leaves the mutex held.\<close>

definition locking :: "('k panel, 'a) prog \<Rightarrow> ('k panel, 'a) prog" where
  "locking p =
     and_then (modify (\<lambda>s. s\<lparr>locked := True\<rparr>)) (\<lambda>_.
     and_then p (\<lambda>a.
     and_then (modify (\<lambda>s. s\<lparr>locked := False\<rparr>)) (\<lambda>_. finish a)))"

definition store_setting :: "'k os \<Rightarrow> (config \<Rightarrow> config) \<Rightarrow> ('k panel, unit) prog" where
  "store_setting os f =
     locking (
       and_then (in_sys loadConfig) (\<lambda>cfg.
       and_then (in_sys (saveConfig os (f cfg))) (\<lambda>_.
       modify (\<lambda>s. s\<lparr>acfg := f (acfg s)\<rparr>))))"

definition getAPIToken :: "'k handler" where
  "getAPIToken r s = (Inr (JsonReply 200 [(''token'', JStr (APIToken (acfg s)))]), s)"

definition regenAPIToken :: "'k os \<Rightarrow> 'k handler" where
  "regenAPIToken os r s =
     (case random_hex os 32 (kern (sys s)) of
        (tok, k) \<Rightarrow>
          and_then (store_setting os (\<lambda>c. c\<lparr>APIToken := tok\<rparr>))
            (\<lambda>_. finish (JsonReply 200 [(''token'', JStr tok)])) (s\<lparr>sys := (sys s)\<lparr>kern := k\<rparr>\<rparr>))"

definition login :: "'k crypto \<Rightarrow> request \<Rightarrow> 'k panel \<Rightarrow> response \<times> 'k panel" where
  "login cr r s =
     (let m = readJSON r; u = str_of (m ''username''); p = str_of (m ''password'');
          user = or_default (AdminUser (acfg s)) ''admin'';
          ok = (AdminPassHash (acfg s) \<noteq> [] \<and> u = user \<and> check_pass cr (AdminPassHash (acfg s)) p)
      in (if ok then JsonReply 200 [(''token'', JStr (APIToken (acfg s)))]
          else error_reply 401 ''invalid username or password'', s))"

definition changePassword :: "'k os \<Rightarrow> 'k crypto \<Rightarrow> 'k handler" where
  "changePassword os cr r s =
     (let m = readJSON r; cur = str_of (m ''current_password''); nw = str_of (m ''new_password'') in
      if length nw < 4 then (Inl ''new password must be at least 4 characters'', s)
      else if AdminPassHash (acfg s) \<noteq> [] \<and> \<not> check_pass cr (AdminPassHash (acfg s)) cur
      then (Inl ''current password is incorrect'', s)
      else (case hash_pass cr nw (kern (sys s)) of
              (Inl e, k) \<Rightarrow> (Inl (''hash password: '' @ e), s\<lparr>sys := (sys s)\<lparr>kern := k\<rparr>\<rparr>)
            | (Inr h, k) \<Rightarrow>
                and_then (store_setting os (\<lambda>c. c\<lparr>AdminPassHash := h\<rparr>))
                  (\<lambda>_. finish (JsonReply 200 [(''ok'', JBool True)])) (s\<lparr>sys := (sys s)\<lparr>kern := k\<rparr>\<rparr>)))"

section \<open>What is shown of a user\<close>

text \<open>\<^verbatim>\<open>float64(b)\<close>: the nearest double, ties to the even one; dividing by a power of two is exact.\<close>

fun nat_bits :: "nat \<Rightarrow> nat" where
  "nat_bits n = (if n = 0 then 0 else Suc (nat_bits (n div 2)))"

declare nat_bits.simps [simp del]

definition round_f64 :: "nat \<Rightarrow> nat" where
  "round_f64 a =
     (let e = nat_bits a - 53; q = a div 2 ^ e; r = a mod 2 ^ e in
      if e = 0 then a
      else (q + (if 2 ^ (e - 1) < r \<or> (r = 2 ^ (e - 1) \<and> odd q) then 1 else 0)) * 2 ^ e)"

definition f64_of_int :: "int \<Rightarrow> rat" where
  "f64_of_int b = (if b < 0 then - of_nat (round_f64 (nat (- b))) else of_nat (round_f64 (nat b)))"

definition bytesToGB :: "int \<Rightarrow> f64" where
  "bytesToGB b = Fin (f64_of_int b / of_int gib)"

definition jint :: "int \<Rightarrow> json" where
  "jint i = JNum (Fin (of_int i))"

definition peerJSON :: "peer \<Rightarrow> (string \<times> json) list" where
  "peerJSON p =
     [(''username'', JStr (Username p)), (''address'', JStr (Address p)), (''public_key'', JStr (PublicKey p)),
      (''used_bytes'', jint (UsedBytes p)), (''used_gb'', JNum (bytesToGB (UsedBytes p))),
      (''used_ovpn_bytes'', jint (UsedOvpnBytes p)), (''used_ovpn_gb'', JNum (bytesToGB (UsedOvpnBytes p))),
      (''used_total_bytes'', jint (usedTotal p)), (''used_total_gb'', JNum (bytesToGB (usedTotal p))),
      (''quota_bytes'', jint (QuotaBytes p)), (''quota_gb'', JNum (bytesToGB (QuotaBytes p))),
      (''expires_at'', JStr (ExpiresAt p)), (''enabled'', JBool (Enabled p)), (''blocked'', JBool (Blocked p)),
      (''has_ovpn'', JBool (OvpnCN p \<noteq> [])), (''ovpn_enabled'', JBool (OvpnEnabled p)),
      (''ovpn_ip'', JStr (OvpnIP p))]"

definition handshake_line :: "(string \<Rightarrow> int option) \<Rightarrow> string \<Rightarrow> (string \<Rightarrow> int option)" where
  "handshake_line m line =
     (case str_fields line of [k, v] \<Rightarrow> m(k \<mapsto> fst (parse_int64 v)) | _ \<Rightarrow> m)"

definition wgHandshakes :: "'k os \<Rightarrow> string \<Rightarrow> 'k world \<Rightarrow> (string \<Rightarrow> int option) \<times> 'k world" where
  "wgHandshakes os iface w =
     (case run os ''wg'' [''show'', iface, ''latest-handshakes''] w of
        ((out, None), w') \<Rightarrow> (foldl handshake_line Map.empty (lines (trim_space out)), w')
      | ((_, Some _), w') \<Rightarrow> (Map.empty, w'))"

definition liveJSON :: "peer \<Rightarrow> (string \<Rightarrow> int option) \<Rightarrow> int \<Rightarrow> (string \<times> json) list" where
  "liveJSON p hs t =
     (let ts = (case hs (PublicKey p) of None \<Rightarrow> 0 | Some v \<Rightarrow> v) in
      peerJSON p @ [(''last_handshake'', jint ts), (''online'', JBool (0 < ts \<and> i64 (t - ts) < 180))])"

definition mustPeer :: "request \<Rightarrow> ('k panel, peer) prog" where
  "mustPeer r = in_sys (must_get (pname r))"

definition listPeers :: "'k os \<Rightarrow> (string \<Rightarrow> bool) \<Rightarrow> ip4 list \<Rightarrow> 'k handler" where
  "listPeers os is_ip6 addrs r s =
     (case wgHandshakes os (Interface (acfg s)) (sys s) of
        (hs, w) \<Rightarrow>
          (Inr (PeersReply (map (\<lambda>p. liveJSON p hs (now w div second)) (allPeers (db w)))
                 (serverPublicIP is_ip6 addrs (acfg s) w)), s\<lparr>sys := w\<rparr>))"

definition showPeer :: "'k os \<Rightarrow> 'k handler" where
  "showPeer os r =
     and_then (mustPeer r) (\<lambda>p s.
       case wgHandshakes os (Interface (acfg s)) (sys s) of
         (hs, w) \<Rightarrow> (Inr (JsonReply 200 (liveJSON p hs (now w div second))), s\<lparr>sys := w\<rparr>))"

section \<open>Changing a user\<close>

text \<open>\<^verbatim>\<open>enforceNow\<close>: one pass under the panel's configuration, whatever happens in it.\<close>

definition enforceNow :: "'k os \<Rightarrow> ('k panel, unit) prog" where
  "enforceNow os = modify (\<lambda>s. s\<lparr>sys := enforceTick os (acfg s) (sys s)\<rparr>)"

definition reply_peer :: "request \<Rightarrow> ('k panel, response) prog" where
  "reply_peer r = and_then (mustPeer r) (\<lambda>p. finish (JsonReply 200 (peerJSON p)))"

text \<open>An update whose error is ignored, the reconciliation, and the reply.\<close>

definition update_user :: "'k os \<Rightarrow> (peer \<Rightarrow> peer) \<Rightarrow> request \<Rightarrow> peer \<Rightarrow> ('k panel, response) prog" where
  "update_user os f r p =
     and_then (modify (\<lambda>s. s\<lparr>sys := (sys s)\<lparr>db := sql_update_ign (ID p) f (db (sys s))\<rparr>\<rparr>)) (\<lambda>_.
     and_then (enforceNow os) (\<lambda>_.
     reply_peer r))"

definition expiry_after :: "int \<Rightarrow> f64 \<Rightarrow> string" where
  "expiry_after base v = format_rfc3339 (add_days base (f64_to_int v))"

definition renew_base :: "int \<Rightarrow> string \<Rightarrow> int" where
  "renew_base t expires =
     (if expires = [] then t
      else case parse_rfc3339 expires of None \<Rightarrow> t | Some e \<Rightarrow> if t < e then e else t)"

definition new_expiry :: "int \<Rightarrow> peer \<Rightarrow> body \<Rightarrow> string option" where
  "new_expiry t p m =
     (case num_of (m ''add_days'') of
        Some v \<Rightarrow> Some (expiry_after (renew_base t (ExpiresAt p)) v)
      | None \<Rightarrow>
          (case num_of (m ''days'') of
             Some v \<Rightarrow> Some (if f64_pos v then expiry_after t v else [])
           | None \<Rightarrow> (case m ''expires_at'' of Some (JStr e) \<Rightarrow> Some e | _ \<Rightarrow> None)))"

definition renew :: "'k os \<Rightarrow> 'k handler" where
  "renew os r =
     and_then (mustPeer r) (\<lambda>p s.
       case new_expiry (now (sys s)) p (readJSON r) of
         None \<Rightarrow> (Inl ''renew needs add_days, days, or expires_at'', s)
       | Some e \<Rightarrow> update_user os (\<lambda>q :: peer. q\<lparr>ExpiresAt := e\<rparr>) r p s)"

definition setQuota :: "'k os \<Rightarrow> 'k handler" where
  "setQuota os r =
     and_then (mustPeer r) (\<lambda>p.
       case num_of (readJSON r ''quota_gb'') of
         None \<Rightarrow> die ''quota_gb required''
       | Some v \<Rightarrow> update_user os (\<lambda>q :: peer. q\<lparr>QuotaBytes := gbToBytes v\<rparr>) r p)"

definition enableH :: "'k os \<Rightarrow> 'k handler" where
  "enableH os r = and_then (mustPeer r) (update_user os (\<lambda>q :: peer. q\<lparr>Enabled := True\<rparr>) r)"

definition disableH :: "'k os \<Rightarrow> 'k handler" where
  "disableH os r = and_then (mustPeer r) (update_user os (\<lambda>q :: peer. q\<lparr>Enabled := False\<rparr>) r)"

definition syncH :: "'k os \<Rightarrow> 'k handler" where
  "syncH os r =
     and_then (enforceNow os) (\<lambda>_ s.
       (Inr (JsonReply 200 [(''ok'', JBool True), (''synced_at'', JStr (format_rfc3339 (now (sys s))))]), s))"

definition rechargeWith ::
  "'k counter_reader \<Rightarrow> ('k panel, unit) prog \<Rightarrow> 'k handler" where
  "rechargeWith snapshot reconcile r s =
     (case rbody r of
        Inl e \<Rightarrow> (Inl (''invalid recharge JSON: '' @ e), s)
      | Inr m \<Rightarrow>
          (case in_sys (rechargePeer (acfg s) (pname r) m snapshot) s of
             (Inl e, s') \<Rightarrow> (Inl (''recharge: '' @ e), s')
           | (Inr _, s') \<Rightarrow> and_then reconcile (\<lambda>_. reply_peer r) s'))"

definition recharge :: "'k os \<Rightarrow> 'k handler" where
  "recharge os = rechargeWith (readResetCounters os) (enforceNow os)"

section \<open>Creating and deleting\<close>

definition reply_created :: "string \<Rightarrow> (peer \<Rightarrow> ('k world, string) prog) \<Rightarrow> ('k panel, response) prog" where
  "reply_created u render =
     and_then (in_sys (must_get u)) (\<lambda>p.
     and_then (in_sys (render p)) (\<lambda>c.
     finish (JsonReply 201 (peerJSON p @ [(''client_config'', JStr c)]))))"

definition create_ovpn_only :: "'k os \<Rightarrow> 'k pki \<Rightarrow> string \<Rightarrow> int \<Rightarrow> string \<Rightarrow> ('k panel, response) prog" where
  "create_ovpn_only os pki u quota expires =
     and_then (in_sys loadConfig) (\<lambda>cfg0 s.
       case ovpnDefaults os cfg0 (sys s) of
         (cfg, w) \<Rightarrow>
           if \<not> fileExists (path_join (OvpnDir cfg) ''ca.crt'') w
           then (Inl ''OpenVPN is not set up on this server yet (run `wgmgr ovpn-init`)'', s\<lparr>sys := w\<rparr>)
           else and_then (in_sys (create_ovpn os pki cfg u quota expires))
                  (\<lambda>_. reply_created u (ovpnConfigForPeer cfg)) (s\<lparr>sys := w\<rparr>))"

definition createPeer :: "'k os \<Rightarrow> 'k pki \<Rightarrow> 'k handler" where
  "createPeer os pki r s =
     (let m = readJSON r; u = trim_space (str_of (m ''username'')) in
      if u = [] then (Inl ''username required'', s)
      else if getPeer (db (sys s)) u \<noteq> None then (Inl (''user '' @ quoted u @ '' already exists''), s)
      else
        (let quota = (case num_of (m ''quota_gb'') of None \<Rightarrow> 0 | Some v \<Rightarrow> gbToBytes v);
             expires = (case num_of (m ''days'') of None \<Rightarrow> []
                        | Some v \<Rightarrow> if f64_pos v then expiry_after (now (sys s)) v else [])
         in if m ''ovpn_only'' = Some (JBool True) \<or> WGConf (acfg s) = []
            then create_ovpn_only os pki u quota expires s
            else and_then (in_sys (create_wg os (acfg s) u quota expires))
                   (\<lambda>_. reply_created u (clientConfig (acfg s))) s))"

definition deletePeerH :: "'k os \<Rightarrow> 'k handler" where
  "deletePeerH os r s =
     and_then (in_sys (deletePeer os (acfg s) (pname r)))
       (\<lambda>_. finish (JsonReply 200 [(''deleted'', JStr (pname r))])) s"

definition getConfig :: "'k os \<Rightarrow> 'k handler" where
  "getConfig os r =
     and_then (mustPeer r) (\<lambda>p s.
       if PrivateKey p \<noteq> [] then and_then (in_sys (clientConfig (acfg s) p)) (\<lambda>t. finish (TextReply t)) s
       else if OvpnCert p \<noteq> [] then
         (case ovpnDefaults os (acfg s) (sys s) of
            (cfg, w) \<Rightarrow> and_then (in_sys (ovpnConfigForPeer cfg p)) (\<lambda>t. finish (TextReply t)) (s\<lparr>sys := w\<rparr>))
       else (Inl (''no stored config for '' @ quoted (Username p) @ '' '' @ dash @
              '' user has neither WireGuard nor OpenVPN credentials''), s))"

text \<open>Under the configuration file as it is now, with the defaults: an \<^verbatim>\<open>ovpn-init\<close> meanwhile counts.\<close>

definition with_ovpn_config :: "'k os \<Rightarrow> (config \<Rightarrow> ('k panel, 'a) prog) \<Rightarrow> ('k panel, 'a) prog" where
  "with_ovpn_config os f =
     and_then (in_sys loadConfig) (\<lambda>cfg0 s.
       case ovpnDefaults os cfg0 (sys s) of (cfg, w) \<Rightarrow> f cfg (s\<lparr>sys := w\<rparr>))"

definition ovpnAddH :: "'k os \<Rightarrow> 'k pki \<Rightarrow> 'k handler" where
  "ovpnAddH os pki r =
     with_ovpn_config os (\<lambda>cfg s.
       if \<not> fileExists (path_join (OvpnDir cfg) ''ca.crt'') (sys s)
       then (Inl ''OpenVPN is not set up on this server yet (run `wgmgr ovpn-init`)'', s)
       else and_then (mustPeer r) (\<lambda>p.
         if OvpnCN p \<noteq> [] then die (''user '' @ quoted (Username p) @ '' already has an OpenVPN identity'')
         else and_then (in_sys (ovpnAttach os pki cfg p)) (\<lambda>ip.
              and_then (in_sys (must_get (Username p))) (\<lambda>p'.
              and_then (in_sys (ovpnConfigForPeer cfg p')) (\<lambda>c.
              finish (JsonReply 201 [(''ovpn_ip'', JStr ip), (''client_config'', JStr c)]))))) s)"

definition ovpnConfigH :: "'k os \<Rightarrow> 'k handler" where
  "ovpnConfigH os r =
     with_ovpn_config os (\<lambda>cfg.
       and_then (mustPeer r) (\<lambda>p.
         if OvpnCN p = [] \<or> OvpnCert p = [] then die (''user '' @ quoted (Username p) @ '' has no OpenVPN identity'')
         else and_then (in_sys (ovpnConfigForPeer cfg p)) (\<lambda>t. finish (TextReply t))))"

definition ovpnRemoveH :: "'k os \<Rightarrow> 'k handler" where
  "ovpnRemoveH os r =
     with_ovpn_config os (\<lambda>cfg.
       and_then (mustPeer r) (\<lambda>p.
       and_then (in_sys (ovpnDetach os cfg p)) (\<lambda>_.
       finish (JsonReply 200 [(''ok'', JBool True)]))))"

section \<open>The base path\<close>

definition normBase :: "string \<Rightarrow> string" where
  "normBase s = (let t = trim_char CHR ''/'' (trim_space s) in if t = [] then [] else ''/'' @ t)"

text \<open>
  The mux under a base path: the path the handlers see, if any.  \<^verbatim>\<open>StripPrefix\<close> cuts the base off, and nothing
  is registered outside it.
\<close>

definition mounted :: "string \<Rightarrow> string \<Rightarrow> string option" where
  "mounted base path =
     (if base = [] then Some path
      else if has_prefix path (base @ ''/'') then Some (drop (length base) path) else None)"

definition versionH :: "string \<Rightarrow> 'k http_get \<Rightarrow> versionCache \<Rightarrow> 'k panel \<Rightarrow> response \<times> versionCache \<times> 'k panel" where
  "versionH installed get c s =
     (case fetchLatestRelease get (now (sys s)) c (kern (sys s)) of
        ((rel, err), c', k) \<Rightarrow>
          (JsonReply 200 ((''installed'', JStr installed) #
             (case err of
                Some e \<Rightarrow> [(''latest'', JNull), (''update_available'', JBool False), (''check_error'', JStr e)]
              | None \<Rightarrow>
                  [(''latest'', JStr (Tag rel)), (''update_available'', JBool (isNewer (Tag rel) installed)),
                   (''published_at'', JStr (PublishedAt rel)), (''release_url'', JStr (HTMLURL rel)),
                   (''release_notes'', JStr (if 2000 < length (Body rel)
                      then take 2000 (Body rel) @ [CHR 0xE2, CHR 0x80, CHR 0xA6] else Body rel))])),
           c', s\<lparr>sys := (sys s)\<lparr>kern := k\<rparr>\<rparr>))"

end
