(* ===== verification/Panel.thy ===== *)
theory Panel
  imports Api
begin

text \<open>
  What the panel promises: a change to a user is in force before the reply, a renewal keeps the time already
  paid for, a new token replaces the old one, and where a failed rotation leaves the mutex held.
\<close>

section \<open>A change and the pass behind it\<close>

lemma getPeer_map:
  assumes "rows st' = map g (rows st)" and "\<And>r. Username (g r) = Username r"
  shows "getPeer st' u = map_option g (getPeer st u)"
proof -
  have "find (\<lambda>r. Username r = u) (map g rs) = map_option g (find (\<lambda>r. Username r = u) rs)" for rs
    using assms(2) by (induction rs) auto
  then show ?thesis unfolding getPeer_def assms(1) .
qed

definition with_change :: "(peer \<Rightarrow> peer) \<Rightarrow> peer \<Rightarrow> 'k world \<Rightarrow> 'k world" where
  "with_change f p w = w\<lparr>db := (db w)\<lparr>rows := update_rows (ID p) f (rows (db w))\<rparr>\<rparr>"

lemma with_change_frame [simp]: "kern (with_change f p w) = kern w" "now (with_change f p w) = now w"
  by (simp_all add: with_change_def)

lemma update_user_result:
  fixes s :: "'k panel"
  assumes inv: "store_inv (db (sys s))" and p: "getPeer (db (sys s)) (pname r) = Some p" and f: "keeps_keys f"
    and c: "tick_counters os (acfg s) (with_change f p (sys s)) = (tr, ov)"
  defines "w' \<equiv> enforceTick os (acfg s) (with_change f p (sys s))"
  defines "q \<equiv> settle tr ov (now (sys s)) (f p)"
  shows "update_user os f r p s = (Inr (JsonReply 200 (peerJSON q)), s\<lparr>sys := w'\<rparr>)"
    and "getPeer (db w') (pname r) = Some q" and "store_inv (db (with_change f p (sys s)))"
proof -
  let ?w = "with_change f p (sys s)"
  show i: "store_inv (db ?w)" using store_inv_update_rows [OF inv f] by (simp add: with_change_def)
  have "getPeer (db ?w) (pname r) = Some (f p)"
    using update_rows_only(1) [OF inv p f] by (simp add: with_change_def)
  moreover have "rows (db w') = map (settle tr ov (now (sys s))) (rows (db ?w))"
    unfolding w'_def using enforceTick_rows [OF i c] by simp
  ultimately show g: "getPeer (db w') (pname r) = Some q"
    using getPeer_map [of "db w'" "settle tr ov (now (sys s))" "db ?w" "pname r"] by (simp add: q_def)
  show "update_user os f r p s = (Inr (JsonReply 200 (peerJSON q)), s\<lparr>sys := w'\<rparr>)"
    using g sql_update_ign_keeps_keys [OF inv f]
    by (simp add: update_user_def enforceNow_def reply_peer_def mustPeer_def in_sys_def must_get_def and_then_def
        w'_def with_change_def)
qed

definition keeps_claims :: "(peer \<Rightarrow> peer) \<Rightarrow> bool" where
  "keeps_claims f \<longleftrightarrow> (\<forall>q. claims (f q) = claims q \<and> ID (f q) = ID q)"

lemma set_with_change:
  "keeps_claims f \<Longrightarrow> q \<in> set (rows (db (with_change f p w))) \<Longrightarrow>
     \<exists>q0\<in>set (rows (db w)). claims q = claims q0 \<and> ID q = ID q0"
  by (auto simp: with_change_def set_update_rows keeps_claims_def)

text \<open>The pass over the changed table blocks the changed user exactly by its verdict.\<close>

lemma pass_blocks_user:
  assumes l: "ipset_laws os (IPSet cfg) members" and inv: "store_inv (db w)"
    and dot: "\<forall>p\<in>set (rows (db w)). \<forall>ip\<in>claims p. dotted ip" and dis: "claims_disjoint (rows (db w))"
    and q: "getPeer (db (enforceTick os cfg w)) u = Some q" and ip: "ip \<in> claims q"
  shows "ip \<in> members (kern (enforceTick os cfg w)) \<longleftrightarrow> Blocked q"
proof -
  let ?w = "enforceTick os cfg w"
  obtain tr ov where c: "tick_counters os cfg w = (tr, ov)" by fastforce
  note R = enforceTick_rows [OF inv c]
  have q': "q \<in> set (rows (db ?w))" using q find_Some_iff2 unfolding getPeer_def by fast
  have cl: "claims (settle tr ov t p) = claims p" for t p by (simp add: claims_def)
  have i: "store_inv (db ?w)" by (rule enforceTick_inv [OF inv])
  have one: "q0 = q" if "q0 \<in> set (rows (db ?w))" "ip \<in> claims q0" for q0
  proof -
    from q' that(1) obtain a b where ab: "a \<in> set (rows (db w))" "b \<in> set (rows (db w))"
      "q = settle tr ov (now w) a" "q0 = settle tr ov (now w) b" unfolding R by auto
    have "ID a = ID b" using dis ab ip that(2) by (auto simp: claims_disjoint_def cl)
    then have "ID q = ID q0" using ab by simp
    then show ?thesis using store_inv_ids [OF i] q' that(1) by (metis distinct_map inj_onD)
  qed
  have "ip \<in> \<Union> (claims ` set (rows (db w)))" using q' ip unfolding R by (auto simp: cl)
  moreover have "ip \<in> \<Union> (claims ` {p \<in> set (rows (db ?w)). Blocked p}) \<longleftrightarrow> Blocked q" using one q' ip by blast
  ultimately show ?thesis unfolding enforceTick_members [OF l inv dot dis] by auto
qed

lemma update_user_in_force:
  fixes s :: "'k panel"
  assumes l: "ipset_laws os (IPSet (acfg s)) members" and inv: "store_inv (db (sys s))"
    and dot: "\<forall>p\<in>set (rows (db (sys s))). \<forall>ip\<in>claims p. dotted ip"
    and dis: "claims_disjoint (rows (db (sys s)))"
    and p: "getPeer (db (sys s)) (pname r) = Some p" and f: "keeps_keys f" "keeps_claims f"
  shows "\<exists>q s'. update_user os f r p s = (Inr (JsonReply 200 (peerJSON q)), s') \<and>
    getPeer (db (sys s')) (pname r) = Some q \<and> other_columns q = other_columns (f p) \<and>
    Blocked q = effectiveBlocked q (now (sys s)) \<and>
    (\<forall>ip\<in>claims q. ip \<in> members (kern (sys s')) \<longleftrightarrow> Blocked q)"
proof -
  let ?w = "with_change f p (sys s)"
  obtain tr ov where c: "tick_counters os (acfg s) ?w = (tr, ov)" by fastforce
  note U = update_user_result [OF inv p f(1) c]
  have d1: "\<forall>p\<in>set (rows (db ?w)). \<forall>ip\<in>claims p. dotted ip"
    using dot set_with_change [OF f(2)] by metis
  have d2: "claims_disjoint (rows (db ?w))"
    using dis set_with_change [OF f(2), of _ p "sys s"] unfolding claims_disjoint_def by metis
  show ?thesis
    using U(1,2) pass_blocks_user [OF l U(3) d1 d2 U(2)] settle_other_columns settle_verdict by fastforce
qed

section \<open>Properties\<close>

lemma mustPeer_ok: "mustPeer r s = (Inr p, s') \<longleftrightarrow> s' = s \<and> getPeer (db (sys s)) (pname r) = Some p"
  by (auto simp: mustPeer_def in_sys_def must_get_def split: option.split)

lemma keeps_settings [simp]:
  "keeps_keys (\<lambda>q :: peer. q\<lparr>Enabled := b\<rparr>)" "keeps_claims (\<lambda>q :: peer. q\<lparr>Enabled := b\<rparr>)"
  "keeps_keys (\<lambda>q :: peer. q\<lparr>ExpiresAt := e\<rparr>)" "keeps_claims (\<lambda>q :: peer. q\<lparr>ExpiresAt := e\<rparr>)"
  "keeps_keys (\<lambda>q :: peer. q\<lparr>QuotaBytes := n\<rparr>)" "keeps_claims (\<lambda>q :: peer. q\<lparr>QuotaBytes := n\<rparr>)"
  by (simp_all add: keeps_keys_def keeps_claims_def claims_def)


text \<open>
  Enabling a user reconnects it.  The request is answered, the user is enabled afterwards, and unless the
  user has expired or used up its quota by then, none of its addresses is in the block set.
\<close>

theorem enabling_reconnects:
  assumes l: "ipset_laws os (IPSet (acfg s)) members" and inv: "store_inv (db (sys s))"
    and dot: "\<forall>p\<in>set (rows (db (sys s))). \<forall>ip\<in>claims p. dotted ip"
    and dis: "claims_disjoint (rows (db (sys s)))"
    and p: "getPeer (db (sys s)) (pname r) = Some p"
  shows "\<exists>q s'. enableH os r s = (Inr (JsonReply 200 (peerJSON q)), s') \<and>
    getPeer (db (sys s')) (pname r) = Some q \<and> Enabled q \<and>
    ExpiresAt q = ExpiresAt p \<and> QuotaBytes q = QuotaBytes p \<and>
    ((ExpiresAt p = [] \<or> (\<exists>e. parse_rfc3339 (ExpiresAt p) = Some e \<and> now (sys s) \<le> e)) \<and>
       (QuotaBytes p \<le> 0 \<or> usedTotal q < QuotaBytes p) \<longrightarrow>
     (\<forall>ip\<in>claims q. ip \<notin> members (kern (sys s'))))"
proof -
  let ?f = "\<lambda>q :: peer. q\<lparr>Enabled := True\<rparr>"
  from update_user_in_force [OF l inv dot dis p keeps_settings(1,2), of True] obtain q s' where
    u: "update_user os ?f r p s = (Inr (JsonReply 200 (peerJSON q)), s')"
      "getPeer (db (sys s')) (pname r) = Some q" "other_columns q = other_columns (?f p)"
      "Blocked q = effectiveBlocked q (now (sys s))" "\<forall>ip\<in>claims q. ip \<in> members (kern (sys s')) \<longleftrightarrow> Blocked q"
    by blast
  have "mustPeer r s = (Inr p, s)" using p by (simp add: mustPeer_ok)
  then have e: "enableH os r s = (Inr (JsonReply 200 (peerJSON q)), s')" using u(1) by (simp add: enableH_def)
  have c: "Enabled q" "ExpiresAt q = ExpiresAt p" "QuotaBytes q = QuotaBytes p"
    using other_columns_eq [OF u(3)] by simp_all
  have "\<not> Blocked q"
    if "ExpiresAt p = [] \<or> (\<exists>e. parse_rfc3339 (ExpiresAt p) = Some e \<and> now (sys s) \<le> e)"
      "QuotaBytes p \<le> 0 \<or> usedTotal q < QuotaBytes p"
    using that unfolding u(4) by (auto simp: effectiveBlocked_def c)
  with e u(2,5) c show ?thesis by blast
qed

lemma authOK_bearer: "authOK h t \<Longrightarrow> authOK h u \<Longrightarrow> t = u"
  by (auto simp: authOK_def Let_def split: if_splits)

lemma f64_to_int_of_int: "in_i64 d \<Longrightarrow> f64_to_int (Fin (of_int d)) = d"
proof -
  assume "in_i64 d"
  moreover have "trunc_rat (of_int d) = d" by (auto simp: trunc_rat_def simp flip: of_int_minus)
  ultimately show ?thesis by (simp add: f64_to_int_def)
qed

lemma floor_second: "(x + d * day_secs * second) div second * second = x div second * second + d * day_secs * second"
  by (simp add: second_def)

text \<open>
  C28. A renewal by days keeps the time already paid for.  An expiry the program has written and that lies ahead
  is extended by exactly the days asked for; a missing or past one counts from now, to the second.
\<close>

theorem renewal_keeps_unused_time:
  assumes e: "ExpiresAt p = format_rfc3339 e" "0 \<le> year_of e" "year_of e \<le> 9999"
    and d: "m ''add_days'' = Some (JNum (Fin (of_int d)))" "in_i64 d"
    and y: "0 \<le> year_of (add_days (max t (e div second * second)) d)"
      "year_of (add_days (max t (e div second * second)) d) \<le> 9999"
  shows "\<exists>x z. new_expiry t p m = Some x \<and> parse_rfc3339 x = Some z \<and>
    z = (if t < e div second * second then add_days (e div second * second) d
         else add_days (t div second * second) d)"
proof -
  let ?e = "e div second * second"
  have "format_rfc3339 e \<noteq> []" by (simp add: format_rfc3339_def Let_def split: prod.split)
  then have b: "renew_base t (ExpiresAt p) = max t ?e"
    by (simp add: renew_base_def e(1) parse_format_rfc3339 [OF e(2,3)] max_def)
  have x: "new_expiry t p m = Some (format_rfc3339 (add_days (max t ?e) d))"
    by (simp add: new_expiry_def num_of_def d(1) expiry_after_def f64_to_int_of_int [OF d(2)] b)
  have "?e div second * second = ?e" by (simp add: second_def)
  then have "add_days (max t ?e) d div second * second =
      (if t < ?e then add_days ?e d else add_days (t div second * second) d)"
    by (simp add: add_days_def floor_second max_def)
  with parse_format_rfc3339 [OF y] x show ?thesis by auto
qed

text \<open>
  C29. A new token replaces the old one everywhere.  After a successful rotation the file holds the old
  configuration with the new token, a request with the new token is let in, and one with any other token
  reaches no handler: it is refused and changes nothing.
\<close>

theorem token_rotation:
  assumes run: "guard (regenAPIToken os) r s = (Some (JsonReply 200 b), s')"
  shows "\<exists>c. conf (sys s) = Some c \<and> b = [(''token'', JStr (APIToken (acfg s')))] \<and>
    conf (sys s') = Some (c\<lparr>APIToken := APIToken (acfg s')\<rparr>) \<and> \<not> locked s' \<and>
    (\<forall>q h. authOK (hdr q) (APIToken (acfg s')) \<longrightarrow>
       guard h q s' = (case h q s' of (Inl e, s2) \<Rightarrow> (Some (error_reply 400 e), s2) | (Inr v, s2) \<Rightarrow> (Some v, s2))) \<and>
    (\<forall>q h t. authOK (hdr q) t \<and> t \<noteq> APIToken (acfg s') \<longrightarrow> guard h q s' = (Some (error_reply 401 ''unauthorized''), s'))"
proof -
  obtain tok k where R: "random_hex os 32 (kern (sys s)) = (tok, k)" by fastforce
  from run have H: "regenAPIToken os r s = (Inr (JsonReply 200 b), s')"
    by (auto simp: guard_def error_reply_def split: if_splits prod.splits sum.splits)
  then obtain c where c: "conf (sys s) = Some c" "b = [(''token'', JStr tok)]"
    "s' = s\<lparr>sys := (sys s)\<lparr>kern := k, conf := Some (c\<lparr>APIToken := tok\<rparr>)\<rparr>, acfg := (acfg s)\<lparr>APIToken := tok\<rparr>, locked := False\<rparr>"
    by (auto simp: regenAPIToken_def R store_setting_def locking_def and_then_def in_sys_def loadConfig_def
        saveConfig_def split: option.splits sum.splits prod.splits)
  have "authOK (hdr q) t \<Longrightarrow> t \<noteq> tok \<Longrightarrow> \<not> authOK (hdr q) tok" for q t using authOK_bearer by blast
  with c show ?thesis by (auto simp: guard_def)
qed

text \<open>
  C35. A rotation that fails while it holds the mutex disables the panel.  When the configuration file cannot be
  read or written, the new token or password is reported as an error, and from then on no guarded request is
  answered at all, with whatever token: the handler dies between \<^verbatim>\<open>Lock\<close> and \<^verbatim>\<open>Unlock\<close>.
\<close>

theorem failed_rotation_hangs_panel:
  assumes a: "\<not> locked s" "authOK (hdr r) (APIToken (acfg s))"
    and bad: "conf (sys s) = None \<or> fs_err os ''write'' ''/etc/wgmgr/config.json'' \<noteq> None"
  shows "\<exists>msg s'. guard (regenAPIToken os) r s = (Some (error_reply 400 msg), s') \<and>
    APIToken (acfg s') = APIToken (acfg s) \<and> (\<forall>h q. guard h q s' = (None, s'))"
proof -
  obtain tok k where R: "random_hex os 32 (kern (sys s)) = (tok, k)" by fastforce
  have "\<exists>msg s'. regenAPIToken os r s = (Inl msg, s') \<and> locked s' \<and> acfg s' = acfg s"
    using bad by (auto simp: regenAPIToken_def R store_setting_def locking_def and_then_def in_sys_def
        loadConfig_def saveConfig_def split: option.splits)
  then obtain msg s' where H: "regenAPIToken os r s = (Inl msg, s')" "locked s'" "acfg s' = acfg s" by blast
  then show ?thesis using a by (intro exI [of _ msg] exI [of _ s']) (simp add: guard_def)
qed

section \<open>Instances\<close>

definition demo_panel :: "ip4 list panel" where
  "demo_panel = \<lparr>sys = sample_world, acfg = sample_config\<lparr>APIToken := ''secret''\<rparr>, locked = False\<rparr>"

definition demo_request :: "string \<Rightarrow> request" where
  "demo_request u = \<lparr>hdr = (\<lambda>k. if k = ''Authorization'' then ''Bearer secret'' else []), pname = u,
     rbody = Inr Map.empty\<rparr>"

lemma demo_panel_simps [simp]:
  "sys demo_panel = sample_world" "\<not> locked demo_panel" "APIToken (acfg demo_panel) = ''secret''"
  "pname (demo_request u) = u" "authOK (hdr (demo_request u)) ''secret''"
  by (simp_all add: demo_panel_def demo_request_def authOK_def trim_prefix_def Let_def)

lemma demo_laws: "ipset_laws kset_os (IPSet (acfg demo_panel)) kset_members"
proof -
  have "word_like (IPSet (acfg demo_panel))"
    by (simp add: demo_panel_def sample_config_def word_like_def printable_def)
  then show ?thesis by (rule kset_laws)
qed

lemma demo_table:
  "store_inv (db (sys demo_panel))" "\<forall>p\<in>set (rows (db (sys demo_panel))). \<forall>ip\<in>claims p. dotted ip"
  "claims_disjoint (rows (db (sys demo_panel)))" "getPeer (db (sys demo_panel)) (pname (demo_request ''ann'')) = Some ann"
  using sample_store_inv sample_dotted sample_disjoint getPeer_ann by simp_all


lemma enabling_reconnects_witness:
  "\<exists>q s'. enableH kset_os (demo_request ''ann'') demo_panel = (Inr (JsonReply 200 (peerJSON q)), s') \<and> Enabled q"
  using enabling_reconnects [OF demo_laws demo_table] by blast

lemma renewal_keeps_unused_time_witness:
  "\<exists>x. new_expiry 0 (default_row\<lparr>ExpiresAt := format_rfc3339 (5 * day_secs * second)\<rparr>)
      [''add_days'' \<mapsto> JNum (Fin (of_int 30))] = Some x \<and>
    parse_rfc3339 x = Some (add_days (5 * day_secs * second) 30)"
proof -
  let ?p = "default_row\<lparr>ExpiresAt := format_rfc3339 (5 * day_secs * second)\<rparr>" and ?e = "5 * day_secs * second"
  have y: "0 \<le> year_of ?e" "year_of ?e \<le> 9999"
    "0 \<le> year_of (add_days (max 0 (?e div second * second)) 30)"
    "year_of (add_days (max 0 (?e div second * second)) 30) \<le> 9999"
    by code_simp+
  have m: "[''add_days'' \<mapsto> JNum (Fin (of_int 30))] ''add_days'' = Some (JNum (Fin (of_int 30)))" by simp
  have x: "ExpiresAt ?p = format_rfc3339 ?e" by simp
  have d: "in_i64 30" by (simp add: in_i64_def)
  from renewal_keeps_unused_time [where p = ?p and e = ?e and d = 30 and t = 0
      and m = "[''add_days'' \<mapsto> JNum (Fin (of_int 30))]", OF x y(1,2) m d y(3,4)]
  show ?thesis by (auto simp: day_secs_def second_def)
qed

text \<open>A machine whose random generator returns a fixed token.\<close>

definition token_os :: "ip4 list os" where
  "token_os = kset_os\<lparr>random_hex := (\<lambda>n k. (''fresh'', k))\<rparr>"

lemma token_rotation_witness:
  "\<exists>s'. guard (regenAPIToken token_os) (demo_request ''ann'') demo_panel =
      (Some (JsonReply 200 [(''token'', JStr ''fresh'')]), s') \<and> APIToken (acfg s') = ''fresh'' \<and>
    (\<forall>h. guard h (demo_request ''ann'') s' = (Some (error_reply 401 ''unauthorized''), s'))"
proof -
  have "\<exists>s'. guard (regenAPIToken token_os) (demo_request ''ann'') demo_panel =
      (Some (JsonReply 200 [(''token'', JStr ''fresh'')]), s') \<and> APIToken (acfg s') = ''fresh''"
    by (simp add: guard_def regenAPIToken_def token_os_def kset_os_def store_setting_def locking_def and_then_def
        in_sys_def loadConfig_def saveConfig_def sample_world_def)
  then obtain s' where r: "guard (regenAPIToken token_os) (demo_request ''ann'') demo_panel =
      (Some (JsonReply 200 [(''token'', JStr ''fresh'')]), s')" "APIToken (acfg s') = ''fresh''" by blast
  have "''secret'' \<noteq> APIToken (acfg s')" by (simp add: r(2))
  with token_rotation [OF r(1)] r demo_panel_simps(5) show ?thesis by blast
qed

lemma failed_rotation_hangs_panel_witness:
  "\<exists>msg s'. guard (regenAPIToken token_os) (demo_request ''ann'')
       (demo_panel\<lparr>sys := sample_world\<lparr>conf := None\<rparr>\<rparr>) = (Some (error_reply 400 msg), s') \<and>
     (\<forall>h q. guard h q s' = (None, s'))"
proof -
  let ?s = "demo_panel\<lparr>sys := sample_world\<lparr>conf := None\<rparr>\<rparr>"
  have "\<not> locked ?s" "authOK (hdr (demo_request ''ann'')) (APIToken (acfg ?s))" "conf (sys ?s) = None" by simp_all
  from failed_rotation_hangs_panel [OF this(1,2) disjI1 [OF this(3)]] show ?thesis by blast
qed

end
