(* ===== verification/Ranges.thy ===== *)
theory Ranges
  imports Panel
begin

text \<open>
  Types and totality: every counter and quota the program stores is an \<^verbatim>\<open>int64\<close>, a user is deleted with what
  keeps it connected, the loop that cuts the static key ends without slicing past the text, and what a
  user name can do to the path of its file.
\<close>

section \<open>Columns are 64-bit integers\<close>

definition int64_row :: "peer \<Rightarrow> bool" where
  "int64_row p \<longleftrightarrow> in_i64 (QuotaBytes p) \<and> in_i64 (UsedBytes p) \<and> in_i64 (LastRx p) \<and> in_i64 (LastTx p) \<and>
     in_i64 (UsedOvpnBytes p) \<and> in_i64 (LastOvpnBytes p)"

text \<open>A reading whose values are all in range.\<close>

definition int64_map :: "('v \<Rightarrow> bool) \<Rightarrow> (string \<Rightarrow> 'v option) \<Rightarrow> bool" where
  "int64_map P m \<longleftrightarrow> (\<forall>k v. m k = Some v \<longrightarrow> P v)"

abbreviation in_i64_pair :: "int \<times> int \<Rightarrow> bool" where
  "in_i64_pair c \<equiv> in_i64 (fst c) \<and> in_i64 (snd c)"

lemma int64_map_empty [simp]: "int64_map P Map.empty"
  by (simp add: int64_map_def)

lemma int64_map_upd: "int64_map P m \<Longrightarrow> P v \<Longrightarrow> int64_map P (m(k \<mapsto> v))"
  by (simp add: int64_map_def)

lemma foldl_preserves: "P a \<Longrightarrow> (\<And>x y. P x \<Longrightarrow> P (f x y)) \<Longrightarrow> P (foldl f a ys)"
  by (induction ys arbitrary: a) auto

lemma wgTransfer_int64: "wgTransfer os i w = (tr, w') \<Longrightarrow> int64_map in_i64_pair tr"
proof -
  have l: "int64_map in_i64_pair (transfer_line m x)" if "int64_map in_i64_pair m" for m x
    using that by (auto simp: transfer_line_def parse_int64_in_range intro!: int64_map_upd split: list.split)
  have "int64_map in_i64_pair (parse_transfer out)" for out
    unfolding parse_transfer_def
    by (rule foldl_preserves [where P = "int64_map in_i64_pair"]) (simp, rule l)
  then show "wgTransfer os i w = (tr, w') \<Longrightarrow> int64_map in_i64_pair tr"
    by (auto simp: wgTransfer_def split: prod.splits option.splits)
qed

lemma parseOvpnStatus_int64: "int64_map in_i64 (parseOvpnStatus out)"
proof -
  have a: "int64_map in_i64 (addOvpnBytes m c x y)" if "int64_map in_i64 m" for m c x y
    using that by (auto simp: addOvpnBytes_def Let_def i64_in_range intro: int64_map_upd)
  have l: "int64_map in_i64 (fst (ovpn_status_line st x))" if "int64_map in_i64 (fst st)" for st x
    using that by (auto simp: ovpn_status_line_def Let_def intro: a split: prod.splits)
  show ?thesis
    unfolding parseOvpnStatus_def
    by (rule foldl_preserves [where P = "\<lambda>st. int64_map in_i64 (fst st)"]) (simp_all add: l)
qed

lemma ovpnUsage_int64: "int64_map in_i64 (ovpnUsage os cfg w)"
  by (auto simp: ovpnUsage_def ovpnUsageMgmt_def Let_def parseOvpnStatus_int64
      split: option.split sum.split prod.split)

lemma settle_int64:
  assumes "int64_row p" and "int64_map in_i64_pair tr" and "int64_map in_i64 ov"
  shows "int64_row (settle tr ov t p)"
proof -
  have w: "int64_row (bill_wg tr p)"
    using assms(1,2) by (auto simp: bill_wg_def count_wg_def int64_row_def int64_map_def i64_in_range
        split: option.split prod.split)
  have "int64_row (bill_ovpn ov q)" if "int64_row q" for q
    using that assms(3) by (auto simp: bill_ovpn_def count_ovpn_def int64_row_def int64_map_def i64_in_range
        split: option.split)
  from this [OF w] show ?thesis by (simp add: settle_def Let_def int64_row_def)
qed

section \<open>Files of users\<close>

lemma plain_ccd_path:
  assumes d: "clean_dir (OvpnDir cfg)" and u: "plain_name u"
  shows "ccd_path cfg u = OvpnDir cfg @ ''/ccd/'' @ u"
proof -
  have c: "plain_name ''ccd''" by (simp add: plain_name_def)
  have ne: "OvpnDir cfg \<noteq> []" "u \<noteq> []" using d u by (auto simp: clean_dir_def plain_name_def)
  have "path_join (OvpnDir cfg @ ''/ccd'') u = OvpnDir cfg @ ''/ccd'' @ ''/'' @ u"
  proof -
    have "path_clean (OvpnDir cfg @ ''/ccd'') = OvpnDir cfg @ ''/ccd''"
      using path_join_plain [OF d c] ne(1) unfolding path_join_def by simp
    then have "clean_dir (OvpnDir cfg @ ''/ccd'')" using ne by (auto simp: clean_dir_def)
    from path_join_plain [OF this u] show ?thesis by simp
  qed
  then show ?thesis using ne by (simp add: ccd_path_def path_join_def)
qed

lemma getPeer_sql_delete:
  assumes "store_inv st" and "getPeer st u = Some p"
  shows "getPeer (sql_delete (ID p) st) u = None"
    and "v \<noteq> u \<Longrightarrow> getPeer (sql_delete (ID p) st) v = getPeer st v"
proof -
  have p: "p \<in> set (rows st)" "Username p = u" using find_Some_iff2 assms(2) unfolding getPeer_def by fast+
  have "distinct (map Username (rows st))" using assms(1) by (simp add: store_inv_def)
  then have i: "inj_on Username (set (rows st))" "inj_on ID (set (rows st))"
    using store_inv_ids [OF assms(1)] by (simp_all add: distinct_map)
  have one: "q = p" if "q \<in> set (rows st)" "ID q = ID p \<or> Username q = Username p" for q
    using that(2) inj_onD [OF i(1) _ that(1) p(1)] inj_onD [OF i(2) _ that(1) p(1)] by blast
  have a: "find (\<lambda>r. Username r = u) (filter (\<lambda>r. ID r \<noteq> ID p) (rows st)) = None"
    using one p(2) by (auto simp: find_None_iff)
  then show "getPeer (sql_delete (ID p) st) u = None" by (simp add: getPeer_def sql_delete_def)
  assume v: "v \<noteq> u"
  have "find (\<lambda>r. Username r = v) (filter (\<lambda>r. ID r \<noteq> ID p) rs) = find (\<lambda>r. Username r = v) rs"
    if "set rs \<subseteq> set (rows st)" for rs
    using that v p(2) one by (induction rs) auto
  then show "getPeer (sql_delete (ID p) st) v = getPeer st v" by (simp add: getPeer_def sql_delete_def)
qed

text \<open>Programs that write at most the files of a set.\<close>

definition writes_only :: "string set \<Rightarrow> ('k world, 'a) prog \<Rightarrow> bool" where
  "writes_only S p \<longleftrightarrow> (\<forall>w path. path \<notin> S \<longrightarrow> files (snd (p w)) path = files w path)"

named_theorems writes_rules "which files a program writes"

lemma writes_onlyI: "(\<And>w path. path \<notin> S \<Longrightarrow> files (snd (p w)) path = files w path) \<Longrightarrow> writes_only S p"
  by (simp add: writes_only_def)

lemma writes_onlyD: "writes_only S p \<Longrightarrow> p w = (r, w') \<Longrightarrow> path \<notin> S \<Longrightarrow> files w' path = files w path"
  unfolding writes_only_def by (metis snd_conv)

lemma writes_only_and_then [writes_rules]:
  "writes_only S p \<Longrightarrow> (\<And>a. writes_only S (f a)) \<Longrightarrow> writes_only S (and_then p f)"
  unfolding writes_only_def and_then_def by (auto split: prod.splits sum.splits) (metis snd_conv)+

lemma writes_only_basic [writes_rules]:
  "writes_only S (finish a)" "writes_only S (die e)" "writes_only S (gets g)"
  by (simp_all add: writes_only_def)

lemma writes_only_commands [writes_rules]:
  "writes_only S (mustRun os c as)" "writes_only S (interfaceHead path)"
  by (auto simp: writes_only_def mustRun_def run_def exec_in_def interfaceHead_def split: prod.split option.split)

lemma writes_only_write [writes_rules]: "path \<in> S \<Longrightarrow> writes_only S (or_die msg (write_file os path tx))"
  by (auto simp: writes_only_def or_die_def write_file_def split: option.split)

lemma writes_only_rename [writes_rules]: "a \<in> S \<Longrightarrow> b \<in> S \<Longrightarrow> writes_only S (or_die msg (rename_file os a b))"
  by (auto simp: writes_only_def or_die_def rename_file_def split: option.split)

definition render_files :: "config \<Rightarrow> string set" where
  "render_files cfg = {WGConf cfg, WGConf cfg @ ''.wgmgr.tmp'', ''/tmp/wgmgr-'' @ Interface cfg @ ''.strip''}"

lemma in_render_files [simp]:
  "WGConf cfg \<in> render_files cfg" "WGConf cfg @ ''.wgmgr.tmp'' \<in> render_files cfg"
  "''/tmp/wgmgr-'' @ Interface cfg @ ''.strip'' \<in> render_files cfg"
  by (simp_all add: render_files_def)

lemma writes_only_applyLive [writes_rules]: "writes_only (render_files cfg) (applyLive os cfg)"
  unfolding applyLive_def Let_def
proof (intro writes_rules in_render_files writes_onlyI)
  fix a u w path
  assume "path \<notin> render_files cfg"
  then show "files (snd ((\<lambda>w. case run os ''wg'' [''syncconf'', Interface cfg, ''/tmp/wgmgr-'' @ Interface cfg @ ''.strip''] w of
      ((out, e), w1) \<Rightarrow> (case e of None \<Rightarrow> Inr () | Some e \<Rightarrow> Inl (''wg syncconf: '' @ e @ '': '' @ out),
        snd (remove_file os (''/tmp/wgmgr-'' @ Interface cfg @ ''.strip'') w1))) w)) path = files w path"
    by (auto simp: render_files_def run_def exec_in_def remove_file_def split: prod.split option.split)
qed

lemma writes_only_renderConf: "writes_only (render_files cfg) (renderConf os cfg force)"
proof (rule writes_onlyI)
  fix w path
  assume path: "path \<notin> render_files cfg"
  have "writes_only (render_files cfg) (replace_conf os cfg head)" for head
    unfolding replace_conf_def by (intro writes_rules in_render_files)
  then have r: "writes_only (render_files cfg) (and_then (interfaceHead (WGConf cfg)) (\<lambda>(head, _, _). replace_conf os cfg head))"
    by (intro writes_rules) (auto split: prod.split)
  obtain live w1 where l: "(if force then ([], w) else livePeers os (Interface cfg) w) = (live, w1)"
    by fastforce
  then have f: "files w1 = files w" by (auto split: if_splits dest: livePeers_frame)
  show "files (snd (renderConf os cfg force w)) path = files w path"
    using r path f by (simp add: renderConf_def l writes_only_def split: option.split)
qed

section \<open>Properties\<close>



lemma deletePeer_effect:
  assumes inv: "store_inv (db w)" and p: "getPeer (db w) u = Some p" and ne: "OvpnDir cfg \<noteq> []" "u \<noteq> []"
    and fs: "fs_err os ''remove'' (ccd_path cfg u) = None" and far: "ccd_path cfg u \<notin> render_files cfg"
    and run: "deletePeer os cfg u w = (r, w')"
  shows "db w' = sql_delete (ID p) (db w)" and "files w' (ccd_path cfg u) = None"
proof -
  have u: "Username p = u" using p find_Some_iff2 unfolding getPeer_def by fast
  define w1 where "w1 = ovpnRemoveCCD os cfg u w"
  define w2 where "w2 = w1\<lparr>db := sql_delete (ID p) (db w)\<rparr>"
  have 1: "files w1 (ccd_path cfg u) = None" "db w1 = db w"
    using fs ne by (auto simp: w1_def ovpnRemoveCCD_def remove_file_def)
  then have "renderConf os cfg True w2 = (r, w')"
    using run p by (simp add: deletePeer_def and_then_def must_get_def u w1_def w2_def)
  then have "db w' = db w2" "files w' (ccd_path cfg u) = files w2 (ccd_path cfg u)"
    using keeps_dbD [OF keeps_db_renderConf] writes_onlyD [OF writes_only_renderConf _ far] by blast+
  then show "db w' = sql_delete (ID p) (db w)" "files w' (ccd_path cfg u) = None"
    using 1 by (simp_all add: w2_def)
qed

text \<open>
  C18. Deleting a user cuts it off.  The row and the client's file are gone even when rendering the WireGuard
  configuration then fails, so the certificate, valid for ten years, is refused by \<^verbatim>\<open>ccd-exclusive\<close>; every other
  user stays.
\<close>

theorem delete_cuts_off:
  assumes inv: "store_inv (db w)" and p: "getPeer (db w) u = Some p" and ne: "OvpnDir cfg \<noteq> []" "u \<noteq> []"
    and fs: "fs_err os ''remove'' (ccd_path cfg u) = None" and far: "ccd_path cfg u \<notin> render_files cfg"
    and run: "deletePeer os cfg u w = (r, w')"
  shows "getPeer (db w') u = None \<and> files w' (ccd_path cfg u) = None \<and>
    (\<forall>v. v \<noteq> u \<longrightarrow> getPeer (db w') v = getPeer (db w) v)"
  using deletePeer_effect [OF assms] getPeer_sql_delete [OF inv p] by simp

definition delete_config :: config where
  "delete_config = sample_config\<lparr>OvpnDir := ''/etc/openvpn''\<rparr>"

lemma delete_cuts_off_witness:
  "\<exists>r w'. deletePeer demo_os delete_config ''ann'' (demo_world sample_store) = (r, w') \<and>
     getPeer (db w') ''ann'' = None \<and> getPeer (db w') ''bob'' = getPeer sample_store ''bob''"
proof -
  obtain r w' where run: "deletePeer demo_os delete_config ''ann'' (demo_world sample_store) = (r, w')" by fastforce
  have d: "db (demo_world sample_store) = sample_store" by (simp add: demo_world_def)
  have p: "getPeer (db (demo_world sample_store)) ''ann'' = Some ann" using getPeer_ann by (simp add: d)
  have inv: "store_inv (db (demo_world sample_store))" by (simp add: d)
  have c: "OvpnDir delete_config \<noteq> []" "ccd_path delete_config ''ann'' \<notin> render_files delete_config" by code_simp+
  have fs: "fs_err demo_os ''remove'' (ccd_path delete_config ''ann'') = None" by (simp add: demo_os_def)
  have n: "''ann'' \<noteq> []" by simp
  from delete_cuts_off [OF inv p c(1) n fs c(2) run] run show ?thesis by (auto simp: d)
qed

lemma clean_elems_up:
  assumes "plain_name a" and "plain_name n"
  shows "clean_elems r acc (es @ [a, ''..'', n]) = clean_elems r acc es @ [n]"
  using assms by (induction r acc es rule: clean_elems.induct) (auto simp: plain_name_def split: list.splits)

lemma ccd_path_up:
  assumes d: "clean_dir (OvpnDir cfg)" and n: "plain_name n"
  shows "ccd_path cfg (''../'' @ n) = path_join (OvpnDir cfg) n"
proof -
  let ?d = "OvpnDir cfg"
  have c: "plain_name ''ccd''" by (simp add: plain_name_def)
  have ne: "?d \<noteq> []" "n \<noteq> []" using d n by (auto simp: clean_dir_def plain_name_def)
  have up: "split_on CHR ''/'' ''ccd'' = [''ccd'']" "split_on CHR ''/'' ''..'' = [''..'']" by code_simp+
  have nn: "split_on CHR ''/'' n = [n]" using n by (intro split_on_no_sep) (simp add: plain_name_def)
  have "split_on CHR ''/'' (?d @ ''/'' @ ''ccd'' @ ''/'' @ ''..'' @ ''/'' @ n) =
      split_on CHR ''/'' ?d @ [''ccd'', ''..'', n]"
    using split_on_append2 [of "CHR ''/''" ?d "''ccd/../'' @ n"]
      split_on_append2 [of "CHR ''/''" "''ccd''" "''../'' @ n"] split_on_append2 [of "CHR ''/''" "''..''" n]
    by (simp add: up nn)
  moreover have "split_on CHR ''/'' (?d @ ''/'' @ n) = split_on CHR ''/'' ?d @ [n]"
    using split_on_append2 [of "CHR ''/''" ?d n] by (simp add: nn)
  moreover have "has_prefix (?d @ x) ''/'' = has_prefix ?d ''/''" for x using ne(1) by (cases ?d) auto
  ultimately have "path_clean (?d @ ''/'' @ ''ccd'' @ ''/'' @ ''..'' @ ''/'' @ n) = path_clean (?d @ ''/'' @ n)"
    unfolding path_clean_def Let_def using clean_elems_up [OF c n] clean_elems_snoc [OF n] by simp
  then show ?thesis using ne by (simp add: ccd_path_def path_join_def)
qed

text \<open>
  C37. A user name is a path below \<^verbatim>\<open>ccd\<close> and is not checked for one that leaves it.  The panel accepts the name
  \<^verbatim>\<open>../server.conf\<close>, and deleting that user deletes OpenVPN's server configuration.
\<close>

theorem traversal_deletes_server_conf:
  assumes inv: "store_inv (db w)" and p: "getPeer (db w) ''../server.conf'' = Some p"
    and d: "clean_dir (OvpnDir cfg)" and fs: "fs_err os ''remove'' (path_join (OvpnDir cfg) ''server.conf'') = None"
    and far: "path_join (OvpnDir cfg) ''server.conf'' \<notin> render_files cfg"
    and run: "deletePeer os cfg ''../server.conf'' w = (r, w')"
  shows "files w' (path_join (OvpnDir cfg) ''server.conf'') = None"
proof -
  have "plain_name ''server.conf''" by (simp add: plain_name_def)
  from ccd_path_up [OF d this] have c: "ccd_path cfg ''../server.conf'' = path_join (OvpnDir cfg) ''server.conf''" by simp
  have ne: "OvpnDir cfg \<noteq> []" "''../server.conf'' \<noteq> []" using d by (auto simp: clean_dir_def)
  from deletePeer_effect(2) [OF inv p ne, of os, unfolded c, OF fs far run] show ?thesis .
qed

definition traversal_store :: store where
  "traversal_store = \<lparr>rows = [default_row\<lparr>ID := 1, Username := ''../server.conf''\<rparr>], row_seq = 1\<rparr>"

lemma traversal_deletes_server_conf_witness:
  "\<exists>r w'. deletePeer demo_os delete_config ''../server.conf''
       ((demo_world traversal_store)\<lparr>files := [''/etc/openvpn/server.conf'' \<mapsto> \<lparr>content = ''port 1194'', mtime = 0\<rparr>]\<rparr>) =
       (r, w') \<and> files w' ''/etc/openvpn/server.conf'' = None"
proof -
  let ?w = "(demo_world traversal_store)\<lparr>files := [''/etc/openvpn/server.conf'' \<mapsto> \<lparr>content = ''port 1194'', mtime = 0\<rparr>]\<rparr>"
  obtain r w' where run: "deletePeer demo_os delete_config ''../server.conf'' ?w = (r, w')" by fastforce
  have inv: "store_inv (db ?w)"
    by (simp add: demo_world_def traversal_store_def store_inv_def nonempty_distinct_def default_row_def)
  have p: "getPeer (db ?w) ''../server.conf'' = Some (default_row\<lparr>ID := 1, Username := ''../server.conf''\<rparr>)"
    by (simp add: demo_world_def traversal_store_def getPeer_def)
  have d: "clean_dir (OvpnDir delete_config)" "path_join (OvpnDir delete_config) ''server.conf'' \<notin> render_files delete_config"
    by code_simp+
  have fs: "fs_err demo_os ''remove'' (path_join (OvpnDir delete_config) ''server.conf'') = None"
    by (simp add: demo_os_def)
  have j: "path_join (OvpnDir delete_config) ''server.conf'' = ''/etc/openvpn/server.conf''" by code_simp
  from traversal_deletes_server_conf [OF inv p d(1) fs d(2) run] run show ?thesis unfolding j by blast
qed

section \<open>The static key\<close>

lemma chunks_exact:
  "0 < n \<Longrightarrow> length s = n * k \<Longrightarrow>
     length (chunks n s) = k \<and> list_all (\<lambda>l. length l = n) (chunks n s) \<and> concat (chunks n s) = s"
proof (induction k arbitrary: s)
  case 0
  then show ?case by (subst (1 2 3) chunks.simps) simp
next
  case (Suc k)
  have "s \<noteq> []" "length (drop n s) = n * k" using Suc.prems by auto
  then show ?case using Suc.IH [of "drop n s"] Suc.prems by (subst (1 2 3) chunks.simps) simp
qed

text \<open>
  The loop that cuts the static key ends after sixteen rounds and never slices past the text: 256 random
  bytes, in hexadecimal, give sixteen lines of 32 digits between the two markers, and nothing is lost.
\<close>

theorem static_key_lines:
  assumes "random_hex os 256 (kern w) = (h, k)" and "length h = 2 * 256"
  shows "\<exists>ls. ovpnGenTLSCrypt os w =
      (Inr (''-----BEGIN OpenVPN Static key V1-----'' @ nl @ unlines ls @ ''-----END OpenVPN Static key V1-----'' @ nl),
       w\<lparr>kern := k\<rparr>) \<and>
    length ls = 16 \<and> list_all (\<lambda>l. length l = 32) ls \<and> concat ls = h"
proof -
  have "length h = 32 * 16" using assms(2) by simp
  with chunks_exact [of 32 h 16] assms(1) show ?thesis
    by (intro exI [of _ "chunks 32 h"]) (simp add: ovpnGenTLSCrypt_def)
qed

lemma static_key_lines_witness:
  "\<exists>ls. fst (ovpnGenTLSCrypt (demo_os\<lparr>random_hex := (\<lambda>n k. (replicate (2 * n) CHR ''a'', k))\<rparr>) (demo_world empty_store)) =
      Inr (''-----BEGIN OpenVPN Static key V1-----'' @ nl @ unlines ls @ ''-----END OpenVPN Static key V1-----'' @ nl) \<and>
    length ls = 16"
proof -
  let ?os = "demo_os\<lparr>random_hex := (\<lambda>n k. (replicate (2 * n) CHR ''a'', k))\<rparr>" and ?w = "demo_world empty_store"
  let ?h = "replicate (2 * 256) CHR ''a''"
  have r: "random_hex ?os 256 (kern ?w) = (?h, kern ?w)" "length ?h = 2 * 256" by simp_all
  from static_key_lines [OF r] show ?thesis by (metis fst_conv)
qed

end
