(* ===== verification/Migration.thy ===== *)
theory Migration
  imports Ranges
begin

text \<open>
  migration.go: exporting the users and importing them elsewhere, alone or in a bundle with the server's files.
  The codecs are a parameter: JSON for the users and the manifest, and the zip container as the list of its
  files; a text is its bytes and file modes are not modelled.  Inside the import's transaction \<^verbatim>\<open>getPeer\<close> reads
  through another connection, so it sees the table as it was before the transaction.
\<close>

section \<open>The users file\<close>

record migrationPeer =
  mUsername :: string
  mPublicKey :: string
  mPrivateKey :: string
  mPresharedKey :: string
  mAddress :: string
  mQuotaBytes :: int
  mUsedBytes :: int
  mLastRx :: int
  mLastTx :: int
  mExpiresAt :: string
  mEnabled :: bool
  mBlocked :: bool
  mOvpnCN :: string
  mOvpnIP :: string
  mOvpnEnabled :: bool
  mUsedOvpnBytes :: int
  mLastOvpnBytes :: int
  mOvpnCert :: string
  mOvpnKey :: string

record migrationFile =
  mfVersion :: int
  mfExportedAt :: string
  mfPeers :: "migrationPeer list"

record migrationBundleManifest =
  bmVersion :: int
  bmExportedAt :: string
  bmIncludes :: "string list"
  wgInterface :: string
  wgEndpoint :: string
  ovSubnet :: string
  ovPort :: string
  ovProto :: string
  ovEndpoint :: string
  ovDNS :: string
  ovMgmt :: string
  ovMSSFix :: string
  ovTunMTU :: string

record codec =
  enc_users :: "migrationFile \<Rightarrow> string"
  dec_users :: "string \<Rightarrow> string + migrationFile"
  enc_manifest :: "migrationBundleManifest \<Rightarrow> string"
  dec_manifest :: "string \<Rightarrow> string + migrationBundleManifest"
  zip_read :: "string \<Rightarrow> (string \<times> string) list option"
  zip_write :: "(string \<times> string) list \<Rightarrow> string"

definition export_peer :: "peer \<Rightarrow> migrationPeer" where
  "export_peer p = \<lparr>mUsername = Username p, mPublicKey = PublicKey p, mPrivateKey = PrivateKey p,
     mPresharedKey = PSK p, mAddress = Address p, mQuotaBytes = QuotaBytes p, mUsedBytes = UsedBytes p,
     mLastRx = LastRx p, mLastTx = LastTx p, mExpiresAt = ExpiresAt p, mEnabled = Enabled p, mBlocked = Blocked p,
     mOvpnCN = OvpnCN p, mOvpnIP = OvpnIP p, mOvpnEnabled = OvpnEnabled p, mUsedOvpnBytes = UsedOvpnBytes p,
     mLastOvpnBytes = LastOvpnBytes p, mOvpnCert = OvpnCert p, mOvpnKey = OvpnKey p\<rparr>"

definition migrationFromDB :: "int \<Rightarrow> store \<Rightarrow> migrationFile" where
  "migrationFromDB t st =
     \<lparr>mfVersion = 1, mfExportedAt = format_rfc3339 t, mfPeers = map export_peer (allPeers st)\<rparr>"

definition encodeMigration :: "codec \<Rightarrow> 'k world \<Rightarrow> string" where
  "encodeMigration cd w = enc_users cd (migrationFromDB (now w) (db w)) @ nl"

definition decodeMigration :: "codec \<Rightarrow> string \<Rightarrow> string + migrationFile" where
  "decodeMigration cd data =
     (case dec_users cd data of
        Inl e \<Rightarrow> Inl (''bad migration JSON: '' @ e)
      | Inr m \<Rightarrow>
          (let v = (if mfVersion m = 0 then 1 else mfVersion m) in
           if v \<noteq> 1 then Inl (''unsupported migration version '' @ itoa v) else Inr (m\<lparr>mfVersion := v\<rparr>)))"

text \<open>The assignments of the update, and the row of the insert.\<close>

definition set_migrated :: "migrationPeer \<Rightarrow> peer \<Rightarrow> peer" where
  "set_migrated m r = r\<lparr>PublicKey := mPublicKey m, PrivateKey := mPrivateKey m, PSK := mPresharedKey m,
     Address := mAddress m, QuotaBytes := mQuotaBytes m, UsedBytes := mUsedBytes m, LastRx := mLastRx m,
     LastTx := mLastTx m, ExpiresAt := mExpiresAt m, Enabled := mEnabled m, Blocked := mBlocked m,
     OvpnCN := mOvpnCN m, OvpnIP := mOvpnIP m, OvpnEnabled := mOvpnEnabled m,
     UsedOvpnBytes := mUsedOvpnBytes m, LastOvpnBytes := mLastOvpnBytes m, OvpnCert := mOvpnCert m,
     OvpnKey := mOvpnKey m\<rparr>"

definition new_migrated :: "migrationPeer \<Rightarrow> peer" where
  "new_migrated m = set_migrated m (default_row\<lparr>Username := mUsername m\<rparr>)"

fun import_rows :: "store \<Rightarrow> migrationPeer list \<Rightarrow> store \<times> nat \<times> nat \<Rightarrow> string + store \<times> nat \<times> nat" where
  "import_rows st0 [] acc = Inr acc"
| "import_rows st0 (m # ms) (st, created, updated) =
     (if mUsername m = [] then Inl ''migration contains a user with empty username''
      else case getPeer st0 (mUsername m) of
        Some e \<Rightarrow>
          (case sql_update (ID e) (set_migrated m) st of
             Inl x \<Rightarrow> Inl (''update '' @ mUsername m @ '': '' @ x)
           | Inr st' \<Rightarrow> import_rows st0 ms (st', created, Suc updated))
      | None \<Rightarrow>
          (case sql_insert (new_migrated m) st of
             Inl x \<Rightarrow> Inl (''insert '' @ mUsername m @ '': '' @ x)
           | Inr st' \<Rightarrow> import_rows st0 ms (st', Suc created, updated)))"

fun write_ccds :: "'k os \<Rightarrow> config \<Rightarrow> peer list \<Rightarrow> ('k world, unit) prog" where
  "write_ccds os cfg [] = finish ()"
| "write_ccds os cfg (p # ps) =
     (if OvpnCN p = [] \<or> OvpnIP p = [] then write_ccds os cfg ps
      else and_then (lift_sum (ovpnMask (OvpnSubnet cfg))) (\<lambda>netmask.
           and_then (writeFileMode os (path_join (path_join (OvpnDir cfg) ''ccd'') (OvpnCN p))
             (''ifconfig-push '' @ OvpnIP p @ '' '' @ netmask @ nl)) (\<lambda>_.
           write_ccds os cfg ps)))"

definition applyMigrationState :: "'k os \<Rightarrow> config \<Rightarrow> ('k world, unit) prog" where
  "applyMigrationState os cfg =
     and_then (\<lambda>w. (if WGConf cfg \<noteq> [] \<and> fileExists (WGConf cfg) w then renderConf os cfg True else finish ()) w) (\<lambda>_ w.
       if OvpnSubnet cfg = [] \<and> OvpnDir cfg = [] then (Inr (), w)
       else (case ovpnDefaults os cfg w of
               (cfg', w1) \<Rightarrow>
                 and_then (\<lambda>w. write_ccds os cfg' (allPeers (db w)) w)
                   (\<lambda>_. syncOpenVPNServerUnitConfig os cfg') w1))"

definition importMigration :: "'k os \<Rightarrow> codec \<Rightarrow> config \<Rightarrow> string \<Rightarrow> bool \<Rightarrow> ('k world, nat \<times> nat) prog" where
  "importMigration os cd cfg data apply_it =
     and_then (lift_sum (decodeMigration cd data)) (\<lambda>m w.
       case import_rows (db w) (mfPeers m) (db w, 0, 0) of
         Inl e \<Rightarrow> (Inl e, w)
       | Inr (st, created, updated) \<Rightarrow>
           and_then (if apply_it then applyMigrationState os cfg else finish ())
             (\<lambda>_. finish (created, updated)) (w\<lparr>db := st\<rparr>))"

section \<open>The parameters file and the listening port\<close>

fun set_lines :: "string \<Rightarrow> string \<Rightarrow> string list \<Rightarrow> string list \<times> bool" where
  "set_lines key v [] = ([], False)"
| "set_lines key v (l # ls) =
     (let (ls', found) = set_lines key v ls; hit = has_prefix (trim_space l) (key @ ''='') in
      ((if hit then key @ ''='' @ v else l) # ls', hit \<or> found))"

definition setParamValue :: "string \<Rightarrow> string \<Rightarrow> string \<Rightarrow> string" where
  "setParamValue data key v =
     (if key = [] \<or> v = [] then data
      else
        (let (ls, found) = set_lines key v (lines (replace_all data [CHR 0x0D, CHR 0x0A] nl));
             ls' = (if found then ls
                    else if last ls = [] then butlast ls @ [key @ ''='' @ v, []]
                    else ls @ [key @ ''='' @ v]);
             out = join nl ls'
         in if has_suffix out nl then out else out @ nl))"

definition re_space :: "char \<Rightarrow> bool" where
  "re_space c \<longleftrightarrow> c \<in> {CHR '' '', CHR 0x09, CHR 0x0A, CHR 0x0C, CHR 0x0D}"

definition digits_after :: "string \<Rightarrow> string \<Rightarrow> (string \<times> string) option" where
  "digits_after pre s =
     (if takeWhile is_digit s = [] then None else Some (pre, dropWhile is_digit s))"

text \<open>
  The two patterns at one position: the text kept in front of the digits, and what follows them.
  \<^verbatim>\<open>^(\s*ListenPort\s*=\s*)[0-9]+\<close> begins at a line's start, \<^verbatim>\<open>(--dport[ \t]+)[0-9]+\<close> anywhere.
\<close>

definition match_listen :: "bool \<Rightarrow> string \<Rightarrow> (string \<times> string) option" where
  "match_listen bol s =
     (let a = takeWhile re_space s; s1 = dropWhile re_space s;
          s2 = drop 10 s1; b = takeWhile re_space s2; s3 = dropWhile re_space s2
      in if bol \<and> has_prefix s1 ''ListenPort'' \<and> has_prefix s3 ''=''
         then digits_after (a @ ''ListenPort'' @ b @ ''='' @ takeWhile re_space (tl s3)) (dropWhile re_space (tl s3))
         else None)"

definition match_dport :: "bool \<Rightarrow> string \<Rightarrow> (string \<times> string) option" where
  "match_dport bol s =
     (let blank = (\<lambda>c. c = CHR '' '' \<or> c = CHR 0x09); s1 = drop 7 s; b = takeWhile blank s1 in
      if has_prefix s ''--dport'' \<and> b \<noteq> [] then digits_after (''--dport'' @ b) (dropWhile blank s1) else None)"

text \<open>Replacing from left to right.  A match always consumes text; the comparison makes that plain.\<close>

function re_replace :: "(bool \<Rightarrow> string \<Rightarrow> (string \<times> string) option) \<Rightarrow> string \<Rightarrow> bool \<Rightarrow> string \<Rightarrow> string" where
  "re_replace m new bol [] = []"
| "re_replace m new bol (c # s) =
     (case m bol (c # s) of
        Some (pre, rest) \<Rightarrow>
          if length rest < length (c # s) then pre @ new @ re_replace m new False rest
          else c # re_replace m new (c = CHR 0x0A) s
      | None \<Rightarrow> c # re_replace m new (c = CHR 0x0A) s)"
  by pat_completeness auto
termination by (relation "measure (\<lambda>(m, new, bol, s). length s)") auto

definition setWireGuardListenPort :: "string \<Rightarrow> string \<Rightarrow> string" where
  "setWireGuardListenPort data port =
     (if port = [] then data
      else re_replace match_dport port True (re_replace match_listen port True data))"

section \<open>Bundles\<close>

type_synonym entries = "string \<Rightarrow> string option"

definition bundle_max :: nat where "bundle_max = 64 * 1024 * 1024"

definition ovpn_files :: "string list" where
  "ovpn_files = [''ca.crt'', ''ca.key'', ''server.crt'', ''server.key'', ''tc.key'', ''server.conf'']"

definition known_names :: "string list" where
  "known_names = [''manifest.json'', ''users.json'', ''wireguard/params'', ''wireguard/wg0.conf''] @
     map (\<lambda>f. ''openvpn/'' @ f) ovpn_files"

definition knownMigrationBundleEntry :: "string \<Rightarrow> bool" where
  "knownMigrationBundleEntry name \<longleftrightarrow> name \<in> set known_names"

fun read_entries :: "(string \<times> string) list \<Rightarrow> entries \<Rightarrow> string + entries" where
  "read_entries [] es = (if es = Map.empty then Inl ''bundle: no supported files found'' else Inr es)"
| "read_entries ((name, data) # fs) es =
     (if \<not> knownMigrationBundleEntry name then read_entries fs es
      else if bundle_max < length data then Inl (''bundle: '' @ name @ '' is too large'')
      else read_entries fs (es(name \<mapsto> data)))"

definition readMigrationBundle :: "codec \<Rightarrow> string \<Rightarrow> (string + entries) option" where
  "readMigrationBundle cd data = map_option (\<lambda>fs. read_entries fs Map.empty) (zip_read cd data)"

definition empty_manifest :: migrationBundleManifest where
  "empty_manifest = \<lparr>bmVersion = 0, bmExportedAt = [], bmIncludes = [], wgInterface = [], wgEndpoint = [],
     ovSubnet = [], ovPort = [], ovProto = [], ovEndpoint = [], ovDNS = [], ovMgmt = [], ovMSSFix = [], ovTunMTU = []\<rparr>"

definition decodeBundleManifest :: "codec \<Rightarrow> entries \<Rightarrow> string + migrationBundleManifest" where
  "decodeBundleManifest cd es =
     (case (case es ''manifest.json'' of None \<Rightarrow> Inr empty_manifest | Some t \<Rightarrow> dec_manifest cd t) of
        Inl e \<Rightarrow> Inl (''bundle: bad manifest: '' @ e)
      | Inr m \<Rightarrow>
          (let v = (if bmVersion m = 0 then 1 else bmVersion m) in
           if v \<noteq> 1 then Inl (''bundle: unsupported manifest version '' @ itoa v) else Inr (m\<lparr>bmVersion := v\<rparr>)))"

record migrationDestination =
  WGEndpoint :: string
  WGPort :: string
  dOvpnEndpoint :: string
  dOvpnPort :: string
  dOvpnProto :: string

definition currentMigrationDestination :: "config \<Rightarrow> 'k world \<Rightarrow> migrationDestination" where
  "currentMigrationDestination cfg w =
     (let pm = (if Params cfg = [] then Map.empty
                else case file_text w (Params cfg) of None \<Rightarrow> Map.empty | Some t \<Rightarrow> params_of t);
          wg = param pm ''SERVER_PUB_IP''
      in \<lparr>WGEndpoint = wg, WGPort = param pm ''SERVER_PORT'', dOvpnEndpoint = or_default (OvpnEndpoint cfg) wg,
          dOvpnPort = OvpnPort cfg, dOvpnProto = OvpnProto cfg\<rparr>)"

text \<open>Only known names are entries, so it is enough to look at those.\<close>

definition hasBundlePrefix :: "entries \<Rightarrow> string \<Rightarrow> bool" where
  "hasBundlePrefix es pre \<longleftrightarrow> list_ex (\<lambda>n. has_prefix n pre \<and> es n \<noteq> None) known_names"

text \<open>A setting of the bundle, where it has one; and the order this host, this configuration, the bundle.\<close>

definition from_bundle :: "string \<Rightarrow> string \<Rightarrow> string" where
  "from_bundle own theirs = (if theirs \<noteq> [] then theirs else own)"

definition own_first :: "string \<Rightarrow> string \<Rightarrow> string \<Rightarrow> string" where
  "own_first dest own theirs = (if dest \<noteq> [] then dest else or_default own theirs)"

definition bundle_wg :: "migrationBundleManifest \<Rightarrow> config \<Rightarrow> config" where
  "bundle_wg m cfg =
     cfg\<lparr>Interface := or_default (Interface cfg) (or_default (wgInterface m) ''wg0''),
         WGConf := or_default (WGConf cfg) ''/etc/wireguard/wg0.conf'',
         Params := or_default (Params cfg) ''/etc/wireguard/params''\<rparr>"

definition bundle_ovpn :: "migrationBundleManifest \<Rightarrow> migrationDestination \<Rightarrow> config \<Rightarrow> config" where
  "bundle_ovpn m d cfg =
     cfg\<lparr>OvpnDir := or_default (OvpnDir cfg) ''/etc/openvpn'',
         OvpnSubnet := from_bundle (OvpnSubnet cfg) (ovSubnet m),
         OvpnPort := own_first (dOvpnPort d) (OvpnPort cfg) (ovPort m),
         OvpnProto := own_first (dOvpnProto d) (OvpnProto cfg) (ovProto m),
         OvpnDNS := from_bundle (OvpnDNS cfg) (ovDNS m),
         OvpnMgmt := from_bundle (OvpnMgmt cfg) (ovMgmt m),
         OvpnMSSFix := from_bundle (OvpnMSSFix cfg) (ovMSSFix m),
         OvpnTunMTU := from_bundle (OvpnTunMTU cfg) (ovTunMTU m),
         OvpnEndpoint := own_first (dOvpnEndpoint d) (OvpnEndpoint cfg) (ovEndpoint m)\<rparr>"

definition applyBundleConfig ::
  "'k os \<Rightarrow> migrationBundleManifest \<Rightarrow> entries \<Rightarrow> migrationDestination \<Rightarrow> config \<Rightarrow> 'k world \<Rightarrow> config \<times> 'k world" where
  "applyBundleConfig os m es d cfg w =
     (let cfg1 = (if hasBundlePrefix es ''wireguard/'' then bundle_wg m cfg else cfg) in
      if hasBundlePrefix es ''openvpn/'' then ovpnDefaults os (bundle_ovpn m d cfg1) w else (cfg1, w))"

definition restoreBundleFile :: "'k os \<Rightarrow> string \<Rightarrow> string \<Rightarrow> ('k world, unit) prog" where
  "restoreBundleFile os path data =
     (if path = [] then finish () else or_die (''bundle: restore '' @ path @ '': '') (write_file os path data))"

definition restore_params :: "migrationDestination \<Rightarrow> string \<Rightarrow> string" where
  "restore_params d data =
     setParamValue (setParamValue data ''SERVER_PUB_IP'' (WGEndpoint d)) ''SERVER_PORT'' (WGPort d)"

fun restore_all :: "'k os \<Rightarrow> (string \<times> string option) list \<Rightarrow> ('k world, unit) prog" where
  "restore_all os [] = finish ()"
| "restore_all os ((path, None) # fs) = restore_all os fs"
| "restore_all os ((path, Some data) # fs) = and_then (restoreBundleFile os path data) (\<lambda>_. restore_all os fs)"

text \<open>The code visits the OpenVPN files in an unspecified order; they are different files.\<close>

definition restoreMigrationBundleFiles :: "'k os \<Rightarrow> config \<Rightarrow> entries \<Rightarrow> migrationDestination \<Rightarrow> ('k world, unit) prog" where
  "restoreMigrationBundleFiles os cfg es d =
     restore_all os
       ([(Params cfg, map_option (restore_params d) (es ''wireguard/params'')),
         (WGConf cfg, map_option (\<lambda>t. setWireGuardListenPort t (WGPort d)) (es ''wireguard/wg0.conf''))] @
        map (\<lambda>f. (path_join (OvpnDir cfg) f, es (''openvpn/'' @ f))) ovpn_files)"

definition override_endpoint :: "string \<Rightarrow> migrationDestination \<Rightarrow> migrationDestination" where
  "override_endpoint e d =
     (if trim_space e = [] then d else d\<lparr>WGEndpoint := trim_space e, dOvpnEndpoint := trim_space e\<rparr>)"

definition apply_bundle :: "'k os \<Rightarrow> config \<Rightarrow> entries \<Rightarrow> ('k world, unit) prog" where
  "apply_bundle os cfg es =
     and_then (if hasBundlePrefix es ''openvpn/''
               then and_then (lift_sum (ovpnServerConf cfg))
                      (\<lambda>t. writeFileMode os (path_join (OvpnDir cfg) ''server.conf'') t)
               else finish ()) (\<lambda>_.
     and_then (saveConfig os cfg) (\<lambda>_.
     applyMigrationState os cfg))"

definition importMigrationBundle ::
  "'k os \<Rightarrow> codec \<Rightarrow> config \<Rightarrow> string \<Rightarrow> string \<Rightarrow> bool \<Rightarrow> ('k world, nat \<times> nat) prog" where
  "importMigrationBundle os cd cfg0 data endpoint apply_it w =
     (case readMigrationBundle cd data of
        None \<Rightarrow> importMigration os cd cfg0 data apply_it w
      | Some (Inl e) \<Rightarrow> (Inl e, w)
      | Some (Inr es) \<Rightarrow>
          (case es ''users.json'' of
             None \<Rightarrow> (Inl ''bundle: missing users.json'', w)
           | Some users \<Rightarrow>
               (case decodeBundleManifest cd es of
                  Inl e \<Rightarrow> (Inl e, w)
                | Inr m \<Rightarrow>
                    (let d = override_endpoint endpoint (currentMigrationDestination cfg0 w);
                         (cfg, w1) = applyBundleConfig os m es d cfg0 w
                     in and_then (importMigration os cd cfg users False) (\<lambda>counts.
                        and_then (restoreMigrationBundleFiles os cfg es d) (\<lambda>_.
                        and_then (if apply_it then apply_bundle os cfg es else finish ()) (\<lambda>_.
                        finish counts))) w1))))"

section \<open>Export\<close>

definition openVPNConfiguredForMigration :: "config \<Rightarrow> bool" where
  "openVPNConfiguredForMigration cfg \<longleftrightarrow> OvpnDir cfg \<noteq> [] \<or> OvpnSubnet cfg \<noteq> [] \<or> OvpnPort cfg \<noteq> [] \<or>
     OvpnProto cfg \<noteq> [] \<or> OvpnEndpoint cfg \<noteq> [] \<or> OvpnMgmt cfg \<noteq> []"

definition existing_file :: "'k world \<Rightarrow> string \<Rightarrow> string \<Rightarrow> (string \<times> string) list" where
  "existing_file w name path =
     (if path = [] then [] else case file_text w path of None \<Rightarrow> [] | Some t \<Rightarrow> [(name, t)])"

definition buildMigrationBundleManifest :: "config \<Rightarrow> string list \<Rightarrow> 'k world \<Rightarrow> migrationBundleManifest" where
  "buildMigrationBundleManifest cfg includes w =
     (let pm = (if Params cfg = [] then Map.empty
                else case file_text w (Params cfg) of None \<Rightarrow> Map.empty | Some t \<Rightarrow> params_of t);
          m = empty_manifest\<lparr>bmVersion := 1, bmExportedAt := format_rfc3339 (now w), bmIncludes := includes,
                wgInterface := Interface cfg, wgEndpoint := param pm ''SERVER_PUB_IP''\<rparr>
      in if list_ex (\<lambda>n. has_prefix n ''openvpn/'') includes
         then m\<lparr>ovSubnet := OvpnSubnet cfg, ovPort := OvpnPort cfg, ovProto := OvpnProto cfg,
                ovEndpoint := OvpnEndpoint cfg, ovDNS := OvpnDNS cfg, ovMgmt := OvpnMgmt cfg,
                ovMSSFix := OvpnMSSFix cfg, ovTunMTU := OvpnTunMTU cfg\<rparr>
         else m)"

definition bundle_files :: "'k os \<Rightarrow> codec \<Rightarrow> config \<Rightarrow> 'k world \<Rightarrow> (string \<times> string) list \<times> 'k world" where
  "bundle_files os cd cfg w =
     (let base = (''users.json'', encodeMigration cd w) #
            existing_file w ''wireguard/params'' (Params cfg) @ existing_file w ''wireguard/wg0.conf'' (WGConf cfg)
      in if openVPNConfiguredForMigration cfg
         then (case ovpnDefaults os cfg w of
                 (ov, w') \<Rightarrow>
                   (base @ concat (map (\<lambda>f. existing_file w' (''openvpn/'' @ f) (path_join (OvpnDir ov) f)) ovpn_files), w'))
         else (base, w))"

definition encodeMigrationBundle :: "'k os \<Rightarrow> codec \<Rightarrow> config \<Rightarrow> 'k world \<Rightarrow> string \<times> 'k world" where
  "encodeMigrationBundle os cd cfg w =
     (case bundle_files os cd cfg w of
        (fs, w') \<Rightarrow>
          (zip_write cd (fs @ [(''manifest.json'',
             enc_manifest cd (buildMigrationBundleManifest cfg (map fst fs) w') @ nl)]), w'))"

end
