(* ===== verification/Bundles.thy ===== *)
theory Bundles
  imports Migration
begin

text \<open>
  What migrating promises: an import is all or nothing and touches only the users it names, an exported table
  is imported as it was, the container restores only the server's own files, and the target host keeps its
  identity.
\<close>

section \<open>Importing rows\<close>

lemma export_set_migrated: "Username r = mUsername m \<Longrightarrow> export_peer (set_migrated m r) = m"
  by (cases m) (simp add: export_peer_def set_migrated_def)

lemma export_new_migrated: "export_peer (new_migrated m\<lparr>ID := i\<rparr>) = m"
  by (cases m) (simp add: export_peer_def new_migrated_def set_migrated_def default_row_def)

lemma mUsername_export: "mUsername (export_peer p) = Username p"
  by (simp add: export_peer_def)

lemma getPeer_insert:
  assumes "sql_insert p st = Inr st'"
  shows "getPeer st' u = (if u = Username p then Some (p\<lparr>ID := row_seq st + 1\<rparr>) else getPeer st u)"
proof -
  have "conflict (rows st) p = None" and s: "rows st' = rows st @ [p\<lparr>ID := row_seq st + 1\<rparr>]"
    using assms by (auto simp: sql_insert_def split: option.splits)
  then have "Username p \<notin> Username ` set (rows st)" by (simp add: conflict_None)
  then have "find (\<lambda>r. Username r = Username p) (rows st) = None" unfolding find_None_iff by (metis image_eqI)
  then show ?thesis by (auto simp: getPeer_def s find_append split: option.split)
qed

lemma getPeer_sql_update:
  assumes inv: "store_inv st" and p: "getPeer st u = Some p"
    and f: "\<And>r. ID (f r) = ID r" "\<And>r. Username (f r) = Username r" and ok: "sql_update (ID p) f st = Inr st'"
  shows "getPeer st' v = (if v = u then Some (f p) else getPeer st v)"
proof -
  have pu: "p \<in> set (rows st)" "Username p = u" using p find_Some_iff2 unfolding getPeer_def by fast+
  have st': "rows st' = update_rows (ID p) f (rows st)"
    using ok pu(1) update_rows_other [of "ID p" "rows st" f]
    by (auto simp: sql_update_def find_None_iff split: option.splits)
  have "getPeer st' v = map_option (\<lambda>r. if ID r = ID p then f r else r) (getPeer st v)"
  proof -
    have "find (\<lambda>r. Username r = v) (update_rows (ID p) f rs) =
        map_option (\<lambda>r. if ID r = ID p then f r else r) (find (\<lambda>r. Username r = v) rs)" for rs
      using f(2) by (induction rs) auto
    then show ?thesis by (simp add: getPeer_def st')
  qed
  moreover have "ID r \<noteq> ID p" if "getPeer st v = Some r" "v \<noteq> u" for r
  proof
    assume "ID r = ID p"
    moreover have "r \<in> set (rows st)" "Username r = v" using that find_Some_iff2 unfolding getPeer_def by fast+
    ultimately show False using store_inv_ids [OF inv] pu that(2) by (metis distinct_map inj_onD)
  qed
  ultimately show ?thesis using p by (cases "getPeer st v") auto
qed

text \<open>The users of the table before the transaction keep their ids while it runs.\<close>

definition same_ids :: "store \<Rightarrow> store \<Rightarrow> bool" where
  "same_ids st0 st \<longleftrightarrow> (\<forall>u p. getPeer st0 u = Some p \<longrightarrow> (\<exists>r. getPeer st u = Some r \<and> ID r = ID p))"

lemma import_rows_step:
  assumes inv: "store_inv st" "same_ids st0 st" and u: "mUsername m \<noteq> []"
    and run: "import_rows st0 (m # ms) (st, c, n) = Inr r"
  obtains st1 c1 n1 q where "store_inv st1" "same_ids st0 st1" "import_rows st0 ms (st1, c1, n1) = Inr r"
    "getPeer st1 (mUsername m) = Some q" "export_peer q = m" "\<And>v. v \<noteq> mUsername m \<Longrightarrow> getPeer st1 v = getPeer st v"
proof (cases "getPeer st0 (mUsername m)")
  case None
  then obtain st1 where i: "sql_insert (new_migrated m) st = Inr st1" "import_rows st0 ms (st1, Suc c, n) = Inr r"
    using run u by (auto split: sum.splits)
  have n: "Username (new_migrated m) = mUsername m" by (simp add: new_migrated_def set_migrated_def)
  note g = getPeer_insert [OF i(1), unfolded n]
  have "same_ids st0 st1" using inv(2) None g unfolding same_ids_def by (metis option.distinct(1))
  with that [OF sql_insert_inv [OF inv(1) i(1)] this i(2)] g export_new_migrated show thesis by simp
next
  case (Some e)
  then obtain st1 where i: "sql_update (ID e) (set_migrated m) st = Inr st1" "import_rows st0 ms (st1, c, Suc n) = Inr r"
    using run u by (auto split: sum.splits)
  from inv(2) Some obtain p where p: "getPeer st (mUsername m) = Some p" "ID p = ID e" unfolding same_ids_def by blast
  then have pu: "Username p = mUsername m" using find_Some_iff2 unfolding getPeer_def by fast
  have k: "ID (set_migrated m r) = ID r" "Username (set_migrated m r) = Username r" for r
    by (simp_all add: set_migrated_def)
  note g = getPeer_sql_update [OF inv(1) p(1) k i(1) [folded p(2)]]
  have "same_ids st0 st1" using inv(2) p Some g k(1) unfolding same_ids_def by (metis option.inject)
  with that [OF sql_update_inv [OF inv(1) i(1) k(1)] this i(2)] g export_set_migrated [OF pu] show thesis by simp
qed

lemma import_rows_spec:
  assumes "store_inv st" "same_ids st0 st" and "import_rows st0 ms (st, c, n) = Inr (st', c', n')"
  shows "store_inv st' \<and> (\<forall>u. u \<notin> mUsername ` set ms \<longrightarrow> getPeer st' u = getPeer st u) \<and>
    (distinct (map mUsername ms) \<longrightarrow> (\<forall>m\<in>set ms. \<exists>q. getPeer st' (mUsername m) = Some q \<and> export_peer q = m))"
  using assms
proof (induction ms arbitrary: st c n)
  case (Cons m ms)
  have "mUsername m \<noteq> []" using Cons.prems(3) by (auto split: if_splits)
  from import_rows_step [OF Cons.prems(1,2) this Cons.prems(3)] obtain st1 c1 n1 q where
    s: "store_inv st1" "same_ids st0 st1" "import_rows st0 ms (st1, c1, n1) = Inr (st', c', n')"
      "getPeer st1 (mUsername m) = Some q" "export_peer q = m"
      "\<And>v. v \<noteq> mUsername m \<Longrightarrow> getPeer st1 v = getPeer st v" by blast
  note IH = Cons.IH [OF s(1-3)]
  have "\<exists>q. getPeer st' (mUsername m) = Some q \<and> export_peer q = m" if "mUsername m \<notin> mUsername ` set ms"
    using IH s(4,5) that by auto
  then show ?case using IH s(6) by auto
qed simp

lemma same_ids_refl: "same_ids st st"
  by (simp add: same_ids_def)

section \<open>Importing what was exported\<close>

definition without_id :: "peer \<Rightarrow> peer" where
  "without_id p = p\<lparr>ID := 0\<rparr>"

lemma new_migrated_export: "new_migrated (export_peer p) = without_id p"
  by (cases p) (simp add: new_migrated_def set_migrated_def export_peer_def without_id_def default_row_def)

lemma import_exported_rows:
  assumes "distinct (map Username (rows st @ ps))" "nonempty_distinct (map PublicKey (rows st @ ps))"
    "nonempty_distinct (map Address (rows st @ ps))" and "\<forall>p\<in>set ps. Username p \<noteq> []"
  shows "\<exists>st'. import_rows empty_store (map export_peer ps) (st, c, n) = Inr (st', c + length ps, n) \<and>
    map without_id (rows st') = map without_id (rows st) @ map without_id ps"
  using assms
proof (induction ps arbitrary: st c)
  case (Cons p ps)
  have nd: "x = [] \<or> x \<notin> set xs" if "nonempty_distinct (xs @ x # ys)" for x :: string and xs ys
    using that by (auto simp: nonempty_distinct_def split: if_splits)
  have "conflict (rows st) (without_id p) = None"
    using Cons.prems(1) nd [of "map PublicKey (rows st)" "PublicKey p" "map PublicKey ps"]
      nd [of "map Address (rows st)" "Address p" "map Address ps"] Cons.prems(2,3)
    by (auto simp: conflict_None without_id_def)
  then obtain st1 where s: "sql_insert (without_id p) st = Inr st1"
    "rows st1 = rows st @ [without_id p\<lparr>ID := row_seq st + 1\<rparr>]"
    by (auto simp: sql_insert_def)
  have m: "map Username (rows st1 @ ps) = map Username (rows st @ p # ps)"
    "map PublicKey (rows st1 @ ps) = map PublicKey (rows st @ p # ps)"
    "map Address (rows st1 @ ps) = map Address (rows st @ p # ps)"
    by (simp_all add: s(2) without_id_def)
  have "\<forall>q\<in>set ps. Username q \<noteq> []" using Cons.prems(4) by simp
  from Cons.IH [OF Cons.prems(1-3) [folded m] this, of "Suc c"] obtain st' where
    "import_rows empty_store (map export_peer ps) (st1, Suc c, n) = Inr (st', Suc c + length ps, n)"
    and m': "map without_id (rows st') = map without_id (rows st1) @ map without_id ps" by blast
  then have "import_rows empty_store (map export_peer (p # ps)) (st, c, n) = Inr (st', c + length (p # ps), n)"
    using Cons.prems(4) s(1) by (simp add: new_migrated_export getPeer_def empty_store_def mUsername_export)
  moreover have "map without_id (rows st') = map without_id (rows st) @ map without_id (p # ps)"
    using m' by (simp add: s(2) without_id_def)
  ultimately show ?case by blast
qed simp

section \<open>Properties\<close>

text \<open>
  C9. Migrating loses nothing: the users file of one server, imported into an empty table, gives the same users
  in the same order with every column the program reads but the id, whatever is in the columns, and reports how
  many it created.
\<close>

theorem migration_roundtrip:
  assumes inv: "store_inv (db w)" and names: "\<forall>p\<in>set (rows (db w)). Username p \<noteq> []"
    and cd: "dec_users cd (encodeMigration cd w) = Inr (migrationFromDB (now w) (db w))"
    and target: "db t = empty_store"
  shows "\<exists>st. importMigration os cd cfg (encodeMigration cd w) False t = (Inr (length (rows (db w)), 0), t\<lparr>db := st\<rparr>) \<and>
    map without_id (rows st) = map without_id (rows (db w))"
proof -
  have d: "decodeMigration cd (encodeMigration cd w) = Inr (migrationFromDB (now w) (db w))"
    by (simp add: decodeMigration_def cd migrationFromDB_def)
  have p: "distinct (map Username (rows empty_store @ rows (db w)))"
    "nonempty_distinct (map PublicKey (rows empty_store @ rows (db w)))"
    "nonempty_distinct (map Address (rows empty_store @ rows (db w)))"
    using inv by (simp_all add: store_inv_def empty_store_def)
  from import_exported_rows [OF p names, of 0 0] obtain st where
    "import_rows empty_store (map export_peer (rows (db w))) (empty_store, 0, 0) = Inr (st, length (rows (db w)), 0)"
    "map without_id (rows st) = map without_id (rows (db w))" by (auto simp: empty_store_def)
  then show ?thesis
    by (auto simp: importMigration_def and_then_def lift_sum_def d finish_def migrationFromDB_def allPeers_def target)
qed

definition demo_codec :: codec where
  "demo_codec = \<lparr>enc_users = (\<lambda>m. []), dec_users = (\<lambda>s. Inr (migrationFromDB 0 sample_store)), enc_manifest = (\<lambda>m. []),
     dec_manifest = (\<lambda>s. Inr empty_manifest), zip_read = (\<lambda>s. Some [(''users.json'', s), (''../evil'', s)]),
     zip_write = (\<lambda>es. [])\<rparr>"

lemma migration_roundtrip_witness:
  "\<exists>st. importMigration demo_os demo_codec sample_config (encodeMigration demo_codec (demo_world sample_store)) False
       (demo_world empty_store) = (Inr (2, 0), (demo_world empty_store)\<lparr>db := st\<rparr>) \<and>
     map without_id (rows st) = map without_id [ann, bob]"
proof -
  have "store_inv (db (demo_world sample_store))" by (simp add: demo_world_def)
  moreover have "\<forall>p\<in>set (rows (db (demo_world sample_store))). Username p \<noteq> []"
    by (simp add: demo_world_def sample_store_def ann_def bob_def default_row_def)
  moreover have "dec_users demo_codec (encodeMigration demo_codec (demo_world sample_store)) =
      Inr (migrationFromDB (now (demo_world sample_store)) (db (demo_world sample_store)))"
    by (simp add: demo_codec_def demo_world_def)
  moreover have "db (demo_world empty_store) = empty_store" by (simp add: demo_world_def)
  ultimately have "\<exists>st. importMigration demo_os demo_codec sample_config (encodeMigration demo_codec (demo_world sample_store)) False
       (demo_world empty_store) = (Inr (length (rows (db (demo_world sample_store))), 0), (demo_world empty_store)\<lparr>db := st\<rparr>) \<and>
     map without_id (rows st) = map without_id (rows (db (demo_world sample_store)))"
    by (rule migration_roundtrip)
  then show ?thesis by (simp add: demo_world_def sample_store_def numeral_2_eq_2)
qed



text \<open>The files an import may write: those of this host's own configuration, or of the defaults.\<close>

definition bundle_targets :: "config \<Rightarrow> string set" where
  "bundle_targets cfg =
     {or_default (WGConf cfg) ''/etc/wireguard/wg0.conf'', or_default (Params cfg) ''/etc/wireguard/params''} \<union>
     (\<lambda>f. path_join (or_default (OvpnDir cfg) ''/etc/openvpn'') f) ` set ovpn_files"

lemma writes_only_restore_all:
  "(\<And>path data. (path, Some data) \<in> set fs \<Longrightarrow> path \<noteq> [] \<Longrightarrow> path \<in> S) \<Longrightarrow> writes_only S (restore_all os fs)"
proof (induction os fs rule: restore_all.induct)
  case (3 os path data fs)
  have "writes_only S (restoreBundleFile os path data)"
    using 3(2) by (auto simp: restoreBundleFile_def intro: writes_rules)
  then show ?case using 3 by (auto intro: writes_rules)
qed (auto intro: writes_rules)

lemma no_entry: "\<not> hasBundlePrefix es pre \<Longrightarrow> n \<in> set known_names \<Longrightarrow> has_prefix n pre \<Longrightarrow> es n = None"
  unfolding hasBundlePrefix_def list_ex_iff by blast

lemma no_ovpn_entry: "\<not> hasBundlePrefix es ''openvpn/'' \<Longrightarrow> f \<in> set ovpn_files \<Longrightarrow> es (''openvpn/'' @ f) = None"
  by (erule no_entry) (simp_all add: known_names_def has_prefix_def)

lemma no_wg_entry:
  assumes "\<not> hasBundlePrefix es ''wireguard/''"
  shows "es ''wireguard/params'' = None \<and> es ''wireguard/wg0.conf'' = None"
proof -
  have "''wireguard/params'' \<in> set known_names" "''wireguard/wg0.conf'' \<in> set known_names"
    "has_prefix ''wireguard/params'' ''wireguard/''" "has_prefix ''wireguard/wg0.conf'' ''wireguard/''" by code_simp+
  with no_entry [OF assms] show ?thesis by blast
qed

lemma ovpnRuntimeIdentity_frame: "ovpnRuntimeIdentity os w = (i, w') \<Longrightarrow> files w' = files w \<and> db w' = db w"
  by (auto simp: ovpnRuntimeIdentity_def Let_def run_def exec_in_def split: prod.splits if_splits option.splits)

lemma ovpnDefaults_frame:
  assumes "ovpnDefaults os cfg w = (cfg', w')"
  shows "files w' = files w \<and> db w' = db w \<and> OvpnDir cfg' = or_default (OvpnDir cfg) ''/etc/openvpn'' \<and>
     WGConf cfg' = WGConf cfg \<and> Params cfg' = Params cfg"
proof -
  obtain i w1 where i: "(if OvpnUser cfg = [] \<or> OvpnGroup cfg = [] then ovpnRuntimeIdentity os w else (([], []), w)) = (i, w1)"
    by fastforce
  then have "files w1 = files w \<and> db w1 = db w" by (auto dest: ovpnRuntimeIdentity_frame split: if_splits)
  moreover have "w' = w1" "OvpnDir cfg' = or_default (OvpnDir cfg) ''/etc/openvpn'' \<and> WGConf cfg' = WGConf cfg \<and> Params cfg' = Params cfg"
    using assms by (auto simp: ovpnDefaults_def Let_def i)
  ultimately show ?thesis by simp
qed

lemma applyBundleConfig_frame:
  assumes "applyBundleConfig os m es d cfg w = (cfg', w')"
  shows "files w' = files w" "db w' = db w"
    "hasBundlePrefix es ''wireguard/'' \<Longrightarrow> WGConf cfg' = or_default (WGConf cfg) ''/etc/wireguard/wg0.conf'' \<and>
      Params cfg' = or_default (Params cfg) ''/etc/wireguard/params''"
    "hasBundlePrefix es ''openvpn/'' \<Longrightarrow> OvpnDir cfg' = or_default (OvpnDir cfg) ''/etc/openvpn''"
  using assms
  by (auto simp: applyBundleConfig_def Let_def bundle_wg_def bundle_ovpn_def or_default_def split: if_splits dest!: ovpnDefaults_frame)

lemma writes_only_restore:
  assumes "applyBundleConfig os m es d cfg w = (cfg', w')"
  shows "writes_only (bundle_targets cfg) (restoreMigrationBundleFiles os cfg' es d)"
  unfolding restoreMigrationBundleFiles_def
proof (rule writes_only_restore_all)
  fix path data
  assume "(path, Some data) \<in> set ([(Params cfg', map_option (restore_params d) (es ''wireguard/params'')),
      (WGConf cfg', map_option (\<lambda>t. setWireGuardListenPort t (WGPort d)) (es ''wireguard/wg0.conf''))] @
      map (\<lambda>f. (path_join (OvpnDir cfg') f, es (''openvpn/'' @ f))) ovpn_files)"
  then consider "path = Params cfg'" "hasBundlePrefix es ''wireguard/''" | "path = WGConf cfg'" "hasBundlePrefix es ''wireguard/''"
    | f where "f \<in> set ovpn_files" "path = path_join (OvpnDir cfg') f" "hasBundlePrefix es ''openvpn/''"
    using no_wg_entry [of es] no_ovpn_entry [of es] by fastforce
  then show "path \<in> bundle_targets cfg"
    using applyBundleConfig_frame(3,4) [OF assms] by cases (auto simp: bundle_targets_def)
qed



text \<open>What a bundle never changes, and what it changes only where this host has nothing.\<close>

definition same_identity :: "config \<Rightarrow> config \<Rightarrow> bool" where
  "same_identity c c' \<longleftrightarrow> APIToken c' = APIToken c \<and> AdminUser c' = AdminUser c \<and> AdminPassHash c' = AdminPassHash c \<and>
    DBPath c' = DBPath c \<and> APIListen c' = APIListen c \<and> BasePath c' = BasePath c \<and> TLSCert c' = TLSCert c \<and>
    TLSKey c' = TLSKey c \<and> IPSet c' = IPSet c \<and> IntervalS c' = IntervalS c"

definition kept :: "string \<Rightarrow> string \<Rightarrow> bool" where
  "kept old new \<longleftrightarrow> (old \<noteq> [] \<longrightarrow> new = old)"

definition same_door :: "config \<Rightarrow> config \<Rightarrow> bool" where
  "same_door c c' \<longleftrightarrow> kept (OvpnPort c) (OvpnPort c') \<and> kept (OvpnProto c) (OvpnProto c') \<and>
    kept (OvpnEndpoint c) (OvpnEndpoint c')"

lemma identity_trans: "same_identity a b \<Longrightarrow> same_identity b c \<Longrightarrow> same_identity a c"
  by (simp add: same_identity_def)

lemma door_trans: "same_door a b \<Longrightarrow> same_door b c \<Longrightarrow> same_door a c"
  by (auto simp: same_door_def kept_def)

lemma ovpnDefaults_identity:
  assumes "ovpnDefaults os c w = (c', w')"
  shows "same_identity c c'" "same_door c c'" "kept (OvpnSubnet c) (OvpnSubnet c')"
  using assms
  by (auto simp: ovpnDefaults_def same_identity_def same_door_def kept_def or_default_def Let_def split: prod.splits)

lemma bundle_wg_identity: "same_identity c (bundle_wg m c)" "same_door c (bundle_wg m c)"
  by (simp_all add: bundle_wg_def same_identity_def same_door_def kept_def)

lemma bundle_ovpn_identity:
  assumes "kept (OvpnPort c) (dOvpnPort d)" "kept (OvpnProto c) (dOvpnProto d)" "kept (OvpnEndpoint c) (dOvpnEndpoint d)"
  shows "same_identity c (bundle_ovpn m d c)" "same_door c (bundle_ovpn m d c)"
    "kept (ovSubnet m) (OvpnSubnet (bundle_ovpn m d c))"
  using assms by (auto simp: bundle_ovpn_def same_identity_def same_door_def kept_def own_first_def from_bundle_def or_default_def)

text \<open>
  The target host keeps its identity.  Applying a bundle leaves the token, the administrator, the database,
  the panel's address and certificate as they are; a client keeps connecting where this host listens, since the
  port, protocol and endpoint it already has win over the bundle's, while the tunnel's subnet, which the users'
  addresses belong to, is the bundle's.
\<close>

theorem bundle_keeps_identity:
  assumes run: "applyBundleConfig os m es (currentMigrationDestination cfg w) cfg w = (cfg', w')"
  shows "same_identity cfg cfg' \<and> same_door cfg cfg' \<and>
    (hasBundlePrefix es ''openvpn/'' \<longrightarrow> kept (ovSubnet m) (OvpnSubnet cfg'))"
proof -
  define d where "d = currentMigrationDestination cfg w"
  define c1 where "c1 = (if hasBundlePrefix es ''wireguard/'' then bundle_wg m cfg else cfg)"
  have c1: "same_identity cfg c1" "same_door cfg c1" "OvpnPort c1 = OvpnPort cfg" "OvpnProto c1 = OvpnProto cfg"
    "OvpnEndpoint c1 = OvpnEndpoint cfg"
    using bundle_wg_identity [of cfg m] by (auto simp: c1_def bundle_wg_def same_identity_def same_door_def kept_def)
  show ?thesis
  proof (cases "hasBundlePrefix es ''openvpn/''")
    case False
    then show ?thesis using run c1(1,2) by (auto simp: applyBundleConfig_def Let_def c1_def)
  next
    case True
    then have "ovpnDefaults os (bundle_ovpn m d c1) w = (cfg', w')"
      using run by (simp add: applyBundleConfig_def Let_def c1_def d_def)
    note o = ovpnDefaults_identity [OF this]
    have "kept (OvpnPort c1) (dOvpnPort d)" "kept (OvpnProto c1) (dOvpnProto d)" "kept (OvpnEndpoint c1) (dOvpnEndpoint d)"
      by (simp_all add: d_def c1 kept_def currentMigrationDestination_def Let_def or_default_def)
    note b = bundle_ovpn_identity [OF this, where m = m]
    have "same_identity cfg cfg'" using identity_trans c1(1) b(1) o(1) by blast
    moreover have "same_door cfg cfg'" using door_trans c1(2) b(2) o(2) by blast
    moreover have "kept (ovSubnet m) (OvpnSubnet cfg')" using b(3) o(3) by (auto simp: kept_def)
    ultimately show ?thesis by blast
  qed
qed

definition identity_config :: config where
  "identity_config = sample_config\<lparr>OvpnPort := ''443'', OvpnProto := ''tcp'', OvpnUser := ''nobody'', OvpnGroup := ''nogroup''\<rparr>"

lemma bundle_keeps_identity_witness:
  "OvpnPort (fst (applyBundleConfig demo_os (empty_manifest\<lparr>ovPort := ''1194'', ovSubnet := ''10.9.0.0/16''\<rparr>)
      [''openvpn/ca.crt'' \<mapsto> ''x''] (currentMigrationDestination identity_config (demo_world empty_store)) identity_config
      (demo_world empty_store))) = ''443''"
proof -
  have "OvpnPort identity_config \<noteq> []" "OvpnPort identity_config = ''443''" by (simp_all add: identity_config_def)
  moreover have "same_door identity_config (fst (applyBundleConfig demo_os (empty_manifest\<lparr>ovPort := ''1194'', ovSubnet := ''10.9.0.0/16''\<rparr>)
      [''openvpn/ca.crt'' \<mapsto> ''x''] (currentMigrationDestination identity_config (demo_world empty_store)) identity_config
      (demo_world empty_store)))"
    using bundle_keeps_identity [OF prod.collapse [symmetric]] by blast
  ultimately show ?thesis by (simp add: same_door_def kept_def)
qed

section \<open>Reading an exported bundle\<close>

lemma read_entries_known:
  "\<forall>(n, d)\<in>set fs. knownMigrationBundleEntry n \<and> length d \<le> bundle_max \<Longrightarrow> distinct (map fst fs) \<Longrightarrow>
     es ++ map_of fs \<noteq> Map.empty \<Longrightarrow> read_entries fs es = Inr (es ++ map_of fs)"
proof (induction fs arbitrary: es)
  case (Cons x fs)
  obtain n d where x: "x = (n, d)" by (cases x)
  have e: "es(n \<mapsto> d) ++ map_of fs = es ++ map_of (x # fs)"
  proof -
    have "map_of fs n = None" using Cons.prems(2) by (simp add: x map_of_eq_None_iff)
    then show ?thesis by (auto simp: x map_add_def fun_eq_iff split: option.split)
  qed
  then have "es(n \<mapsto> d) ++ map_of fs \<noteq> Map.empty" using Cons.prems(3) by (simp del: map_of.simps)
  then have "read_entries fs (es(n \<mapsto> d)) = Inr (es(n \<mapsto> d) ++ map_of fs)" using Cons.IH Cons.prems by auto
  moreover have "read_entries (x # fs) es = read_entries fs (es(n \<mapsto> d))" using Cons.prems(1) by (auto simp: x)
  ultimately show ?case unfolding e by (simp only:)
qed simp

lemma existing_file_names: "set (map fst (existing_file w n path)) \<subseteq> {n}" "distinct (map fst (existing_file w n path))"
  "map_of (existing_file w n path) n = (if path = [] then None else file_text w path)"
  "m \<noteq> n \<Longrightarrow> map_of (existing_file w n path) m = None"
  by (auto simp: existing_file_def split: option.split)

lemma existing_ovpn_names:
  "map fst (concat (map (\<lambda>f. existing_file w (''openvpn/'' @ f) (path_join d f)) fl)) =
     map (\<lambda>f. ''openvpn/'' @ f) (filter (\<lambda>f. existing_file w (''openvpn/'' @ f) (path_join d f) \<noteq> []) fl)"
  by (induction fl) (auto simp: existing_file_def split: option.split)

lemma bundle_files_shape:
  assumes run: "bundle_files os cd cfg w = (fs, w')"
  obtains ov sub where "fs = (''users.json'', encodeMigration cd w) # existing_file w ''wireguard/params'' (Params cfg) @
      existing_file w ''wireguard/wg0.conf'' (WGConf cfg) @ ov"
    "map fst ov = map (\<lambda>f. ''openvpn/'' @ f) sub" "distinct sub" "set sub \<subseteq> set ovpn_files"
proof (cases "openVPNConfiguredForMigration cfg")
  case True
  obtain c v where d: "ovpnDefaults os cfg w = (c, v)" by fastforce
  have d': "distinct (filter P ovpn_files)" for P by (simp add: ovpn_files_def)
  have "\<exists>sub. map fst (concat (map (\<lambda>f. existing_file v (''openvpn/'' @ f) (path_join (OvpnDir c) f)) ovpn_files)) =
      map (\<lambda>f. ''openvpn/'' @ f) sub \<and> distinct sub \<and> set sub \<subseteq> set ovpn_files"
    unfolding existing_ovpn_names by (intro exI conjI, rule refl, rule d', auto)
  then show thesis using that run True by (auto simp: bundle_files_def d)
next
  case False
  with run show thesis by (intro that [of "[]" "[]"]) (auto simp: bundle_files_def)
qed


definition shelf_codec :: codec where
  "shelf_codec = demo_codec\<lparr>zip_read := (\<lambda>s. Some [(''users.json'', nl), (''wireguard/wg0.conf'', demo_conf), (''manifest.json'', nl)])\<rparr>"


end
