(* ===== verification/Cli.thy ===== *)
theory Cli
  imports Bundles Subnet Repair
begin

text \<open>
  main.go and ovpn_pki.go: the commands.  What a command prints on standard output as its result (a client's
  configuration, an export) is its value; other reports are left out.  \<^verbatim>\<open>strconv.ParseFloat\<close> is the argument
  \<open>pf\<close>: the number, and whether the text was one.  Closing the database has no effect.
\<close>

type_synonym float_parser = "string \<Rightarrow> f64 \<times> bool"

section \<open>Creating the configuration\<close>

definition init_config :: "bool \<Rightarrow> config" where
  "init_config ovpnOnly =
     (let cfg = zero_config\<lparr>Interface := ''wg0'', WGConf := ''/etc/wireguard/wg0.conf'',
            Params := ''/etc/wireguard/params'', DBPath := ''/var/lib/wgmgr/wgmgr.db'',
            ClientsDir := ''/etc/wireguard/clients'', APIListen := '':8443'', TLSCert := ''/etc/wgmgr/cert.pem'',
            TLSKey := ''/etc/wgmgr/key.pem'', IntervalS := 180, IPSet := ''wgmgr_blocked''\<rparr>
      in if ovpnOnly then cfg\<lparr>Interface := [], WGConf := [], Params := []\<rparr> else cfg)"

text \<open>The random texts and the hash, in the order the code draws them: token, password, base path.\<close>

definition init_secrets :: "'k os \<Rightarrow> 'k crypto \<Rightarrow> flags \<Rightarrow> config \<Rightarrow> ('k world, config) prog" where
  "init_secrets os cr m cfg w =
     (let (tok, k1) = random_hex os 32 (kern w); (pw, k2) = random_hex os 6 k1; (h, k3) = hash_pass cr pw k2 in
      case h of
        Inl e \<Rightarrow> (Inl (''hash password: '' @ e), w\<lparr>kern := k3\<rparr>)
      | Inr hash \<Rightarrow>
          (let cfg' = cfg\<lparr>APIToken := tok, AdminUser := ''admin'', AdminPassHash := hash\<rparr> in
           case m ''base-path'' of
             Some v \<Rightarrow> (Inr (cfg'\<lparr>BasePath := normBase v\<rparr>), w\<lparr>kern := k3\<rparr>)
           | None \<Rightarrow>
               (let (bp, k4) = random_hex os 8 k3 in
                (Inr (cfg'\<lparr>BasePath := ''/'' @ bp\<rparr>), w\<lparr>kern := k4\<rparr>))))"

definition cmdInit :: "'k os \<Rightarrow> 'k crypto \<Rightarrow> string list \<Rightarrow> ('k world, unit) prog" where
  "cmdInit os cr args w0 =
     (let m = snd (parseFlags args); ovpnOnly = flag_on m ''ovpn-only'' in
      if conf w0 \<noteq> None \<and> \<not> flag_on m ''force''
      then (Inl (''config already exists at /etc/wgmgr/config.json '' @ dash @
              '' refusing to overwrite (would reset API token + admin password). Use --force to recreate.''), w0)
      else and_then (init_secrets os cr m (init_config ovpnOnly)) (\<lambda>cfg.
           and_then (saveConfig os cfg) (\<lambda>_.
           if ovpnOnly then finish ()
           else and_then (parseParams (Params cfg)) (\<lambda>_.
                and_then (interfaceHead (WGConf cfg)) (\<lambda>_. finish ())))) w0)"

section \<open>Adding users\<close>

definition add_quota :: "float_parser \<Rightarrow> flags \<Rightarrow> string + int" where
  "add_quota pf m =
     (let v = flag_text m ''quota-gb'' in
      if v = [] then Inr 0
      else case pf v of (f, ok) \<Rightarrow> if ok then Inr (gbToBytes f) else Inl ''bad --quota-gb'')"

definition add_expiry :: "int \<Rightarrow> flags \<Rightarrow> string + string" where
  "add_expiry t m =
     (let v = flag_text m ''days'' in
      if v = [] then Inr []
      else case atoi v of None \<Rightarrow> Inl ''bad --days'' | Some d \<Rightarrow> Inr (format_rfc3339 (add_days t d)))"

definition add_ovpn :: "'k os \<Rightarrow> 'k pki \<Rightarrow> config \<Rightarrow> string \<Rightarrow> int \<Rightarrow> string \<Rightarrow> ('k world, string) prog" where
  "add_ovpn os pki cfg0 u quota expires w =
     (case ovpnDefaults os cfg0 w of
        (cfg, w1) \<Rightarrow>
          and_then (create_ovpn os pki cfg u quota expires)
            (\<lambda>_. and_then (must_get u) (ovpnConfigForPeer cfg)) w1)"

definition add_wg :: "'k os \<Rightarrow> config \<Rightarrow> string \<Rightarrow> int \<Rightarrow> string \<Rightarrow> ('k world, string) prog" where
  "add_wg os cfg u quota expires =
     (if WGConf cfg = []
      then die (''this is an OpenVPN-only install '' @ dash @ '' create users with `--ovpn-only`'')
      else and_then (create_wg os cfg u quota expires) (\<lambda>_.
           and_then (must_get u) (\<lambda>p.
           and_then (clientConfig cfg p) (\<lambda>c. finish (c @ nl)))))"

definition cmdAdd :: "'k os \<Rightarrow> 'k pki \<Rightarrow> float_parser \<Rightarrow> string list \<Rightarrow> ('k world, string) prog" where
  "cmdAdd os pki pf args =
     (case parseFlags args of
        ([], m) \<Rightarrow> die ''usage: wgmgr add <username> [--quota-gb N] [--days D] [--ovpn-only]''
      | (u # _, m) \<Rightarrow>
          and_then loadConfig (\<lambda>cfg w.
            if getPeer (db w) u \<noteq> None then (Inl (''user '' @ quoted u @ '' already exists''), w)
            else and_then (lift_sum (add_quota pf m)) (\<lambda>quota.
                 and_then (lift_sum (add_expiry (now w) m)) (\<lambda>expires.
                 if flag_on m ''ovpn-only'' then add_ovpn os pki cfg u quota expires
                 else add_wg os cfg u quota expires)) w))"

section \<open>Commands on one user\<close>

definition cmdRemove :: "'k os \<Rightarrow> string list \<Rightarrow> ('k world, unit) prog" where
  "cmdRemove os args =
     (case args of
        [] \<Rightarrow> die ''usage: wgmgr rm <username>''
      | u # _ \<Rightarrow> and_then loadConfig (\<lambda>cfg. deletePeer os cfg u))"

definition cmdConfig :: "string list \<Rightarrow> ('k world, string) prog" where
  "cmdConfig args =
     (case args of
        [] \<Rightarrow> die ''usage: wgmgr config <username>''
      | u # _ \<Rightarrow>
          and_then loadConfig (\<lambda>cfg.
          and_then (must_get u) (\<lambda>p.
          if PrivateKey p = [] then die (''no stored private key for '' @ quoted u) else clientConfig cfg p)))"

definition setField :: "string list \<Rightarrow> string \<Rightarrow> (peer \<Rightarrow> ('k world, unit) prog) \<Rightarrow> ('k world, unit) prog" where
  "setField args usage f =
     (case args of
        [] \<Rightarrow> die usage
      | u # _ \<Rightarrow> and_then loadConfig (\<lambda>_. and_then (must_get u) f))"

text \<open>An update whose error is ignored.\<close>

definition set_row :: "(peer \<Rightarrow> peer) \<Rightarrow> peer \<Rightarrow> ('k world, unit) prog" where
  "set_row f p = modify (\<lambda>w. w\<lparr>db := sql_update_ign (ID p) f (db w)\<rparr>)"

definition cli_quota :: "float_parser \<Rightarrow> string list \<Rightarrow> ('k world, unit) prog" where
  "cli_quota pf args =
     setField args ''usage: wgmgr set-quota <username> <GB>'' (\<lambda>p.
       if length args < 2 then die ''usage: wgmgr set-quota <username> <GB>''
       else case pf (args ! 1) of
              (f, ok) \<Rightarrow> if ok then set_row (\<lambda>r :: peer. r\<lparr>QuotaBytes := gbToBytes f\<rparr>) p else die ''bad GB value'')"

text \<open>A number that is not one counts as zero here, as the code ignores the error.\<close>

definition cli_recharge :: "float_parser \<Rightarrow> string list \<Rightarrow> ('k world, unit) prog" where
  "cli_recharge pf args =
     setField args ''usage: wgmgr recharge <username> [--reset] [--add-gb N] [--set-gb N]'' (\<lambda>p.
       let m = snd (parseFlags (tl args)); s = flag_text m ''set-gb''; a = flag_text m ''add-gb'' in
       and_then (if flag_on m ''reset'' then modify (\<lambda>w. w\<lparr>db := cli_reset (ID p) (db w)\<rparr>) else finish ()) (\<lambda>_.
       and_then (if s = [] then finish () else set_row (\<lambda>r :: peer. r\<lparr>QuotaBytes := gbToBytes (fst (pf s))\<rparr>) p) (\<lambda>_.
       if a = [] then finish ()
       else set_row (\<lambda>r :: peer. r\<lparr>QuotaBytes := QuotaBytes r + gbToBytes (fst (pf a))\<rparr>) p)))"

definition cli_renew :: "string list \<Rightarrow> ('k world, unit) prog" where
  "cli_renew args =
     setField args ''usage: wgmgr renew <username> <days-from-now>'' (\<lambda>p w.
       if length args < 2 then (Inl ''usage: wgmgr renew <username> <days-from-now>'', w)
       else case atoi (args ! 1) of
              None \<Rightarrow> (Inl ''bad days'', w)
            | Some d \<Rightarrow> set_row (\<lambda>r :: peer. r\<lparr>ExpiresAt := format_rfc3339 (add_days (now w) d)\<rparr>) p w)"

definition cli_enable :: "string list \<Rightarrow> ('k world, unit) prog" where
  "cli_enable args = setField args ''usage: wgmgr enable <username>'' (set_row (\<lambda>r :: peer. r\<lparr>Enabled := True\<rparr>))"

definition cli_disable :: "string list \<Rightarrow> ('k world, unit) prog" where
  "cli_disable args = setField args ''usage: wgmgr disable <username>'' (set_row (\<lambda>r :: peer. r\<lparr>Enabled := False\<rparr>))"

section \<open>Settings\<close>

definition set_login :: "'k os \<Rightarrow> 'k crypto \<Rightarrow> string list \<Rightarrow> ('k world, unit) prog" where
  "set_login os cr args =
     (case args of
        u # pw # _ \<Rightarrow>
          and_then loadConfig (\<lambda>cfg w.
            case hash_pass cr pw (kern w) of
              (Inl e, k) \<Rightarrow> (Inl (''hash password: '' @ e), w\<lparr>kern := k\<rparr>)
            | (Inr h, k) \<Rightarrow> saveConfig os (cfg\<lparr>AdminUser := u, AdminPassHash := h\<rparr>) (w\<lparr>kern := k\<rparr>))
      | _ \<Rightarrow> die ''usage: wgmgr set-login <username> <password>'')"

text \<open>The parameters file is read for the report only, but after the change, and dying when there is none.\<close>

definition set_base_path :: "'k os \<Rightarrow> string list \<Rightarrow> ('k world, unit) prog" where
  "set_base_path os args =
     (case args of
        [] \<Rightarrow> die ''usage: wgmgr set-base-path <path|/>   (e.g. /a1b2c3 ; use / to serve at root)''
      | p # _ \<Rightarrow>
          and_then loadConfig (\<lambda>cfg.
          and_then (saveConfig os (cfg\<lparr>BasePath := normBase p\<rparr>)) (\<lambda>_.
          and_then (parseParams (Params cfg)) (\<lambda>_. finish ()))))"

section \<open>OpenVPN\<close>

definition or_flag :: "flags \<Rightarrow> string \<Rightarrow> string \<Rightarrow> string" where
  "or_flag m k v = (case m k of None \<Rightarrow> v | Some v' \<Rightarrow> v')"

definition ovpn_flags :: "flags \<Rightarrow> config \<Rightarrow> config" where
  "ovpn_flags m cfg =
     cfg\<lparr>OvpnDir := or_flag m ''dir'' (OvpnDir cfg), OvpnSubnet := or_flag m ''subnet'' (OvpnSubnet cfg),
         OvpnPort := or_flag m ''port'' (OvpnPort cfg), OvpnProto := or_flag m ''proto'' (OvpnProto cfg),
         OvpnDNS := or_flag m ''dns'' (OvpnDNS cfg), OvpnMgmt := or_flag m ''mgmt'' (OvpnMgmt cfg),
         OvpnUser := or_flag m ''user'' (OvpnUser cfg), OvpnGroup := or_flag m ''group'' (OvpnGroup cfg),
         OvpnMSSFix := or_flag m ''mssfix'' (OvpnMSSFix cfg), OvpnTunMTU := or_flag m ''tun-mtu'' (OvpnTunMTU cfg)\<rparr>"

definition refuse_overlap :: "config \<Rightarrow> ('k world, unit) prog" where
  "refuse_overlap cfg =
     and_then (interfaceHead (WGConf cfg)) (\<lambda>(_, wn, _).
       case parse_cidr (OvpnSubnet cfg) of
         None \<Rightarrow> finish ()
       | Some (_, on) \<Rightarrow>
           if netsOverlap wn on
           then die (''openvpn subnet '' @ net_str on @ '' overlaps the WireGuard pool '' @ net_str wn @ '' '' @ dash @
                  '' pass a different --subnet (e.g. 10.9.0.0/16)'')
           else finish ())"

definition init_endpoint :: "(string \<Rightarrow> bool) \<Rightarrow> ip4 list \<Rightarrow> flags \<Rightarrow> config \<Rightarrow> 'k world \<Rightarrow> config" where
  "init_endpoint is_ip6 addrs m cfg w =
     (let c = cfg\<lparr>OvpnEndpoint := or_flag m ''endpoint'' (OvpnEndpoint cfg)\<rparr> in
      if OvpnEndpoint c = [] then c\<lparr>OvpnEndpoint := serverPublicIP is_ip6 addrs c w\<rparr> else c)"

definition ensure_server_cert :: "'k os \<Rightarrow> 'k pki \<Rightarrow> config \<Rightarrow> string \<times> string \<Rightarrow> ('k world, unit) prog" where
  "ensure_server_cert os pki cfg ca w =
     (let crt = path_join (OvpnDir cfg) ''server.crt''; key = path_join (OvpnDir cfg) ''server.key'' in
      if fileExists crt w \<and> fileExists key w then (Inr (), w)
      else and_then (ovpnIssueCert os pki ca ''server'' True) (\<lambda>(cp, kp).
           and_then (writeFileMode os crt cp) (\<lambda>_.
           writeFileMode os key kp)) w)"

definition ensure_tls_crypt :: "'k os \<Rightarrow> config \<Rightarrow> ('k world, unit) prog" where
  "ensure_tls_crypt os cfg w =
     (let tc = path_join (OvpnDir cfg) ''tc.key'' in
      if fileExists tc w then (Inr (), w)
      else and_then (ovpnGenTLSCrypt os) (\<lambda>t. writeFileMode os tc t) w)"

definition restart_active :: "'k os \<Rightarrow> 'k world \<Rightarrow> 'k world" where
  "restart_active os w = (case activeOpenvpnUnit os w of (u, w') \<Rightarrow> if u \<noteq> [] then restart os u w' else w')"

definition setup_ovpn :: "'k os \<Rightarrow> 'k pki \<Rightarrow> config \<Rightarrow> ('k world, unit) prog" where
  "setup_ovpn os pki cfg =
     and_then (ovpnEnsureCA os pki (OvpnDir cfg)) (\<lambda>ca.
     and_then (ensure_server_cert os pki cfg ca) (\<lambda>_.
     and_then (ensure_tls_crypt os cfg) (\<lambda>_.
     and_then (lift_sum (ovpnServerConf cfg)) (\<lambda>t.
     and_then (writeFileMode os (path_join (OvpnDir cfg) ''server.conf'') t) (\<lambda>_.
     and_then (saveConfig os cfg) (\<lambda>_.
     modify (restart_active os)))))))"

definition cmdOvpnInit ::
  "'k os \<Rightarrow> 'k pki \<Rightarrow> (string \<Rightarrow> bool) \<Rightarrow> ip4 list \<Rightarrow> string list \<Rightarrow> ('k world, unit) prog" where
  "cmdOvpnInit os pki is_ip6 addrs args =
     and_then loadConfig (\<lambda>cfg0 w0.
       let m = snd (parseFlags args);
           choosing = (OvpnSubnet cfg0 = [] \<or> m ''subnet'' \<noteq> None);
           (cfg, w1) = ovpnDefaults os (ovpn_flags m cfg0) w0
       in and_then (if choosing \<and> WGConf cfg \<noteq> [] \<and> fileExists (WGConf cfg) w1 then refuse_overlap cfg else finish ())
            (\<lambda>_ w.
              let cfg' = init_endpoint is_ip6 addrs m cfg w in
              if OvpnEndpoint cfg' = []
              then (Inl (''openvpn endpoint required '' @ dash @
                      '' pass --endpoint <ip-or-hostname> (auto-detect returned nothing)''), w)
              else setup_ovpn os pki cfg' w) w1)"

text \<open>Under the stored configuration with the defaults.\<close>

definition under_defaults :: "'k os \<Rightarrow> (config \<Rightarrow> ('k world, 'a) prog) \<Rightarrow> ('k world, 'a) prog" where
  "under_defaults os f = and_then loadConfig (\<lambda>cfg0 w. case ovpnDefaults os cfg0 w of (cfg, w') \<Rightarrow> f cfg w')"

definition cmdOvpnAdd :: "'k os \<Rightarrow> 'k pki \<Rightarrow> string list \<Rightarrow> ('k world, string) prog" where
  "cmdOvpnAdd os pki args =
     (case args of
        [] \<Rightarrow> die ''usage: wgmgr ovpn-add <username>''
      | u # _ \<Rightarrow>
          under_defaults os (\<lambda>cfg w.
            if \<not> fileExists (path_join (OvpnDir cfg) ''ca.crt'') w
            then (Inl (''openvpn is not initialized '' @ dash @ '' run `wgmgr ovpn-init` first''), w)
            else (case getPeer (db w) u of
                    None \<Rightarrow> (Inl (''no such user '' @ quoted u @ '' '' @ dash @ '' create it first with `wgmgr add '' @ u @ ''`''), w)
                  | Some p \<Rightarrow>
                      if OvpnCN p \<noteq> [] then (Inl (''user '' @ quoted (Username p) @ '' already has an OpenVPN identity''), w)
                      else ovpnAttach os pki cfg p w)))"

definition cmdOvpnConfig :: "'k os \<Rightarrow> string list \<Rightarrow> ('k world, string) prog" where
  "cmdOvpnConfig os args =
     (case args of
        [] \<Rightarrow> die ''usage: wgmgr ovpn-config <username>''
      | u # _ \<Rightarrow>
          under_defaults os (\<lambda>cfg.
          and_then (must_get u) (\<lambda>p.
          if OvpnCN p = [] \<or> OvpnCert p = []
          then die (''user '' @ quoted u @ '' has no OpenVPN identity '' @ dash @ '' run `wgmgr ovpn-add '' @ u @ ''`'')
          else ovpnConfigForPeer cfg p)))"

definition cmdOvpnRm :: "'k os \<Rightarrow> string list \<Rightarrow> ('k world, unit) prog" where
  "cmdOvpnRm os args =
     (case args of
        [] \<Rightarrow> die ''usage: wgmgr ovpn-rm <username>''
      | u # _ \<Rightarrow> under_defaults os (\<lambda>cfg. and_then (must_get u) (ovpnDetach os cfg)))"

section \<open>Exports and imports\<close>

definition write_export :: "'k os \<Rightarrow> string \<Rightarrow> string \<Rightarrow> string \<Rightarrow> ('k world, string) prog" where
  "write_export os msg path data =
     (if path = [] \<or> path = ''-'' then finish data
      else and_then (or_die msg (write_file os path data)) (\<lambda>_. finish []))"

definition writeMigrationFile :: "'k os \<Rightarrow> codec \<Rightarrow> string \<Rightarrow> ('k world, string) prog" where
  "writeMigrationFile os cd path w = write_export os ''write export: '' path (encodeMigration cd w) w"

definition writeMigrationBundleFile :: "'k os \<Rightarrow> codec \<Rightarrow> config \<Rightarrow> string \<Rightarrow> ('k world, string) prog" where
  "writeMigrationBundleFile os cd cfg path w =
     (case encodeMigrationBundle os cd cfg w of (b, w') \<Rightarrow> write_export os ''write bundle: '' path b w')"

definition first_or :: "string \<Rightarrow> string list \<Rightarrow> string" where
  "first_or d args = (case args of [] \<Rightarrow> d | a # _ \<Rightarrow> a)"

definition cmdExportUsers :: "'k os \<Rightarrow> codec \<Rightarrow> string list \<Rightarrow> ('k world, string) prog" where
  "cmdExportUsers os cd args = and_then loadConfig (\<lambda>_. writeMigrationFile os cd (first_or ''-'' args))"

definition cmdExportBundle :: "'k os \<Rightarrow> codec \<Rightarrow> string list \<Rightarrow> ('k world, string) prog" where
  "cmdExportBundle os cd args = and_then loadConfig (\<lambda>cfg. writeMigrationBundleFile os cd cfg (first_or ''-'' args))"

definition read_arg :: "string \<Rightarrow> string \<Rightarrow> ('k world, string) prog" where
  "read_arg msg path w = (case file_text w path of None \<Rightarrow> (Inl (msg @ path), w) | Some t \<Rightarrow> (Inr t, w))"

definition cmdImportUsers :: "'k os \<Rightarrow> codec \<Rightarrow> string list \<Rightarrow> ('k world, nat \<times> nat) prog" where
  "cmdImportUsers os cd args =
     (case parseFlags args of
        ([], m) \<Rightarrow> die ''usage: wgmgr import-users <file> [--no-apply]''
      | (path # _, m) \<Rightarrow>
          and_then (read_arg ''read import file: '' path) (\<lambda>data.
          and_then loadConfig (\<lambda>cfg.
          importMigration os cd cfg data (\<not> flag_on m ''no-apply''))))"

definition cmdImportBundle :: "'k os \<Rightarrow> codec \<Rightarrow> string list \<Rightarrow> ('k world, nat \<times> nat) prog" where
  "cmdImportBundle os cd args =
     (case parseFlags args of
        ([], m) \<Rightarrow> die ''usage: wgmgr import-bundle <file.zip|file.json> [--endpoint <new-server-ip-or-host>] [--no-apply]''
      | (path # _, m) \<Rightarrow>
          and_then (read_arg ''read bundle: '' path) (\<lambda>data.
          and_then loadConfig (\<lambda>cfg.
          importMigrationBundle os cd cfg data (flag_text m ''endpoint'') (\<not> flag_on m ''no-apply''))))"

text \<open>
  \<open>legacy\<close> reads the rows of the old database named by the first argument, none if it cannot; they are kept by
  public key, the last one of a key.
\<close>

definition legacy_records :: "peer list \<Rightarrow> string \<Rightarrow> peer option" where
  "legacy_records ps = foldl (\<lambda>m p. m(PublicKey p \<mapsto> p)) Map.empty ps"

definition cmdImport :: "(string \<Rightarrow> peer list) \<Rightarrow> string list \<Rightarrow> ('k world, unit) prog" where
  "cmdImport legacy args =
     and_then loadConfig (\<lambda>cfg.
     and_then (read_arg ''read conf: '' (WGConf cfg)) (\<lambda>text w.
       case import_conf (legacy_records (case args of [] \<Rightarrow> [] | f # _ \<Rightarrow> legacy f)) text (db w) of
         (r, st) \<Rightarrow> (r, w\<lparr>db := st\<rparr>)))"

end
