(* ===== verification/Commands.thy ===== *)
theory Commands
  imports Cli
begin

text \<open>
  main.go: the reports, the choice of a command (\<^verbatim>\<open>main\<close>) and the management menu (\<^verbatim>\<open>cmdMenu\<close>).  What lies outside
  the program is collected in a record \<open>env\<close>.  \<^verbatim>\<open>serve\<close>, which never returns, is in the theory Service; \<^verbatim>\<open>menu\<close>
  is its own function, and the usage text is left out.
\<close>

section \<open>Reports\<close>

text \<open>\<^verbatim>\<open>%.2f\<close>: the nearest multiple of a hundredth, ties to the even one.\<close>

definition round_even :: "rat \<Rightarrow> nat" where
  "round_even q =
     (let n = nat \<lfloor>q\<rfloor>; d = q - of_nat n in if 1 / 2 < d \<or> (d = 1 / 2 \<and> odd n) then n + 1 else n)"

definition gb :: "int \<Rightarrow> string" where
  "gb b =
     (let n = round_even (\<bar>f64_of_int b / of_int gib\<bar> * 100) in
      (if b < 0 then ''-'' else []) @ nat_str (n div 100) @ ''.'' @ pad 2 (int (n mod 100)))"

definition bool_str :: "bool \<Rightarrow> string" where
  "bool_str b = (if b then ''true'' else ''false'')"

definition list_line :: "string list \<Rightarrow> string" where
  "list_line cells = join '' '' (map (\<lambda>(n, c). pad_right n c) (zip [16, 16, 10, 10, 22, 8, 0] cells))"

definition infinity_sign :: string where
  "infinity_sign = [CHR 0xE2, CHR 0x88, CHR 0x9E]"

definition cmdList :: "('k world, string) prog" where
  "cmdList = and_then loadConfig (\<lambda>_. gets (\<lambda>w.
     unlines (list_line [''USER'', ''IP'', ''USED(GB)'', ''QUOTA(GB)'', ''EXPIRES'', ''ENABLED'', ''BLOCKED''] #
       map (\<lambda>p. list_line [Username p, Address p, gb (UsedBytes p),
           if QuotaBytes p = 0 then infinity_sign else gb (QuotaBytes p),
           or_default (ExpiresAt p) ''never'', bool_str (Enabled p), bool_str (Blocked p)])
         (sort_key Username (allPeers (db w))))))"

definition cmdShow :: "string list \<Rightarrow> ('k world, string) prog" where
  "cmdShow args =
     (case args of
        [] \<Rightarrow> die ''usage: wgmgr show <username>''
      | u # _ \<Rightarrow>
          and_then loadConfig (\<lambda>cfg.
          and_then (must_get u) (\<lambda>p.
            let top = unlines [''username:   '' @ Username p, ''ip:         '' @ Address p,
                  ''public_key: '' @ PublicKey p, ''used:       '' @ gb (UsedBytes p) @ '' GB'',
                  ''quota:      '' @ gb (QuotaBytes p) @ '' GB'', ''expires:    '' @ ExpiresAt p,
                  ''enabled:    '' @ bool_str (Enabled p), ''blocked:    '' @ bool_str (Blocked p)]
            in if PrivateKey p \<noteq> []
               then and_then (clientConfig cfg p)
                      (\<lambda>c. finish (top @ nl @ ''--- client config ---'' @ nl @ c @ nl))
               else finish (top @ nl @ ''(no stored private key '' @ dash @ '' cannot re-emit config for this user)'' @ nl))))"

definition state_line :: "'k os \<Rightarrow> string \<Rightarrow> ('k world, string) prog" where
  "state_line os unit w = (case serviceState os unit w of (s, w') \<Rightarrow> (Inr (''  '' @ unit @ '': '' @ s), w'))"

definition cmdStatus :: "'k os \<Rightarrow> ('k world, string) prog" where
  "cmdStatus os =
     and_then (state_line os ''wgmgr.service'') (\<lambda>a.
     and_then (state_line os ''wgmgr-openvpn-routing.service'') (\<lambda>b w.
     case existingOpenVPNUnit os w of (u, w1) \<Rightarrow>
       and_then (if u \<noteq> [] then and_then (state_line os u) (\<lambda>l. finish [l]) else finish []) (\<lambda>c w2.
       let top = [''WG-Manager status'', a, b] @ c in
       case conf w2 of
         None \<Rightarrow> (Inr (unlines (top @ [''  config: missing''])), w2)
       | Some cfg \<Rightarrow>
           and_then (if Interface cfg \<noteq> []
               then and_then (state_line os (''wg-quick@'' @ Interface cfg @ ''.service'')) (\<lambda>l. finish [l]) else finish [])
             (\<lambda>d. finish (unlines (top @ [''  config: /etc/wgmgr/config.json''] @ d @
               [''  listen: '' @ APIListen cfg, ''  base_path: '' @ or_default (BasePath cfg) ''/''] @
               (if OvpnSubnet cfg \<noteq> []
                then [''  openvpn: '' @ OvpnProto cfg @ ''/'' @ OvpnPort cfg @ '' subnet='' @ OvpnSubnet cfg] else [])))) w2) w1))"

section \<open>Updating\<close>

definition updateInstallerCommand :: string where
  "updateInstallerCommand = ''curl -fsSL https://raw.githubusercontent.com/mrAboalfazl/WG-Manager/main/install.sh | bash''"

text \<open>\<open>answer\<close> is the operator's, when there is a terminal.\<close>

definition cmdReinstall :: "'k os \<Rightarrow> bool option \<Rightarrow> string list \<Rightarrow> ('k world, unit) prog" where
  "cmdReinstall os answer args =
     (let yes = (args \<noteq> [] \<and> hd args = ''--yes'') in
      if \<not> yes \<and> answer = None then die ''reinstall requires --yes when stdin is not interactive''
      else if \<not> yes \<and> answer = Some False then finish ()
      else (\<lambda>w. case run os ''bash'' [''-c'', updateInstallerCommand] w of
              ((_, None), w') \<Rightarrow> (Inr (), w')
            | ((_, Some e), w') \<Rightarrow> (Inl (''reinstall failed: '' @ e), w')))"

definition updateLaunch :: "bool \<Rightarrow> string \<times> string list" where
  "updateLaunch haveSystemdRun =
     (let script = ''(sleep 1; '' @ updateInstallerCommand @ '') >/tmp/wgmgr-update.log 2>&1'' in
      if haveSystemdRun
      then (''systemd-run'', [''--unit=wgmgr-update'', ''--collect'', ''--quiet'',
              ''--description=WG-Manager update'', ''bash'', ''-c'', script])
      else (''bash'', [''-c'', script @ '' &'']))"

text \<open>The last command is only started; whether it starts is what counts.\<close>

definition startUpdateAsync :: "'k os \<Rightarrow> bool \<Rightarrow> 'k world \<Rightarrow> string option \<times> 'k world" where
  "startUpdateAsync os have_run w =
     (let start = (\<lambda>w. case updateLaunch False of (c, as) \<Rightarrow> (case run os c as w of ((_, e), w') \<Rightarrow> (e, w'))) in
      if \<not> have_run then start w
      else (case updateLaunch True of (c, as) \<Rightarrow>
             (case run os c as w of
                ((_, None), w') \<Rightarrow> (None, w')
              | ((out, Some _), w') \<Rightarrow>
                  if contains out ''already''
                  then (Some ''an update is already running (systemctl status wgmgr-update)'', w')
                  else start w')))"

section \<open>The commands\<close>

record 'k env =
  e_os :: "'k os"
  e_pki :: "'k pki"
  e_crypto :: "'k crypto"
  e_codec :: codec
  e_float :: float_parser
  e_ip6 :: "string \<Rightarrow> bool"
  e_addrs :: "ip4 list"
  e_readdir :: "string + string list"
  e_legacy :: "string \<Rightarrow> peer list"
  e_confirm :: "bool option"
  e_uninstall :: "(string \<times> purge) option"

definition quiet :: "('k world, 'a) prog \<Rightarrow> ('k world, string) prog" where
  "quiet p = and_then p (\<lambda>_. finish [])"

definition cmd_render :: "'k os \<Rightarrow> ('k world, unit) prog" where
  "cmd_render os = and_then loadConfig (\<lambda>cfg. renderConf os cfg False)"

definition cmd_enforce :: "'k os \<Rightarrow> ('k world, unit) prog" where
  "cmd_enforce os = and_then loadConfig (\<lambda>cfg. modify (enforceTick os cfg))"

text \<open>The switch of \<^verbatim>\<open>main\<close>.  \<open>None\<close> stands for \<^verbatim>\<open>menu\<close>, \<^verbatim>\<open>serve\<close> and the usage text.\<close>

definition command :: "'k env \<Rightarrow> string \<Rightarrow> string list \<Rightarrow> ('k world, string) prog option" where
  "command e cmd args =
     (let os = e_os e in
      if cmd \<in> {''menu'', ''help'', ''-h'', ''--help'', ''serve''} then None else Some (
      if cmd = ''status'' then cmdStatus os
      else if cmd = ''restart'' then quiet (cmdRestart os args)
      else if cmd \<in> {''reinstall'', ''update''} then quiet (cmdReinstall os (e_confirm e) args)
      else if cmd \<in> {''export'', ''export-users'', ''db-export''} then cmdExportUsers os (e_codec e) args
      else if cmd \<in> {''import-users'', ''db-import'', ''migration-import''} then quiet (cmdImportUsers os (e_codec e) args)
      else if cmd \<in> {''export-bundle'', ''export-full'', ''backup''} then cmdExportBundle os (e_codec e) args
      else if cmd \<in> {''import-bundle'', ''import-full'', ''restore''} then quiet (cmdImportBundle os (e_codec e) args)
      else if cmd = ''uninstall'' then quiet (cmdUninstall os (e_uninstall e) args)
      else if cmd = ''init'' then quiet (cmdInit os (e_crypto e) args)
      else if cmd = ''import'' then quiet (cmdImport (e_legacy e) args)
      else if cmd = ''add'' then cmdAdd os (e_pki e) (e_float e) args
      else if cmd \<in> {''rm'', ''remove'', ''del''} then quiet (cmdRemove os args)
      else if cmd = ''list'' then cmdList
      else if cmd = ''show'' then cmdShow args
      else if cmd = ''config'' then cmdConfig args
      else if cmd = ''render'' then quiet (cmd_render os)
      else if cmd = ''enforce'' then quiet (cmd_enforce os)
      else if cmd = ''set-login'' then quiet (set_login os (e_crypto e) args)
      else if cmd = ''set-base-path'' then quiet (set_base_path os args)
      else if cmd = ''ovpn-init'' then quiet (cmdOvpnInit os (e_pki e) (e_ip6 e) (e_addrs e) args)
      else if cmd = ''ovpn-add'' then quiet (cmdOvpnAdd os (e_pki e) args)
      else if cmd = ''ovpn-config'' then cmdOvpnConfig os args
      else if cmd = ''ovpn-rm'' then quiet (cmdOvpnRm os args)
      else if cmd = ''expand-subnet'' then quiet (expandSubnet os (e_confirm e) args)
      else if cmd = ''ovpn-orphans'' then cmdOvpnOrphans os (e_readdir e) args
      else if cmd = ''ghost-users'' then cmdGhostUsers args
      else if cmd = ''set-quota'' then quiet (cli_quota (e_float e) args)
      else if cmd = ''recharge'' then quiet (cli_recharge (e_float e) args)
      else if cmd = ''renew'' then quiet (cli_renew args)
      else if cmd = ''enable'' then quiet (cli_enable args)
      else if cmd = ''disable'' then quiet (cli_disable args)
      else die (''unknown command '' @ quoted cmd)))"

section \<open>The menu\<close>

text \<open>
  The operator's lines are a list; reading past its end gives the empty text, as \<^verbatim>\<open>readLine\<close> does at the end of
  the input.  A choice returns whether the menu goes on and the lines left.
\<close>

type_synonym 'k choice = "('k world, bool \<times> string list) prog"

definition readLine :: "string list \<Rightarrow> string \<times> string list" where
  "readLine ls = (case ls of [] \<Rightarrow> ([], []) | l # r \<Rightarrow> (trim_space l, r))"

definition readDefault :: "string \<Rightarrow> string list \<Rightarrow> string \<times> string list" where
  "readDefault d ls = (case readLine ls of (v, r) \<Rightarrow> (if v = [] then d else v, r))"

definition confirm :: "string list \<Rightarrow> bool \<times> string list" where
  "confirm ls = (case readLine ls of (v, r) \<Rightarrow> (to_lower v \<in> {''y'', ''yes''}, r))"

definition stay :: "('k world, 'a) prog \<Rightarrow> string list \<Rightarrow> 'k choice" where
  "stay p ls = and_then p (\<lambda>_. finish (True, ls))"

text \<open>A choice whose death is recovered.\<close>

definition caught :: "('k world, 'a) prog \<Rightarrow> string list \<Rightarrow> 'k choice" where
  "caught p ls w = (Inr (True, ls), snd (p w))"

definition menu_login :: "'k env \<Rightarrow> string list \<Rightarrow> 'k choice" where
  "menu_login e ls =
     and_then loadConfig (\<lambda>cfg.
       let (user, r1) = readDefault (AdminUser cfg) ls; (pass, r2) = readLine r1 in
       if user = [] \<or> pass = [] then finish (True, r2)
       else stay (set_login (e_os e) (e_crypto e) [user, pass]) r2)"

definition menu_path :: "'k env \<Rightarrow> string list \<Rightarrow> 'k choice" where
  "menu_path e ls =
     (case readDefault ''/'' ls of
        (path, r) \<Rightarrow>
          caught (and_then loadConfig (\<lambda>cfg. saveConfig (e_os e) (cfg\<lparr>BasePath := normBase path\<rparr>))) r)"

definition menu_add :: "'k env \<Rightarrow> string list \<Rightarrow> 'k choice" where
  "menu_add e ls =
     (let (user, r1) = readLine ls in
      if user = [] then finish (True, r1)
      else
        (let (quota, r2) = readDefault ''0'' r1; (days, r3) = readDefault ''0'' r2;
             (m, r4) = readDefault ''wg'' r3; mode = to_lower m;
             args = [user, ''--quota-gb'', quota, ''--days'', days] @ (if mode = ''ovpn'' then [''--ovpn-only''] else [])
         in stay (and_then (cmdAdd (e_os e) (e_pki e) (e_float e) args) (\<lambda>_.
                  if mode = ''both'' then quiet (cmdOvpnAdd (e_os e) (e_pki e) [user]) else finish [])) r4))"

definition menu_remove :: "'k env \<Rightarrow> string list \<Rightarrow> 'k choice" where
  "menu_remove e ls =
     (let (user, r1) = readLine ls; (ok, r2) = confirm r1 in
      if user = [] then finish (True, r1)
      else if ok then stay (cmdRemove (e_os e) [user]) r2 else finish (True, r2))"

definition menu_reinstall :: "'k env \<Rightarrow> string list \<Rightarrow> 'k choice" where
  "menu_reinstall e ls = (case confirm ls of (ok, r) \<Rightarrow> stay (cmdReinstall (e_os e) (Some ok) []) r)"

definition menu_export :: "'k env \<Rightarrow> string list \<Rightarrow> 'k choice" where
  "menu_export e ls =
     (case readDefault ''/root/wgmgr-users-export.json'' ls of
        (path, r) \<Rightarrow> stay (cmdExportUsers (e_os e) (e_codec e) [path]) r)"

definition menu_import :: "'k env \<Rightarrow> string list \<Rightarrow> 'k choice" where
  "menu_import e ls =
     (let (path, r1) = readLine ls; (ok, r2) = confirm r1 in
      if path = [] then finish (True, r1)
      else if ok then stay (cmdImportUsers (e_os e) (e_codec e) [path]) r2 else finish (True, r2))"

definition menu_export_bundle :: "'k env \<Rightarrow> string list \<Rightarrow> 'k choice" where
  "menu_export_bundle e ls =
     (case readDefault ''/root/wgmgr-migration-bundle.zip'' ls of
        (path, r) \<Rightarrow> stay (cmdExportBundle (e_os e) (e_codec e) [path]) r)"

definition menu_import_bundle :: "'k env \<Rightarrow> string list \<Rightarrow> 'k choice" where
  "menu_import_bundle e ls =
     (let (path, r1) = readLine ls; (endpoint, r2) = readLine r1; (ok, r3) = confirm r2 in
      if path = [] then finish (True, r1)
      else if ok
      then stay (cmdImportBundle (e_os e) (e_codec e) (path # (if endpoint \<noteq> [] then [''--endpoint'', endpoint] else []))) r3
      else finish (True, r3))"

definition uninstall_choice :: "string \<Rightarrow> string list option" where
  "uninstall_choice c =
     map_of [(''1'', []), (''2'', [''--purge-data'']), (''3'', [''--purge-openvpn'']), (''4'', [''--purge-wireguard'']),
       (''5'', [''--purge-data'', ''--purge-openvpn'', ''--purge-wireguard''])] c"

definition cmdMenuUninstall :: "'k env \<Rightarrow> string list \<Rightarrow> ('k world, unit) prog" where
  "cmdMenuUninstall e ls =
     (let (c, r1) = readLine ls; (word, r2) = readLine r1 in
      if c = ''0'' \<or> c = [] \<or> word \<noteq> ''UNINSTALL'' then finish ()
      else case uninstall_choice c of
             None \<Rightarrow> finish ()
           | Some fl \<Rightarrow> cmdUninstall (e_os e) None (''--yes'' # fl))"

text \<open>The operator is asked only where the command without an answer would refuse.\<close>

definition menu_expand :: "'k env \<Rightarrow> string list \<Rightarrow> 'k choice" where
  "menu_expand e ls w =
     (let (plen, r1) = readDefault ''16'' ls; args = [''--prefix'', plen]; (ok, r2) = confirm r1 in
      case expandSubnet (e_os e) None args w of
        (r, w') \<Rightarrow>
          if r = Inl ''expand-subnet requires --yes when stdin is not interactive''
          then caught (expandSubnet (e_os e) (Some ok) args) r2 w
          else (Inr (True, r1), w'))"

definition menu_step :: "'k env \<Rightarrow> string list \<Rightarrow> 'k choice" where
  "menu_step e ls =
     (let (c, r) = readLine ls; os = e_os e in
      if c = ''1'' then stay (cmdStatus os) r
      else if c = ''2'' then stay (cmdRestart os [''wgmgr'']) r
      else if c = ''3'' then stay (cmdRestart os [''wireguard'']) r
      else if c = ''4'' then stay (cmdRestart os [''openvpn'']) r
      else if c = ''5'' then stay (cmdRestart os [''vpn'']) r
      else if c = ''6'' then menu_login e r
      else if c = ''7'' then menu_path e r
      else if c = ''8'' then stay cmdList r
      else if c = ''9'' then menu_add e r
      else if c = ''10'' then menu_remove e r
      else if c = ''11'' then menu_reinstall e r
      else if c = ''12'' then menu_export e r
      else if c = ''13'' then menu_import e r
      else if c = ''14'' then menu_export_bundle e r
      else if c = ''15'' then menu_import_bundle e r
      else if c = ''16'' then and_then (cmdMenuUninstall e r) (\<lambda>_. finish (False, []))
      else if c = ''17'' then menu_expand e r
      else if c \<in> {''0'', ''q'', ''quit'', ''exit''} then finish (False, r)
      else finish (True, r))"

text \<open>The menu may never return: then there is no result.\<close>

partial_function (option) cmdMenu :: "'k env \<Rightarrow> string list \<Rightarrow> 'k world \<Rightarrow> ((string + unit) \<times> 'k world) option" where
  "cmdMenu e ls w =
     (case menu_step e ls w of
        (Inl msg, w') \<Rightarrow> Some (Inl msg, w')
      | (Inr (again, r), w') \<Rightarrow> if again then cmdMenu e r w' else Some (Inr (), w'))"

section \<open>What the menu does\<close>

lemma menu_step_at_end: "menu_step e [] w = (Inr (True, []), w)"
  by (simp add: menu_step_def readLine_def finish_def)

lemma cmdMenu_at_end:
  assumes "cmdMenu e ls w = Some r"
  shows "ls \<noteq> []"
proof (rule cmdMenu.raw_induct [where P = "\<lambda>e ls w r. ls \<noteq> []", OF _ assms])
  fix menu e ls w r
  assume "\<And>e ls w r. menu e ls w = Some r \<Longrightarrow> ls \<noteq> []"
    and "(case menu_step e ls w of (Inl msg, w') \<Rightarrow> Some (Inl msg, w')
      | (Inr (again, r), w') \<Rightarrow> if again then menu e r w' else Some (Inr (), w')) = Some r"
  then show "ls \<noteq> []" by (cases "ls = []") (simp add: menu_step_at_end, blast, simp)
qed

definition menu_choices :: "string list" where
  "menu_choices = map nat_str [0..<18] @ [''q'', ''quit'', ''exit'']"

lemma menu_step_other: "trim_space x \<notin> set menu_choices \<Longrightarrow> menu_step e (x # ls) w = (Inr (True, ls), w)"
proof -
  assume x: "trim_space x \<notin> set menu_choices"
  have c: "menu_choices = [''0'', ''1'', ''2'', ''3'', ''4'', ''5'', ''6'', ''7'', ''8'', ''9'', ''10'', ''11'', ''12'',
      ''13'', ''14'', ''15'', ''16'', ''17'', ''q'', ''quit'', ''exit'']" by code_simp
  show ?thesis using x unfolding c by (simp add: menu_step_def readLine_def finish_def)
qed



end
