(* ===== verification/Service.thy ===== *)
theory Service
  imports Commands
begin

text \<open>
  The daemon: the panel's handlers for migrating and updating (api.go), the QR code (ui.go), the routes
  (\<^verbatim>\<open>startAPI\<close>) and the loop of \<^verbatim>\<open>cmdServe\<close> (enforce.go), and the rebuild of an old table (\<^verbatim>\<open>migratePeersRelaxWG\<close>).
  The mux of \<^verbatim>\<open>net/http\<close> is its documented behaviour: a \<^verbatim>\<open>GET\<close> pattern also serves \<^verbatim>\<open>HEAD\<close>, the most specific
  pattern wins, and a path known only under other methods is answered 405.  The path arrives as its decoded
  segments.  The page of the panel and the QR image are texts given by parameters.
\<close>

section \<open>Migrating through the panel\<close>

definition updateServer :: "'k os \<Rightarrow> bool \<Rightarrow> 'k handler" where
  "updateServer os have_run r s =
     (case startUpdateAsync os have_run (sys s) of
        (Some e, w) \<Rightarrow> (Inl (''start update: '' @ e), s\<lparr>sys := w\<rparr>)
      | (None, w) \<Rightarrow> (Inr (JsonReply 202 [(''ok'', JBool True),
          (''message'', JStr ''update started; service may restart shortly'')]), s\<lparr>sys := w\<rparr>))"

definition exportMigrationH :: "codec \<Rightarrow> 'k handler" where
  "exportMigrationH cd r s = (Inr (TextReply (encodeMigration cd (sys s))), s)"

definition exportMigrationBundleH :: "'k os \<Rightarrow> codec \<Rightarrow> 'k handler" where
  "exportMigrationBundleH os cd r s =
     (case encodeMigrationBundle os cd (acfg s) (sys s) of (b, w) \<Rightarrow> (Inr (TextReply b), s\<lparr>sys := w\<rparr>))"

text \<open>A file arrives as raw bytes, or the error of reading it; \<open>endpoint\<close> is the query's.\<close>

definition imported_reply :: "nat \<times> nat \<Rightarrow> response" where
  "imported_reply c = JsonReply 200 [(''ok'', JBool True), (''created'', jint (int (fst c))), (''updated'', jint (int (snd c)))]"

definition importMigrationH :: "'k os \<Rightarrow> codec \<Rightarrow> string + string \<Rightarrow> 'k handler" where
  "importMigrationH os cd upload r s =
     (case upload of
        Inl e \<Rightarrow> (Inl (''read import: '' @ e), s)
      | Inr data \<Rightarrow>
          and_then (in_sys (importMigration os cd (acfg s) data True)) (\<lambda>c. finish (imported_reply c)) s)"

definition importMigrationBundleH :: "'k os \<Rightarrow> codec \<Rightarrow> string + string \<Rightarrow> string \<Rightarrow> 'k handler" where
  "importMigrationBundleH os cd upload endpoint r s =
     (case upload of
        Inl e \<Rightarrow> (Inl (''read bundle: '' @ e), s)
      | Inr data \<Rightarrow>
          and_then (in_sys (importMigrationBundle os cd (acfg s) data endpoint True)) (\<lambda>c.
          and_then (locking (and_then (in_sys loadConfig) (\<lambda>cfg. modify (\<lambda>s. s\<lparr>acfg := cfg\<rparr>)))) (\<lambda>_.
          finish (imported_reply c))) s)"

definition qrPeer :: "(string \<Rightarrow> string + string) \<Rightarrow> 'k handler" where
  "qrPeer qr r =
     and_then (mustPeer r) (\<lambda>p s.
       if PrivateKey p = [] \<and> OvpnCert p \<noteq> []
       then (Inl (''QR is unavailable for OpenVPN-only users (the .ovpn is too large to encode) '' @ dash @
               '' use the Config button to download the .ovpn instead''), s)
       else if PrivateKey p = []
       then (Inl (''no stored config for '' @ quoted (Username p) @ '' '' @ dash @
               '' user has neither WireGuard nor OpenVPN credentials''), s)
       else and_then (in_sys (clientConfig (acfg s) p)) (\<lambda>c.
            case qr c of Inl e \<Rightarrow> die (''qr encode: '' @ e) | Inr png \<Rightarrow> finish (TextReply png)) s)"

section \<open>Routes\<close>

record 'k app =
  a_env :: "'k env"
  a_page :: string
  a_qr :: "string \<Rightarrow> string + string"
  a_run :: bool
  a_installed :: string
  a_latest :: "'k http_get"

record call =
  c_method :: string
  c_path :: "string list"
  c_req :: request
  c_upload :: "string + string"
  c_endpoint :: string

text \<open>The panel with the cache of the release check.\<close>

type_synonym 'k daemon = "'k panel \<times> versionCache"

text \<open>The guarded handlers by method and path; \<open>GET /version\<close>, which also reads the cache, is apart.\<close>

definition guarded :: "'k app \<Rightarrow> call \<Rightarrow> (string \<times> string list \<times> 'k handler) list" where
  "guarded a c =
     (let e = a_env a; os = e_os e; cd = e_codec e; u = pname (c_req c) in
      [(''POST'', [''change-password''], changePassword os (e_crypto e)),
       (''GET'', [''api-token''], getAPIToken),
       (''POST'', [''api-token'', ''regenerate''], regenAPIToken os),
       (''POST'', [''update''], updateServer os (a_run a)),
       (''GET'', [''migration'', ''export''], exportMigrationH cd),
       (''POST'', [''migration'', ''import''], importMigrationH os cd (c_upload c)),
       (''GET'', [''migration'', ''bundle''], exportMigrationBundleH os cd),
       (''POST'', [''migration'', ''bundle''], importMigrationBundleH os cd (c_upload c) (c_endpoint c)),
       (''GET'', [''peers'', u, ''qr''], qrPeer (a_qr a)),
       (''GET'', [''peers''], listPeers os (e_ip6 e) (e_addrs e)),
       (''POST'', [''peers''], createPeer os (e_pki e)),
       (''GET'', [''peers'', u], showPeer os),
       (''DELETE'', [''peers'', u], deletePeerH os),
       (''GET'', [''peers'', u, ''config''], getConfig os),
       (''POST'', [''peers'', u, ''recharge''], recharge os),
       (''POST'', [''peers'', u, ''renew''], renew os),
       (''POST'', [''peers'', u, ''quota''], setQuota os),
       (''POST'', [''peers'', u, ''enable''], enableH os),
       (''POST'', [''peers'', u, ''disable''], disableH os),
       (''POST'', [''sync''], syncH os),
       (''POST'', [''peers'', u, ''ovpn''], ovpnAddH os (e_pki e)),
       (''GET'', [''peers'', u, ''ovpn-config''], ovpnConfigH os),
       (''DELETE'', [''peers'', u, ''ovpn''], ovpnRemoveH os)])"

text \<open>The user's name is the second segment of a path below \<^verbatim>\<open>peers\<close>.\<close>

definition named :: "call \<Rightarrow> call" where
  "named c = c\<lparr>c_req := (c_req c)\<lparr>pname := (case c_path c of [_, u] \<Rightarrow> u | [_, u, _] \<Rightarrow> u | _ \<Rightarrow> [])\<rparr>\<rparr>"

definition serves :: "string \<Rightarrow> string \<Rightarrow> bool" where
  "serves m meth \<longleftrightarrow> meth = m \<or> (m = ''GET'' \<and> meth = ''HEAD'')"

definition status_reply :: "nat \<Rightarrow> response" where
  "status_reply n = JsonReply n []"

definition dispatch :: "'k app \<Rightarrow> call \<Rightarrow> 'k daemon \<Rightarrow> response option \<times> 'k daemon" where
  "dispatch a c0 d =
     (let c = named c0; r = c_req c; (s, vc) = d in
      case find (\<lambda>(m, p, h). serves m (c_method c) \<and> p = c_path c \<and> [] \<notin> set p) (guarded a c) of
        Some (_, _, h) \<Rightarrow> (case guard h r s of (resp, s') \<Rightarrow> (resp, (s', vc)))
      | None \<Rightarrow>
          if serves ''GET'' (c_method c) \<and> c_path c = [''version'']
          then (if locked s then (None, d)
                else if \<not> authOK (hdr r) (APIToken (acfg s)) then (Some (error_reply 401 ''unauthorized''), d)
                else (case versionH (a_installed a) (a_latest a) vc s of (resp, vc', s') \<Rightarrow> (Some resp, (s', vc'))))
          else if c_method c = ''POST'' \<and> c_path c = [''login'']
          then (case login (e_crypto (a_env a)) r s of (resp, s') \<Rightarrow> (Some resp, (s', vc)))
          else if serves ''GET'' (c_method c) \<and> c_path c = [''healthz''] then (Some (TextReply (''ok'' @ nl)), d)
          else if serves ''GET'' (c_method c)
          then (Some (TextReply (replace_first (a_page a) ''__WGMGR_BASE__'' (normBase (BasePath (acfg s))))), d)
          else (Some (status_reply 405), d))"

text \<open>Before it serves, \<^verbatim>\<open>startAPI\<close> makes the panel's certificate; the result says whether it serves at all.\<close>

definition start_panel :: "'k os \<Rightarrow> 'k pki \<Rightarrow> (string \<Rightarrow> bool) \<Rightarrow> ip4 list \<Rightarrow> config \<Rightarrow> ('k world, bool) prog" where
  "start_panel os pki is_ip6 addrs cfg =
     (if APIListen cfg = [] \<or> APIToken cfg = [] then finish False
      else and_then (ensureCert os pki is_ip6 addrs cfg) (\<lambda>_. finish True))"

text \<open>
  The configuration is the one read at the start.  The raw path is split and decoded by \<open>segs\<close>; the base path
  itself is redirected below it, and so are paths that are not clean, which are left out.
\<close>

definition startAPI ::
  "'k app \<Rightarrow> (string \<Rightarrow> string list) \<Rightarrow> config \<Rightarrow> string \<Rightarrow> call \<Rightarrow> 'k daemon \<Rightarrow> response option \<times> 'k daemon" where
  "startAPI a segs cfg path c d =
     (if APIListen cfg = [] \<or> APIToken cfg = [] then (None, d)
      else if normBase (BasePath cfg) \<noteq> [] \<and> path = normBase (BasePath cfg) then (Some (status_reply 301), d)
      else case mounted (normBase (BasePath cfg)) path of
             None \<Rightarrow> (Some (status_reply 404), d)
           | Some p \<Rightarrow> dispatch a (c\<lparr>c_path := segs p\<rparr>) d)"

section \<open>The loop\<close>

definition enforce_interval :: "config \<Rightarrow> int" where
  "enforce_interval cfg = (let i = i64 (IntervalS cfg * second) in if i \<le> 0 then 180 * second else i)"

text \<open>
  The passes of \<^verbatim>\<open>cmdServe\<close>, each followed by what happens while it sleeps: requests, traffic, commands.  The
  clock is then at least an interval later.
\<close>

fun serve :: "'k os \<Rightarrow> config \<Rightarrow> ('k world \<Rightarrow> 'k world) list \<Rightarrow> 'k world \<Rightarrow> 'k world" where
  "serve os cfg [] w = w"
| "serve os cfg (between # bs) w =
     serve os cfg bs (let w' = between (enforceTick os cfg w) in w'\<lparr>now := max (now w') (now w + enforce_interval cfg)\<rparr>)"

section \<open>An old table\<close>

text \<open>
  The rebuilt table has the rows of the old one; the counter is that of a fresh table into which they were
  inserted with their ids, the largest id.
\<close>

definition migratePeersRelaxWG :: "store \<Rightarrow> store" where
  "migratePeersRelaxWG st = st\<lparr>row_seq := foldr max (map ID (rows st)) 0\<rparr>"

end
