(* ===== verification/Access.thy ===== *)
theory Access
  imports Service
begin

text \<open>
  The routes as a whole: what a request without the token can do, and who learns the token.
\<close>

lemma guard_denied: "\<not> authOK (hdr r) (APIToken (acfg s)) \<Longrightarrow>
    guard h r s = (if locked s then None else Some (error_reply 401 ''unauthorized''), s)"
  by (simp add: guard_def)

lemma named_hdr [simp]: "hdr (c_req (named c)) = hdr (c_req c)"
  "rbody (c_req (named c)) = rbody (c_req c)" "c_path (named c) = c_path c" "c_method (named c) = c_method c"
  by (simp_all add: named_def)

lemma login_state: "snd (login cr r s) = s"
  by (simp add: login_def Let_def)

text \<open>The replies that need no token: none of them reads a user or the configuration's secrets.\<close>

definition public_reply :: "'k app \<Rightarrow> 'k panel \<Rightarrow> response \<Rightarrow> bool" where
  "public_reply a s x \<longleftrightarrow>
     x \<in> {error_reply 401 ''unauthorized'', error_reply 401 ''invalid username or password'', status_reply 405,
          TextReply (''ok'' @ nl), TextReply (replace_first (a_page a) ''__WGMGR_BASE__'' (normBase (BasePath (acfg s))))}"

definition knows_password :: "'k crypto \<Rightarrow> config \<Rightarrow> request \<Rightarrow> bool" where
  "knows_password cr cfg r \<longleftrightarrow>
     AdminPassHash cfg \<noteq> [] \<and> str_of (readJSON r ''username'') = or_default (AdminUser cfg) ''admin'' \<and>
     check_pass cr (AdminPassHash cfg) (str_of (readJSON r ''password''))"

lemma login_reply:
  "fst (login cr r s) =
     (if knows_password cr (acfg s) r then JsonReply 200 [(''token'', JStr (APIToken (acfg s)))]
      else error_reply 401 ''invalid username or password'')"
  by (simp add: login_def Let_def knows_password_def)

lemma knows_password_named: "knows_password cr cfg (c_req (named c)) \<longleftrightarrow> knows_password cr cfg (c_req c)"
  by (simp add: knows_password_def readJSON_def)

text \<open>
  C2. Without the token nothing happens and nothing is learnt.  Whatever the method, the path and the body, a
  request that does not carry the token leaves the database, the files, the configuration, the mutex and the
  cache as they are; it is answered by the page, the health text, or a refusal, or not at all while the mutex is
  held; only a login with the administrator's password is answered with the token.
\<close>

theorem no_token_no_effect:
  assumes "\<not> authOK (hdr (c_req c)) (APIToken (acfg s))"
  shows "snd (dispatch a c (s, vc)) = (s, vc) \<and>
    (\<forall>x. fst (dispatch a c (s, vc)) = Some x \<longrightarrow> \<not> public_reply a s x \<longrightarrow>
       knows_password (e_crypto (a_env a)) (acfg s) (c_req c) \<and> x = JsonReply 200 [(''token'', JStr (APIToken (acfg s)))])"
proof (cases "find (\<lambda>(m, p, h). serves m (c_method (named c)) \<and> p = c_path (named c) \<and> [] \<notin> set p) (guarded a (named c))")
  case (Some x)
  obtain m p h where x: "x = (m, p, h)" by (cases x)
  have "dispatch a c (s, vc) = (if locked s then None else Some (error_reply 401 ''unauthorized''), (s, vc))"
    using Some assms unfolding dispatch_def Let_def x by (simp add: guard_denied)
  then show ?thesis by (simp add: public_reply_def)
next
  case None
  show ?thesis
  proof (cases "\<not> (serves ''GET'' (c_method c) \<and> c_path c = [''version'']) \<and> c_method c = ''POST'' \<and> c_path c = [''login'']")
    case True
    obtain resp where "login (e_crypto (a_env a)) (c_req (named c)) s = (resp, s)" by (metis login_state prod.collapse)
    then have "dispatch a c (s, vc) = (Some resp, (s, vc))" and
      "resp = fst (login (e_crypto (a_env a)) (c_req (named c)) s)"
      using None True unfolding dispatch_def Let_def by simp_all
    then show ?thesis by (simp add: login_reply knows_password_named public_reply_def split: if_splits)
  next
    case False
    with None assms show ?thesis unfolding dispatch_def Let_def by (auto simp: public_reply_def)
  qed
qed

definition demo_crypto :: "'k crypto" where
  "demo_crypto = \<lparr>hash_pass = (\<lambda>p k. (Inr (''h'' @ p), k)), check_pass = (\<lambda>h p. h = ''h'' @ p)\<rparr>"

definition demo_env :: "unit env" where
  "demo_env = \<lparr>e_os = demo_os, e_pki = demo_pki, e_crypto = demo_crypto, e_codec = demo_codec,
     e_float = (\<lambda>s. if s = ''0'' then (Fin 0, True) else if s = ''2'' then (Fin 2, True) else (Fin 0, False)),
     e_ip6 = (\<lambda>s. False), e_addrs = [], e_readdir = Inr [], e_legacy = (\<lambda>f. []), e_confirm = None, e_uninstall = None\<rparr>"

definition demo_app :: "unit app" where
  "demo_app = \<lparr>a_env = demo_env, a_page = ''page'', a_qr = Inr, a_run = True, a_installed = ''v1.0.0'',
     a_latest = (\<lambda>k. (Inl ''offline'', k))\<rparr>"

definition delete_call :: "string \<Rightarrow> call" where
  "delete_call token = \<lparr>c_method = ''DELETE'', c_path = [''peers'', ''ann''],
     c_req = \<lparr>hdr = (\<lambda>h. if h = ''X-API-Token'' then token else []), pname = [], rbody = Inr Map.empty\<rparr>,
     c_upload = Inr [], c_endpoint = []\<rparr>"

definition guest_panel :: "store \<Rightarrow> unit panel" where
  "guest_panel st = \<lparr>sys = demo_world st, acfg = sample_config\<lparr>APIToken := ''secret''\<rparr>, locked = False\<rparr>"

lemma no_token_no_effect_witness:
  "\<forall>vc. snd (dispatch demo_app (delete_call ''guess'') (guest_panel sample_store, vc)) = (guest_panel sample_store, vc)"
proof -
  have "\<not> authOK (hdr (c_req (delete_call ''guess''))) (APIToken (acfg (guest_panel sample_store)))" by code_simp
  from no_token_no_effect [OF this] show ?thesis by blast
qed

end
