(* ===== verification/Operations.thy ===== *)
theory Operations
  imports Access
begin

text \<open>
  What the commands promise: adding a user from the command line and from the panel is the same operation,
  setting up OpenVPN again keeps every credential, and uninstalling keeps what was not selected; and what the
  menu's default does to a user meant never to expire.
\<close>

section \<open>Adding a user\<close>

lemma parseFlags_add:
  assumes "\<not> has_prefix u ''--''" "\<not> has_prefix q ''--''" "\<not> has_prefix d ''--''"
  shows "parseFlags [u, ''--quota-gb'', q, ''--days'', d] = ([u], [''quota-gb'' \<mapsto> q, ''days'' \<mapsto> d])"
proof -
  have "has_prefix ''--quota-gb'' ''--''" "has_prefix ''--days'' ''--''" "trim_prefix ''--quota-gb'' ''--'' = ''quota-gb''"
    "trim_prefix ''--days'' ''--'' = ''days''" "cut_at CHR ''='' ''quota-gb'' = None" "cut_at CHR ''='' ''days'' = None"
    by code_simp+
  with assms show ?thesis by (simp add: parseFlags_def)
qed

lemma cmdAdd_wg:
  assumes "conf w = Some cfg" "WGConf cfg \<noteq> []" "getPeer (db w) u = None"
    and "\<not> has_prefix u ''--''" "\<not> has_prefix q ''--''" "\<not> has_prefix d ''--''" "q \<noteq> []" "d \<noteq> []"
    and "pf q = (v, True)" "atoi d = Some n"
  shows "cmdAdd os pki pf [u, ''--quota-gb'', q, ''--days'', d] w =
    and_then (create_wg os cfg u (gbToBytes v) (format_rfc3339 (add_days (now w) n))) (\<lambda>_.
      and_then (must_get u) (\<lambda>p. and_then (clientConfig cfg p) (\<lambda>c. finish (c @ nl)))) w"
  using assms
  by (simp add: cmdAdd_def parseFlags_add loadConfig_def and_then_def add_quota_def add_expiry_def lift_sum_def
      flag_text_def flag_on_def add_wg_def)


definition add_request :: request where
  "add_request = \<lparr>hdr = (\<lambda>h. []), pname = [],
     rbody = Inr [''username'' \<mapsto> JStr ''eve'', ''quota_gb'' \<mapsto> JNum (Fin 2), ''days'' \<mapsto> JNum (Fin (of_int 30))]\<rparr>"


text \<open>Adding a user on the demonstration host by the menu's defaults leaves the user in the table.\<close>

lemma demo_menu_add:
  "\<exists>st. snd (menu_step demo_env [''9'', ''eve'', [], [], []] (demo_world empty_store)) = (demo_world empty_store)\<lparr>db := st\<rparr> \<and>
     st \<noteq> empty_store"
proof -
  let ?w = "demo_world empty_store"
  have u: "trim_space ''eve'' = ''eve''" "\<not> has_prefix ''eve'' ''--''" "\<not> has_prefix ''0'' ''--''"
    "e_float demo_env ''0'' = (Fin 0, True)" "trim_space ''9'' = ''9''" "to_lower ''wg'' = ''wg''" "trim_space [] = []" by code_simp+
  have "itoa 0 = ''0''" by code_simp
  then have z: "atoi ''0'' = Some 0" using atoi_itoa [of 0] by (simp add: in_i64_def)
  have g: "gbToBytes (Fin 0) = 0" "add_days t 0 = t" for t by (simp_all add: gbToBytes_def f64_to_int_def trunc_rat_def in_i64_def add_days_def)
  have c: "conf ?w = Some sample_config" "WGConf sample_config \<noteq> []" "getPeer (db ?w) ''eve'' = None"
    by (simp_all add: demo_world_def sample_config_def getPeer_def) (simp add: empty_store_def)
  obtain e st where m: "create_wg demo_os sample_config ''eve'' 0 (format_rfc3339 0) ?w = (Inl e, ?w\<lparr>db := st\<rparr>)" "st \<noteq> empty_store"
    using demo_create by blast
  have "cmdAdd demo_os demo_pki (e_float demo_env) [''eve'', ''--quota-gb'', ''0'', ''--days'', ''0''] ?w = (Inl e, ?w\<lparr>db := st\<rparr>)"
    using cmdAdd_wg [where pf = "e_float demo_env" and w = ?w and u = "''eve''" and os = demo_os and pki = demo_pki, OF c u(2,3,3) _ _ u(4) z] m
    by (simp add: g) (simp add: demo_world_def and_then_def)
  moreover have "e_os demo_env = demo_os" "e_pki demo_env = demo_pki" by (simp_all add: demo_env_def)
  ultimately have "snd (menu_step demo_env [''9'', ''eve'', [], [], []] ?w) = ?w\<lparr>db := st\<rparr>"
    by (simp add: menu_step_def menu_add_def readLine_def readDefault_def u stay_def and_then_def)
  then show ?thesis using m(2) by blast
qed

text \<open>
  C36. The menu's \<^verbatim>\<open>0\<close> for \<open>never expires\<close> expires at once.  Taking the defaults when adding a user passes
  \<^verbatim>\<open>--days 0\<close>, which is now and not never: the user is stored with the present as its expiry, and from the next
  second on every pass blocks it, though its quota is unlimited and it is enabled.
\<close>

theorem menu_default_expires_now:
  assumes cfg: "conf w = Some cfg" "WGConf cfg \<noteq> []" and u: "u \<noteq> []" "trim_space u = u" "\<not> has_prefix u ''--''"
    and new: "getPeer (db w) u = None" and inv: "store_inv (db w)" and y: "0 \<le> year_of (now w)" "year_of (now w) \<le> 9999"
    and pf: "e_float e ''0'' = (Fin 0, True)"
    and run: "menu_step e (''9'' # u # [] # [] # [] # ls) w = (r, w')" and made: "db w' \<noteq> db w"
  shows "\<exists>p. getPeer (db w') u = Some p \<and> Enabled p \<and> QuotaBytes p = 0 \<and> ExpiresAt p = format_rfc3339 (now w) \<and>
    (\<forall>t. now w < t \<longrightarrow> effectiveBlocked p t)"
proof -
  let ?make = "create_wg (e_os e) cfg u 0 (format_rfc3339 (now w))"
  have "itoa 0 = ''0''" by code_simp
  then have "atoi ''0'' = Some 0" using atoi_itoa [of 0] by (simp add: in_i64_def)
  moreover have "\<not> has_prefix ''0'' ''--''" "to_lower ''wg'' = ''wg''" "trim_space ''9'' = ''9''" "trim_space [] = []"
    by code_simp+
  ultimately have z: "\<not> has_prefix ''0'' ''--''" "atoi ''0'' = Some 0" "to_lower ''wg'' = ''wg''" "trim_space ''9'' = ''9''"
    "trim_space [] = []" by simp_all
  have g: "gbToBytes (Fin 0) = 0" "add_days t 0 = t" for t by (simp_all add: gbToBytes_def f64_to_int_def trunc_rat_def in_i64_def add_days_def)
  have "cmdAdd (e_os e) (e_pki e) (e_float e) [u, ''--quota-gb'', ''0'', ''--days'', ''0''] w =
      and_then ?make (\<lambda>_. and_then (must_get u) (\<lambda>p. and_then (clientConfig cfg p) (\<lambda>c. finish (c @ nl)))) w"
    using cmdAdd_wg [where pf = "e_float e", OF cfg new u(3) z(1) z(1) _ _ pf z(2)] by (simp add: g)
  then have "db w' = db (snd (?make w))"
    using run u by (auto simp: menu_step_def menu_add_def readLine_def readDefault_def Let_def z stay_def and_then_def must_get_def
        clientConfig_def parseParams_def finish_def split: prod.splits sum.splits option.splits)
  then obtain keys ip where i: "sql_insert (new_wg_row u keys ip 0 (format_rfc3339 (now w))) (db w) = Inr (db w')"
    using create_wg_steps [of "e_os e" cfg u 0 "format_rfc3339 (now w)" w, OF prod.collapse [symmetric]] made by auto
  define p where "p = new_wg_row u keys ip 0 (format_rfc3339 (now w))\<lparr>ID := row_seq (db w) + 1\<rparr>"
  have p: "Username p = u" "Enabled p" "QuotaBytes p = 0" "ExpiresAt p = format_rfc3339 (now w)"
    by (simp_all add: p_def new_wg_row_def default_row_def split: prod.split)
  have "getPeer (db w') u = Some p"
    using getPeer_insert [OF i, of u] by (simp add: p_def new_wg_row_def split: prod.splits)
  moreover have "effectiveBlocked p t" if "now w < t" for t
  proof -
    have "now w div second * second \<le> now w" by (simp add: second_def minus_mod_eq_div_mult [symmetric])
    then have "now w div second * second < t" using that by linarith
    moreover have "format_rfc3339 (now w) \<noteq> []" using parse_format_rfc3339 [OF y] by (auto simp: parse_rfc3339_def parse_date_def)
    ultimately show ?thesis by (simp add: effectiveBlocked_def p parse_format_rfc3339 [OF y])
  qed
  ultimately show ?thesis using p by blast
qed

lemma menu_default_expires_now_witness:
  "\<exists>r w' p. menu_step demo_env [''9'', ''eve'', [], [], []] (demo_world empty_store) = (r, w') \<and>
     getPeer (db w') ''eve'' = Some p \<and> effectiveBlocked p second"
proof -
  let ?w = "demo_world empty_store"
  obtain r w' where run: "menu_step demo_env [''9'', ''eve'', [], [], []] ?w = (r, w')" by fastforce
  have u: "trim_space ''eve'' = ''eve''" "\<not> has_prefix ''eve'' ''--''" "e_float demo_env ''0'' = (Fin 0, True)" by code_simp+
  have c: "conf ?w = Some sample_config" "WGConf sample_config \<noteq> []" "getPeer (db ?w) ''eve'' = None" "store_inv (db ?w)"
    by (simp_all add: demo_world_def sample_config_def getPeer_def) (simp add: empty_store_def)
  have y: "0 \<le> year_of (now ?w)" "year_of (now ?w) \<le> 9999" by (simp add: demo_world_def, code_simp)+
  have "db w' \<noteq> db ?w" using run demo_menu_add by (auto simp: demo_world_def)
  from menu_default_expires_now [OF c(1,2) _ u(1,2) c(3,4) y u(3) run this] obtain p where
    "getPeer (db w') ''eve'' = Some p" "\<forall>t. now ?w < t \<longrightarrow> effectiveBlocked p t" by blast
  then show ?thesis using run by (auto simp: demo_world_def second_def)
qed

section \<open>Setting up OpenVPN again\<close>

definition pki_files :: "string list" where
  "pki_files = [''ca.crt'', ''ca.key'', ''server.crt'', ''server.key'', ''tc.key'']"

lemma restart_active_files: "files (restart_active os w) = files w" "db (restart_active os w) = db w"
  by (auto simp: restart_active_def activeOpenvpnUnit_def restart_def run_def exec_in_def split: prod.split if_splits)

lemma setup_existing:
  assumes ex: "\<forall>f\<in>set pki_files. fileExists (path_join (OvpnDir cfg) f) w" and run: "setup_ovpn os pki cfg w = (r, w')"
  shows "db w' = db w" and "path \<noteq> path_join (OvpnDir cfg) ''server.conf'' \<Longrightarrow> files w' path = files w path"
proof -
  let ?tail = "and_then (lift_sum (ovpnServerConf cfg)) (\<lambda>t.
     and_then (writeFileMode os (path_join (OvpnDir cfg) ''server.conf'') t) (\<lambda>_.
     and_then (saveConfig os cfg) (\<lambda>_. modify (restart_active os))))"
  obtain rc wc where ca: "ovpnEnsureCA os pki (OvpnDir cfg) w = (rc, wc)" by fastforce
  have wc: "wc = w" using ex ensureCA_existing [OF _ _ ca] by (simp add: pki_files_def)
  have "ensure_server_cert os pki cfg c w = (Inr (), w)" "ensure_tls_crypt os cfg w = (Inr (), w)" for c
    using ex by (simp_all add: ensure_server_cert_def ensure_tls_crypt_def pki_files_def)
  then have "(\<exists>e. (r, w') = (Inl e, w)) \<or> ?tail w = (r, w')"
    using run ca wc by (cases rc) (auto simp: setup_ovpn_def and_then_def)
  moreover have "db w' = db w \<and> (path \<noteq> path_join (OvpnDir cfg) ''server.conf'' \<longrightarrow> files w' path = files w path)"
    if "?tail w = (r, w')" for path
    using that by (auto simp: and_then_def lift_sum_def writeFileMode_def or_die_def write_file_def saveConfig_def modify_def
        restart_active_files split: sum.splits option.splits)
  ultimately show "db w' = db w" and "path \<noteq> path_join (OvpnDir cfg) ''server.conf'' \<Longrightarrow> files w' path = files w path" by auto
qed


definition ready_world :: "unit world" where
  "ready_world = (demo_world sample_store)\<lparr>conf := Some identity_config,
     files := (\<lambda>p. if p \<in> path_join ''/etc/openvpn'' ` set pki_files then Some \<lparr>content = ''PEM'', mtime = 0\<rparr> else None)\<rparr>"


section \<open>Uninstalling\<close>

lemma removePath_other: "\<not> below d path \<Longrightarrow> files (removePath os d w) path = files w path"
  "\<not> below d ''/etc/wgmgr/config.json'' \<Longrightarrow> conf (removePath os d w) = conf w"
  "\<not> below d ''/var/lib/wgmgr/wgmgr.db'' \<Longrightarrow> db (removePath os d w) = db w"
  by (simp_all add: removePath_def split: option.split)

lemma fold_removePath_other:
  "\<forall>d\<in>set ds. \<not> below d path \<Longrightarrow> files (fold (removePath os) ds w) path = files w path"
  "\<forall>d\<in>set ds. \<not> below d ''/etc/wgmgr/config.json'' \<Longrightarrow> conf (fold (removePath os) ds w) = conf w"
  "\<forall>d\<in>set ds. \<not> below d ''/var/lib/wgmgr/wgmgr.db'' \<Longrightarrow> db (fold (removePath os) ds w) = db w"
  by (induction ds arbitrary: w) (simp_all add: removePath_other)

lemma fold_commands_frame [simp]:
  "files (fold (\<lambda>(c, as). runq os c as) cs w) = files w" "conf (fold (\<lambda>(c, as). runq os c as) cs w) = conf w"
  "db (fold (\<lambda>(c, as). runq os c as) cs w) = db w"
  by (induction cs arbitrary: w) auto

lemma below_cases:
  assumes "below d p"
  obtains r where "p = d @ r" "r = [] \<or> hd r = CHR ''/''"
  using assms by (auto simp: below_def has_prefix_iff)

lemma uninstall_files:
  assumes "\<forall>d\<in>set (''/usr/local/bin/wgmgr'' # uninstall_paths pg). \<not> below d path"
  shows "files (uninstall os cfg pg w) path = files w path"
  using assms by (simp add: uninstall_def removePath_other fold_removePath_other)

text \<open>
  Uninstalling keeps what was not selected.  Without \<^verbatim>\<open>--purge-data\<close> the configuration and the database stay;
  without the flags for OpenVPN or WireGuard every file below its directory stays: only the service and the
  binary go.
\<close>

theorem uninstall_keeps_unselected:
  assumes run: "cmdUninstall os answers args w = (r, w')" and yes: "flag_on (snd (parseFlags args)) ''yes''"
    and pg: "pg = purge_flags (snd (parseFlags args))"
  shows "(\<not> purgeData pg \<longrightarrow> conf w' = conf w \<and> db w' = db w) \<and>
    (\<not> purgeOpenVPN pg \<longrightarrow> (\<forall>path. below ''/etc/openvpn'' path \<longrightarrow> files w' path = files w path)) \<and>
    (\<not> purgeWireGuard pg \<longrightarrow> (\<forall>path. below ''/etc/wireguard'' path \<longrightarrow> files w' path = files w path))"
proof -
  obtain cfg where w': "w' = uninstall os cfg pg w"
    using run yes by (auto simp: cmdUninstall_def Let_def pg)
  have data: "\<forall>d\<in>set (''/usr/local/bin/wgmgr'' # uninstall_paths pg). \<not> below d p"
    if "\<not> purgeData pg" "p = ''/etc/wgmgr/config.json'' \<or> p = ''/var/lib/wgmgr/wgmgr.db''" for p
    using that by (auto simp: uninstall_paths_def ovpn_paths_def below_def has_prefix_def)
  have "conf w' = conf w \<and> db w' = db w" if "\<not> purgeData pg"
    using data [OF that] by (simp add: w' uninstall_def removePath_other fold_removePath_other)
  moreover have "files w' path = files w path" if "\<not> purgeOpenVPN pg" "below ''/etc/openvpn'' path" for path
  proof -
    from that(2) obtain q where "path = ''/etc/openvpn'' @ q" "q = [] \<or> hd q = CHR ''/''" by (rule below_cases)
    then have "\<forall>d\<in>set (''/usr/local/bin/wgmgr'' # uninstall_paths pg). \<not> below d path"
      using that(1) by (auto simp: uninstall_paths_def below_def has_prefix_def)
    then show ?thesis unfolding w' by (rule uninstall_files)
  qed
  moreover have "files w' path = files w path" if "\<not> purgeWireGuard pg" "below ''/etc/wireguard'' path" for path
  proof -
    from that(2) obtain q where "path = ''/etc/wireguard'' @ q" "q = [] \<or> hd q = CHR ''/''" by (rule below_cases)
    then have "\<forall>d\<in>set (''/usr/local/bin/wgmgr'' # uninstall_paths pg). \<not> below d path"
      using that(1) by (auto simp: uninstall_paths_def ovpn_paths_def below_def has_prefix_def)
    then show ?thesis unfolding w' by (rule uninstall_files)
  qed
  ultimately show ?thesis by blast
qed

lemma uninstall_keeps_unselected_witness:
  "db (snd (cmdUninstall demo_os None [''--yes''] (demo_world sample_store))) = sample_store"
proof -
  have "has_prefix ''--yes'' ''--''" "trim_prefix ''--yes'' ''--'' = ''yes''" "cut_at CHR ''='' ''yes'' = None" by code_simp+
  then have p: "parseFlags [''--yes''] = ([], [''yes'' \<mapsto> ''true''])" by (simp add: parseFlags_def)
  obtain r w' where run: "cmdUninstall demo_os None [''--yes''] (demo_world sample_store) = (r, w')" by fastforce
  have "flag_on (snd (parseFlags [''--yes''])) ''yes''" by (simp add: p flag_on_def)
  from uninstall_keeps_unselected [OF run this refl]
  have "\<not> purgeData (purge_flags (snd (parseFlags [''--yes'']))) \<longrightarrow> db w' = db (demo_world sample_store)" by blast
  moreover have "\<not> purgeData (purge_flags (snd (parseFlags [''--yes''])))" by (simp add: p purge_flags_def flag_on_def Let_def)
  ultimately show ?thesis using run by (simp add: demo_world_def)
qed

end
