(* ===== verification/Profiles.thy ===== *)
theory Profiles
  imports Ranges Service
begin

text \<open>
  What a user is handed: the profile of a new OpenVPN user holds a client certificate for that user alone,
  issued by the authority the profile and the server trust; and what becomes of all profiles when the
  authority's key is lost.
\<close>

section \<open>Lemmas\<close>

lemma ovpn_paths_differ:
  assumes "clean_dir (OvpnDir cfg)" "plain_name u" "plain_name f" "f \<in> {''ca.crt'', ''ca.key'', ''tc.key''}"
  shows "ccd_path cfg u \<noteq> path_join (OvpnDir cfg) f"
  using assms by (auto simp: plain_ccd_path path_join_plain)

lemma pki_names: "plain_name ''ca.crt''" "plain_name ''ca.key''" "plain_name ''tc.key''" "plain_name ''server.conf''"
  by (simp_all add: plain_name_def)

lemma leaf_valid: "NotBefore (leaf_template n cn server t) < t \<and> t < NotAfter (leaf_template n cn server t)"
  using add_years_later [of 10 t] by (simp add: leaf_template_def hour_def second_def day_secs_def)

text \<open>A client certificate for one name, from the authority \<open>ca\<close>, in force at \<open>t\<close>.\<close>

definition client_cert :: "'k pki \<Rightarrow> string \<Rightarrow> string \<Rightarrow> int \<Rightarrow> string \<Rightarrow> string \<Rightarrow> bool" where
  "client_cert pki ca u t crt key \<longleftrightarrow>
     (\<exists>tm k caKey der kd s s'. sign pki tm (Some ca) k caKey s = (Inr der, s') \<and> marshal_ec pki k = Inr kd \<and>
        crt = pemBlock ''CERTIFICATE'' der \<and> key = pemBlock ''EC PRIVATE KEY'' kd \<and> CommonName tm = u \<and>
        ExtKeyUsage tm = [ClientAuth] \<and> \<not> IsCA tm \<and> NotBefore tm < t \<and> t < NotAfter tm)"

lemma attach_frame:
  assumes 2: "ovpnIssueCert os pki ca (Username p) False w1 = (Inr crt, w2)"
    and 3: "writeFileMode os (ccd_path cfg (Username p)) t w2 = (Inr (), w3)"
    and 4: "update_or_die msg i f w3 = (Inr (), w')"
  shows "path \<noteq> ccd_path cfg (Username p) \<Longrightarrow> files w' path = files w1 path"
proof -
  have "w2 = w1\<lparr>kern := kern w2\<rparr>" by (rule ovpnIssueCert_Inr) (use 2 in \<open>auto simp: prod_eq_iff\<close>)
  from arg_cong [OF this, of files] have "files w2 = files w1" by simp
  then show "path \<noteq> ccd_path cfg (Username p) \<Longrightarrow> files w' path = files w1 path"
    using 4 writeFileMode_Inr [OF 3] by (auto simp: update_or_die_def split: sum.splits)
qed

lemma attach_certificate:
  assumes at: "ovpnAttach os pki cfg p w = (Inr ip, w')" and d: "clean_dir (OvpnDir cfg)" and u: "plain_name (Username p)"
  obtains ca t der crt where "file_text w' (path_join (OvpnDir cfg) ''ca.crt'') = Some t" "pem_decode pki t = Some der"
    "parse_cert pki der = Inr ca" "client_cert pki ca (Username p) (now w) (fst crt) (snd crt)"
    "sql_update (ID p) (set_ovpn (Username p) ip crt) (db w) = Inr (db w')"
    "file_text w' (path_join (OvpnDir cfg) ''tc.key'') = file_text w (path_join (OvpnDir cfg) ''tc.key'')"
proof -
  let ?crt = "path_join (OvpnDir cfg) ''ca.crt''" and ?tc = "path_join (OvpnDir cfg) ''tc.key''"
  from at obtain ca crt mask w1 w2 w3 where 1: "ovpnEnsureCA os pki (OvpnDir cfg) w = (Inr ca, w1)"
    and 2: "ovpnIssueCert os pki ca (Username p) False w1 = (Inr crt, w2)"
    and 3: "writeFileMode os (ccd_path cfg (Username p)) (''ifconfig-push '' @ ip @ '' '' @ mask @ nl) w2 = (Inr (), w3)"
    and 4: "update_or_die ''ovpn attach: '' (ID p) (set_ovpn (Username p) ip crt) w3 = (Inr (), w')"
    by (rule ovpnAttach_Inr)
  note ca = ovpnEnsureCA_Inr [of os pki "OvpnDir cfg" w "fst ca" "snd ca" w1, simplified, OF 1]
  obtain n k kd der s s' where sg: "sign pki (leaf_template n (Username p) False (now w)) (Some (fst ca)) k (snd ca) s = (Inr der, s')"
    "marshal_ec pki k = Inr kd" "fst crt = pemBlock ''CERTIFICATE'' der" "snd crt = pemBlock ''EC PRIVATE KEY'' kd"
    "w2 = w1\<lparr>kern := kern w2\<rparr>"
    using ovpnIssueCert_Inr [of os pki ca "Username p" False w1 "fst crt" "snd crt" w2] 2 ca(2) by (metis prod.collapse)
  have cl: "client_cert pki (fst ca) (Username p) (now w) (fst crt) (snd crt)"
    unfolding client_cert_def using sg(1-4) leaf_valid [of n "Username p" False "now w"]
    by (intro exI conjI) (assumption | simp add: leaf_template_def)+
  from attach_frame [OF 2 3 4] have f: "files w' path = files w1 path" if "path \<noteq> ccd_path cfg (Username p)" for path
    using that by blast
  have "db w3 = db w"
    using writeFileMode_Inr [OF 3] keeps_dbD [OF keeps_db_issuing(1) 1] keeps_dbD [OF keeps_db_issuing(2) 2] by simp
  then have up: "sql_update (ID p) (set_ovpn (Username p) ip crt) (db w) = Inr (db w')"
    using 4 by (auto simp: update_or_die_def split: sum.splits)
  have "?tc \<noteq> ?crt" "?tc \<noteq> path_join (OvpnDir cfg) ''ca.key''"
    using d by (simp_all add: path_join_plain_inj pki_names)
  then have tc: "files w1 ?tc = files w ?tc" by (rule ca(3))
  have "?crt \<noteq> ccd_path cfg (Username p)" "?tc \<noteq> ccd_path cfg (Username p)"
    using ovpn_paths_differ [OF d u pki_names(1)] ovpn_paths_differ [OF d u pki_names(3)] by auto
  with ca(1) cl up f tc show thesis by (auto simp: file_text_def intro: that)
qed

section \<open>Properties\<close>



text \<open>
  An authority whose key is lost is replaced silently.  When \<^verbatim>\<open>ca.key\<close> is missing and a user is attached,
  \<^verbatim>\<open>ca.crt\<close> is overwritten with a certificate that a fresh key signed for itself, while the server's certificate
  and those of all other users stay the ones the old authority signed.
\<close>

theorem lost_key_replaces_authority:
  assumes d: "clean_dir (OvpnDir cfg)" and u: "plain_name (Username p)"
    and lost: "files w (path_join (OvpnDir cfg) ''ca.key'') = None"
    and run: "ovpnAttach os pki cfg p w = (Inr ip, w')"
  shows "(\<exists>n key der s s'. sign pki (ca_template n (now w)) None key key s = (Inr der, s') \<and>
      file_text w' (path_join (OvpnDir cfg) ''ca.crt'') = Some (pemBlock ''CERTIFICATE'' der)) \<and>
    files w' (path_join (OvpnDir cfg) ''server.crt'') = files w (path_join (OvpnDir cfg) ''server.crt'')"
proof -
  let ?crt = "path_join (OvpnDir cfg) ''ca.crt''" and ?srv = "path_join (OvpnDir cfg) ''server.crt''"
  from run obtain ca crt mask w1 w2 w3 where 1: "ovpnEnsureCA os pki (OvpnDir cfg) w = (Inr ca, w1)"
    and 2: "ovpnIssueCert os pki ca (Username p) False w1 = (Inr crt, w2)"
    and 3: "writeFileMode os (ccd_path cfg (Username p)) (''ifconfig-push '' @ ip @ '' '' @ mask @ nl) w2 = (Inr (), w3)"
    and 4: "update_or_die ''ovpn attach: '' (ID p) (set_ovpn (Username p) ip crt) w3 = (Inr (), w')"
    by (rule ovpnAttach_Inr)
  from attach_frame [OF 2 3 4] have f: "files w' path = files w1 path" if "path \<noteq> ccd_path cfg (Username p)" for path
    using that by blast
  have new: "\<exists>n key der s s'. sign pki (ca_template n (now w)) None key key s = (Inr der, s') \<and>
      file_text w1 ?crt = Some (pemBlock ''CERTIFICATE'' der)"
    by (rule ovpnEnsureCA_minted [of os pki "OvpnDir cfg" w "fst ca" "snd ca"]) (simp_all add: 1 lost fileExists_def)
  have "?srv \<noteq> ?crt" "?srv \<noteq> path_join (OvpnDir cfg) ''ca.key''" "?srv \<noteq> ccd_path cfg (Username p)" "?crt \<noteq> ccd_path cfg (Username p)"
    using d u by (simp_all add: path_join_plain_inj plain_ccd_path path_join_plain plain_name_def)
  then show ?thesis
    using new f ovpnEnsureCA_Inr(3) [of os pki "OvpnDir cfg" w "fst ca" "snd ca" w1 ?srv] 1 by (simp add: file_text_def)
qed

text \<open>
  The panel's certificate is made once.  A client that pinned it keeps trusting the panel: after a start that
  made or found the certificate, a later start finds both files and writes nothing, whatever happened in
  between to anything but them; and a start never touches another file.
\<close>

theorem panel_certificate_stable:
  assumes run: "start_panel os pki is_ip6 addrs cfg w = (Inr b, w')"
    and later: "files v (TLSCert cfg) = files w' (TLSCert cfg)" "files v (TLSKey cfg) = files w' (TLSKey cfg)"
  shows "start_panel os pki is_ip6 addrs cfg v = (Inr b, v) \<and>
    (\<forall>path. path \<noteq> TLSCert cfg \<longrightarrow> path \<noteq> TLSKey cfg \<longrightarrow> files w' path = files w path)"
proof -
  show ?thesis
  proof (cases "APIListen cfg = [] \<or> APIToken cfg = []")
    case True
    with run show ?thesis by (auto simp: start_panel_def)
  next
    case False
    with run have c: "ensureCert os pki is_ip6 addrs cfg w = (Inr (), w')" and b: "b = True"
      by (auto simp: start_panel_def and_then_Inr_iff)
    note made = ensureCert_Inr [OF c]
    then have "ensureCert os pki is_ip6 addrs cfg v = (Inr (), v)"
      using later by (simp add: ensureCert_def fileExists_def)
    then have "start_panel os pki is_ip6 addrs cfg v = (Inr b, v)"
      using False by (simp add: start_panel_def b)
    with made show ?thesis by blast
  qed
qed

end
