(* ===== verification/Statements.thy ===== *)
theory Statements
  imports Service
begin

text \<open>
  What the whole program does to the table, seen through the statements of Store: \<open>moves tab s r\<close> says that the
  outcome \<open>r\<close> of a program run in \<open>s\<close> has a table that statements make from the one of \<open>s\<close>.  The rules follow the
  program's structure, so every operation is proved by unfolding it; they hold for the world and for the panel,
  whose table \<open>tab\<close> reads.
\<close>

section \<open>Rules\<close>

definition moves :: "('s \<Rightarrow> store) \<Rightarrow> 's \<Rightarrow> 'a \<times> 's \<Rightarrow> bool" where
  "moves tab s r \<longleftrightarrow> table_step\<^sup>*\<^sup>* (tab s) (tab (snd r))"

named_theorems moves_rules "programs that change the table by statements"
named_theorems moves_ops "operations that change the table by statements"

lemma moves_refl: "tab (snd r) = tab s \<Longrightarrow> moves tab s r"
  by (simp add: moves_def)

lemma moves_trans: "moves tab s (a, s') \<Longrightarrow> moves tab s' r \<Longrightarrow> moves tab s r"
  by (simp add: moves_def)

lemma moves_from: "moves tab s1 r \<Longrightarrow> tab s1 = tab s \<Longrightarrow> moves tab s r"
  by (simp add: moves_def)

lemma moves_step: "table_step\<^sup>*\<^sup>* (tab s) (tab s1) \<Longrightarrow> moves tab s1 r \<Longrightarrow> moves tab s r"
  by (simp add: moves_def)

lemma moves_Pair [moves_rules]: "table_step\<^sup>*\<^sup>* (tab s) (tab s') \<Longrightarrow> moves tab s (a, s')"
  by (simp add: moves_def)

lemma moves_basic [moves_rules]:
  "moves tab s (finish a s)" "moves tab s (die e s)" "moves tab s (gets g s)" "moves tab s (lift_sum x s)"
  by (simp_all add: moves_def)

lemma moves_modify [moves_rules]: "table_step\<^sup>*\<^sup>* (tab s) (tab (f s)) \<Longrightarrow> moves tab s (modify f s)"
  by (simp add: moves_def)

lemma moves_and_then [moves_rules]:
  "moves tab s (p s) \<Longrightarrow> (\<And>a s'. moves tab s' (f a s')) \<Longrightarrow> moves tab s (and_then p f s)"
  unfolding and_then_def moves_def by (auto split: prod.splits sum.splits intro: rtranclp_trans)

lemma moves_if [moves_rules]: "moves tab s q \<Longrightarrow> moves tab s r \<Longrightarrow> moves tab s (if b then q else r)"
  by simp

lemma moves_if_app [moves_rules]: "(b \<Longrightarrow> moves tab s (p s)) \<Longrightarrow> (\<not> b \<Longrightarrow> moves tab s (q s)) \<Longrightarrow> moves tab s ((if b then p else q) s)"
  by simp

lemma moves_option [moves_rules]:
  "moves tab s q \<Longrightarrow> (\<And>a. x = Some a \<Longrightarrow> moves tab s (r a)) \<Longrightarrow> moves tab s (case x of None \<Rightarrow> q | Some a \<Rightarrow> r a)"
  by (cases x) auto

lemma moves_option_app [moves_rules]:
  "moves tab s (p s) \<Longrightarrow> (\<And>a. moves tab s (q a s)) \<Longrightarrow> moves tab s ((case x of None \<Rightarrow> p | Some a \<Rightarrow> q a) s)"
  by (cases x) auto

lemma moves_sum [moves_rules]:
  "(\<And>a. moves tab s (q a)) \<Longrightarrow> (\<And>a. x = Inr a \<Longrightarrow> moves tab s (r a)) \<Longrightarrow> moves tab s (case x of Inl a \<Rightarrow> q a | Inr a \<Rightarrow> r a)"
  by (cases x) auto

lemma moves_sum_app [moves_rules]:
  "(\<And>a. moves tab s (p a s)) \<Longrightarrow> (\<And>a. moves tab s (q a s)) \<Longrightarrow> moves tab s ((case x of Inl a \<Rightarrow> p a | Inr a \<Rightarrow> q a) s)"
  by (cases x) auto

lemma moves_bool [moves_rules]:
  "moves tab s q \<Longrightarrow> moves tab s r \<Longrightarrow> moves tab s (case b of True \<Rightarrow> q | False \<Rightarrow> r)"
  "moves tab s (p s) \<Longrightarrow> moves tab s (p' s) \<Longrightarrow> moves tab s ((case b of True \<Rightarrow> p | False \<Rightarrow> p') s)"
  by (cases b; simp)+

lemma moves_list [moves_rules]:
  "moves tab s q \<Longrightarrow> (\<And>a as. moves tab s (r a as)) \<Longrightarrow> moves tab s (case x of [] \<Rightarrow> q | a # as \<Rightarrow> r a as)"
  by (cases x) auto

lemma moves_list_app [moves_rules]:
  "moves tab s (p s) \<Longrightarrow> (\<And>a as. moves tab s (q a as s)) \<Longrightarrow> moves tab s ((case x of [] \<Rightarrow> p | a # as \<Rightarrow> q a as) s)"
  by (cases x) auto

text \<open>The outcome of one program is handed to the next.\<close>

lemma moves_case [moves_rules]:
  "moves tab s (f s) \<Longrightarrow> (\<And>a s'. moves tab s' (g a s')) \<Longrightarrow> moves tab s (case f s of (a, s') \<Rightarrow> g a s')"
  unfolding moves_def by (auto split: prod.split intro: rtranclp_trans)

lemma moves_prod [moves_rules]: "(\<And>a b. moves tab s (r a b)) \<Longrightarrow> moves tab s (case x of (a, b) \<Rightarrow> r a b)"
  by (cases x) auto

lemma moves_prod_app [moves_rules]:
  "(\<And>a b. moves tab s (p a b s)) \<Longrightarrow> moves tab s ((case x of (a, b) \<Rightarrow> p a b) s)"
  by (cases x) auto

lemma moves_keeps_db: "keeps_db p \<Longrightarrow> moves db w (p w)"
  by (simp add: keeps_db_def moves_def)

lemma moves_in_sys [moves_rules]: "moves db (sys s) (p (sys s)) \<Longrightarrow> moves (\<lambda>s. db (sys s)) s (in_sys p s)"
  by (auto simp: moves_def in_sys_def split: prod.split)

lemma update_ign_step:
  "(\<And>r. ID (f r) = ID r \<and> Username (f r) = Username r) \<Longrightarrow> table_step\<^sup>*\<^sup>* st (sql_update_ign i f st)"
  using stmt_update [of i f st] by (auto simp: sql_update_ign_def split: sum.split)

lemma update_step:
  "sql_update i f st = Inr st' \<Longrightarrow> (\<And>r. ID (f r) = ID r \<and> Username (f r) = Username r) \<Longrightarrow> table_step\<^sup>*\<^sup>* st st'"
  by (rule r_into_rtranclp, rule stmt_update)

lemma insert_step: "sql_insert p st = Inr st' \<Longrightarrow> table_step\<^sup>*\<^sup>* st st'"
  by (rule r_into_rtranclp, rule stmt_insert)

lemma delete_step: "table_step\<^sup>*\<^sup>* st (sql_delete i st)"
  unfolding sql_delete_def by (rule r_into_rtranclp, rule stmt_delete)

section \<open>The world\<close>

lemma moves_run [moves_ops]: "moves db w (run os c as w)" "moves db w (exec_in os c as i w)"
  by (simp_all add: moves_def exec_in_def split: prod.split)

lemma restart_db [simp]:
  "db (restart os u w) = db w" "db (restart_wg os cfg w) = db w"
  by (simp_all add: restart_def restart_wg_def)

lemma moves_ovpnDefaults [moves_ops]: "moves db w (ovpnDefaults os cfg w)"
  by (rule moves_refl) (metis ovpnDefaults_frame prod.collapse)

lemma moves_loading [moves_ops]:
  "moves db w (loadConfig w)" "moves db w (must_get u w)"
  "moves db w (mustRun os c as w)" "moves db w (renderConf os cfg force w)" "moves db w (genKeys os w)"
  "moves db w (interfaceHead path w)" "moves db w (writeFileMode os path t w)" "moves db w (ovpnEnsureCA os pki dir w)"
  "moves db w (ovpnIssueCert os pki ca cn server w)"
  by (auto simp: moves_def loadConfig_def must_get_def keeps_db_run [OF keeps_db_mustRun]
      keeps_db_run [OF keeps_db_renderConf] keeps_db_run [OF keeps_db_genKeys] keeps_db_run [OF keeps_db_interfaceHead]
      keeps_db_run [OF keeps_db_certs(8)] keeps_db_run [OF keeps_db_issuing(1)] keeps_db_run [OF keeps_db_issuing(2)]
      split: option.splits)

lemma moves_saveConfig [moves_ops]: "db w' = db w \<Longrightarrow> moves db w (saveConfig os cfg w')"
  by (simp add: moves_def saveConfig_def split: option.split)

lemma moves_statement [moves_ops]:
  "(\<And>r. ID (f r) = ID r \<and> Username (f r) = Username r) \<Longrightarrow> moves db w (update_or_die msg i f w)"
  "moves db w (insert_peer p w)"
  unfolding update_or_die_def insert_peer_def moves_def
  by (auto split: sum.split intro: stmt_update stmt_insert)

lemma moves_create_wg [moves_ops]: "moves db w (create_wg os cfg u quota expires w)"
  unfolding create_wg_def nextFreeIP_def by (intro moves_rules moves_ops) simp_all

lemma moves_ovpnAttach [moves_ops]: "moves db w (ovpnAttach os pki cfg p w)"
  unfolding ovpnAttach_def by (intro moves_rules moves_ops) (simp_all add: set_ovpn_def)

lemma moves_ovpnDetach [moves_ops]: "moves db w (ovpnDetach os cfg p w)"
  unfolding ovpnDetach_def by (intro moves_rules moves_ops) (simp_all add: clear_ovpn_def)

lemma moves_ovpnAttachNewUser [moves_ops]: "moves db w (ovpnAttachNewUser os pki cfg p w)"
  unfolding ovpnAttachNewUser_def cleanup_on_die_def by (intro moves_rules moves_ops) (simp_all add: delete_step)

lemma moves_create_ovpn [moves_ops]: "moves db w (create_ovpn os pki cfg u quota expires w)"
  unfolding create_ovpn_def by (intro moves_rules moves_ops) simp_all

lemma moves_deletePeer [moves_ops]: "moves db w (deletePeer os cfg u w)"
  unfolding deletePeer_def by (intro moves_rules moves_ops) (simp_all add: delete_step)

section \<open>Passes and recharges\<close>

lemma tick_peer_step: "table_step\<^sup>*\<^sup>* (db w) (db (tick_peer os cfg tr ov p w))"
proof -
  have 1: "table_step\<^sup>*\<^sup>* st (snd (tick_wg tr p st))" for st
    by (auto simp: tick_wg_def Let_def set_wg_usage_def split: option.split intro: update_ign_step)
  have 2: "table_step\<^sup>*\<^sup>* st (snd (tick_ovpn ov p st))" for st p
    by (auto simp: tick_ovpn_def Let_def set_ovpn_usage_def split: option.split intro: update_ign_step)
  have 3: "table_step\<^sup>*\<^sup>* st (sql_update_ign i (\<lambda>r. r\<lparr>Blocked := b\<rparr>) st)" for i b st
    by (rule update_ign_step) simp
  obtain p1 st1 p2 st2 where t: "tick_wg tr p (db w) = (p1, st1)" "tick_ovpn ov p1 st1 = (p2, st2)" by fastforce
  have "table_step\<^sup>*\<^sup>* (db w) st2" using 1 [of "db w"] 2 [of st1 p1] t by simp
  then show ?thesis using 3 [of st2 "ID p2"] by (auto simp: tick_peer_def t Let_def intro: rtranclp_trans)
qed

lemma enforceTick_step: "table_step\<^sup>*\<^sup>* (db w) (db (enforceTick os cfg w))"
proof -
  have f: "table_step\<^sup>*\<^sup>* (db w) (db (fold (tick_peer os cfg tr ov) ps w))" for tr ov ps and w
  proof (induction ps arbitrary: w)
    case (Cons p ps)
    from tick_peer_step Cons.IH show ?case by (simp, rule rtranclp_trans)
  qed simp
  obtain tr w2 where t: "wgTransfer os (Interface cfg) (ensureIPSet os cfg w) = (tr, w2)" by fastforce
  then have "db w2 = db w" using wgTransfer_frame(1) [OF t] by simp
  then show ?thesis using f [of w2] by (simp add: enforceTick_def t Let_def)
qed

lemma optional_update_step:
  assumes "(case x of None \<Rightarrow> Inr st | Some v \<Rightarrow> sql_update i (f v) st) = Inr st'"
    and "\<And>v r. ID (f v r) = ID r \<and> Username (f v r) = Username r"
  shows "table_step\<^sup>*\<^sup>* st st'"
  using assms(1) update_step [OF _ assms(2)] by (auto split: option.splits)

lemma recharge_tx_step:
  assumes "recharge_tx m rc i st = Inr st'"
  shows "table_step\<^sup>*\<^sup>* st st'"
proof -
  from assms obtain st1 st2 where
    1: "(case rc of None \<Rightarrow> Inr st | Some c \<Rightarrow> sql_update i (apply_reset c) st) = Inr st1" and
    2: "(case num_of (m ''set_gb'') of None \<Rightarrow> Inr st1
       | Some v \<Rightarrow> sql_update i (\<lambda>r. r\<lparr>QuotaBytes := gbToBytes v\<rparr>) st1) = Inr st2" and
    3: "(case num_of (m ''add_gb'') of None \<Rightarrow> Inr st2
       | Some v \<Rightarrow> sql_update i (\<lambda>r. r\<lparr>QuotaBytes := QuotaBytes r + gbToBytes v\<rparr>) st2) = Inr st'"
    unfolding recharge_tx_def by (auto split: sum.splits)
  have "table_step\<^sup>*\<^sup>* st st1" using 1 by (rule optional_update_step) (simp add: apply_reset_def)
  moreover have "table_step\<^sup>*\<^sup>* st1 st2" using 2 by (rule optional_update_step) simp
  moreover have "table_step\<^sup>*\<^sup>* st2 st'" using 3 by (rule optional_update_step) simp
  ultimately show ?thesis by (blast intro: rtranclp_trans)
qed

lemma moves_readResetCounters [moves_ops]: "moves db w (readResetCounters os cfg p w)"
  unfolding readResetCounters_def reset_wg_def by (intro moves_rules moves_ops) simp_all

lemma moves_rechargePeer [moves_ops]:
  "(\<And>w p. moves db w (snapshot cfg p w)) \<Longrightarrow> moves db w (rechargePeer cfg u m snapshot w)"
  unfolding rechargePeer_def by (intro moves_rules moves_ops) (auto dest: recharge_tx_step)

lemma moves_settings [moves_ops]: "moves db w (set_row f p w)"
  if "\<And>r. ID (f r) = ID r \<and> Username (f r) = Username r"
  unfolding set_row_def by (intro moves_rules) (simp add: update_ign_step that)

section \<open>Files, services and widening\<close>

lemma moves_or_die [moves_ops]: "db (snd (f w)) = db w \<Longrightarrow> moves db w (or_die msg f w)"
  by (auto simp: or_die_def moves_def split: prod.split option.split)

lemma moves_backup [moves_ops]: "moves db w (backupFile os path w)" "moves db w (syncOpenVPNServerUnitConfig os cfg w)"
  unfolding backupFile_def syncOpenVPNServerUnitConfig_def Let_def by (intro moves_rules moves_ops; simp)+

lemma serviceState_db: "serviceState os n w = (s, w') \<Longrightarrow> db w' = db w"
  by (auto simp: serviceState_def run_def exec_in_def split: prod.splits option.splits)

lemma first_unit_db: "first_unit os us w = (u, w') \<Longrightarrow> db w' = db w"
  by (induction us arbitrary: w)
     (auto simp: run_def exec_in_def dest: serviceState_db split: prod.splits option.splits if_splits)

lemma first_active_db: "first_active os us w = (u, w') \<Longrightarrow> db w' = db w"
  by (induction us arbitrary: w) (auto simp: run_def exec_in_def split: prod.splits if_splits)

lemma unit_db:
  "existingOpenVPNUnit os w = (u, w') \<Longrightarrow> db w' = db w" "activeOpenvpnUnit os w = (u, w') \<Longrightarrow> db w' = db w"
  unfolding existingOpenVPNUnit_def activeOpenvpnUnit_def by (rule first_unit_db first_active_db; assumption)+

lemma restart_ovpn_db [simp]: "db (restart_ovpn os w) = db w" "db (restart_active os w) = db w"
  by (auto simp: restart_ovpn_def restart_active_def split: prod.split dest: unit_db)

lemma reload_ovpn_db [simp]: "db (reload_ovpn os w) = db w"
  by (auto simp: reload_ovpn_def run_def exec_in_def split: prod.split option.split)

lemma moves_units [moves_ops]:
  "moves db w (serviceState os n w)" "moves db w (existingOpenVPNUnit os w)" "moves db w (activeOpenvpnUnit os w)"
  by (rule moves_refl, metis prod.collapse serviceState_db unit_db)+

lemma restart_if_active_db [simp]:
  "db (case serviceState os n w of (s, w') \<Rightarrow> if s = x then restart os u w' else w') = db w"
  by (auto split: prod.split dest: serviceState_db)

lemma moves_livePeersInDB [moves_ops]: "moves db w (livePeersInDB os iface w)"
  by (auto intro!: moves_refl simp: livePeersInDB_def split: prod.split dest: livePeers_frame)

lemma moves_hostNetEntries [moves_ops]: "moves db w (hostNetEntries os w)"
  unfolding hostNetEntries_def Let_def by (intro moves_rules moves_ops) simp_all

lemma widenFirewall_db [simp]: "db (widenFirewall os old new w) = db w"
proof -
  have r: "db (widen_rule os c w) = db w" for c and w
    by (auto simp: widen_rule_def run_def exec_in_def split: prod.split option.split)
  have f: "db (fold (widen_rule os) cs w) = db w" for cs and w
    by (induction cs arbitrary: w) (simp_all add: r)
  have t: "db (widen_table os old new tb w) = db w" for tb and w
    by (auto simp: widen_table_def f run_def exec_in_def split: prod.split option.split)
  show ?thesis by (auto simp: widenFirewall_def t run_def exec_in_def split: prod.split option.split)
qed

lemma moves_expandWireGuard [moves_ops]: "moves db w (expandWireGuard os cfg old new w)"
  unfolding expandWireGuard_def expanded_conf_def read_or_die_def swap_address_def Let_def
  by (intro moves_rules moves_ops) simp_all

lemma moves_rewrite_ccds [moves_ops]: "moves db w (rewrite_ccds os cfg t ps w)"
proof (induction ps arbitrary: w)
  case (Cons p ps)
  show ?case by (simp only: rewrite_ccds.simps, intro moves_rules moves_ops Cons.IH)
qed (simp add: moves_def)

lemma moves_expandOpenVPN [moves_ops]: "moves db w (expandOpenVPN os cfg old new w)"
  unfolding expandOpenVPN_def read_or_die_def Let_def
  by (intro moves_rules moves_ops) simp_all

lemma moves_plan [moves_ops]: "moves db w (buildExpandPlan cfg on plen entries w)"
  unfolding buildExpandPlan_def plan_wg_def Let_def by (intro moves_rules moves_ops) simp_all

lemma moves_decide_plan [moves_ops]: "moves db w (decide_plan os cfg m answer p w)"
  unfolding decide_plan_def run_plan_def Let_def by (intro moves_rules moves_ops) simp_all

lemma moves_expandSubnet [moves_ops]: "moves db w (expandSubnet os answer args w)"
  unfolding expandSubnet_def Let_def by (intro moves_rules moves_ops) simp_all

section \<open>Importing and exporting\<close>

lemma import_rows_statements: "import_rows st0 ms (st, c, u) = Inr (st', c', u') \<Longrightarrow> table_step\<^sup>*\<^sup>* st st'"
proof (induction ms arbitrary: st c u)
  case (Cons m ms)
  have k: "ID (set_migrated m r) = ID r \<and> Username (set_migrated m r) = Username r" for r
    by (simp add: set_migrated_def)
  from Cons show ?case
    by (auto split: if_splits option.splits sum.splits
        intro: rtranclp_trans [OF update_step [OF _ k]] rtranclp_trans [OF insert_step])
qed simp

lemma moves_write_ccds [moves_ops]: "moves db w (write_ccds os cfg ps w)"
proof (induction ps arbitrary: w)
  case (Cons p ps)
  show ?case by (simp only: write_ccds.simps, intro moves_rules moves_ops Cons.IH)
qed (simp add: moves_def)

lemma moves_applyMigrationState [moves_ops]: "moves db w (applyMigrationState os cfg w)"
  unfolding applyMigrationState_def by (intro moves_rules moves_ops) simp_all

lemma moves_importMigration [moves_ops]: "moves db w (importMigration os cd cfg data apply_it w)"
proof -
  have m: "moves db w (case import_rows (db w) ms (db w, 0, 0) of Inl e \<Rightarrow> (Inl e, w)
      | Inr (st, c, u) \<Rightarrow> and_then (if apply_it then applyMigrationState os cfg else finish ()) (\<lambda>_. finish (c, u)) (w\<lparr>db := st\<rparr>))"
    (is "moves db w ?r") for ms w
  proof (cases "import_rows (db w) ms (db w, 0, 0)")
    case (Inr r)
    obtain st c u where r: "r = (st, c, u)" by (cases r)
    have "table_step\<^sup>*\<^sup>* (db w) (db (w\<lparr>db := st\<rparr>))" using import_rows_statements Inr r by simp
    then show ?thesis unfolding Inr r sum.case prod.case by (rule moves_step) (intro moves_rules moves_ops)
  qed (simp add: moves_def)
  show ?thesis unfolding importMigration_def by (intro moves_and_then moves_basic m)
qed

lemma moves_restore_all [moves_ops]: "moves db w (restore_all os fs w)"
proof (induction os fs arbitrary: w rule: restore_all.induct)
  case (3 os path data fs)
  then show ?case by (simp only: restore_all.simps restoreBundleFile_def, intro moves_rules moves_ops) simp_all
qed (simp_all add: moves_def)

lemma moves_applyBundleConfig [moves_ops]: "moves db w (applyBundleConfig os m es d cfg w)"
  by (rule moves_refl) (metis applyBundleConfig_frame(2) prod.collapse)

lemma moves_importMigrationBundle [moves_ops]: "moves db w (importMigrationBundle os cd cfg data e ap w)"
  unfolding importMigrationBundle_def restoreMigrationBundleFiles_def apply_bundle_def Let_def
  by (intro moves_rules moves_ops) simp_all

lemma moves_encodeMigrationBundle [moves_ops]: "moves db w (encodeMigrationBundle os cd cfg w)"
  unfolding encodeMigrationBundle_def bundle_files_def Let_def by (intro moves_rules moves_ops) simp_all

lemma import_conf_step: "import_conf legacy text st = (r, st') \<Longrightarrow> table_step\<^sup>*\<^sup>* st st'"
proof -
  have f: "import_flush legacy v st = (r, st') \<Longrightarrow> table_step\<^sup>*\<^sup>* st st'" for v st and r and st'
    by (auto simp: import_flush_def Let_def split: if_splits sum.splits intro: insert_step)
  have f': "moves id st (import_flush legacy v st)" for v st
    using f [of v st] by (cases "import_flush legacy v st") (simp add: moves_def)
  have l: "moves id st (import_line legacy l v st)" for l v st
    unfolding import_line_def Let_def by (intro moves_rules f') 
  have ls: "moves id st (import_lines legacy ls v st)" for ls v st
  proof (induction ls arbitrary: v st)
    case (Cons l ls)
    show ?case by (simp only: import_lines.simps, intro moves_rules l Cons.IH)
  qed (simp add: moves_def)
  assume "import_conf legacy text st = (r, st')"
  moreover have "moves id st (import_conf legacy text st)"
    unfolding import_conf_def by (intro moves_rules ls f')
  ultimately show ?thesis by (simp add: moves_def)
qed

lemma moves_import_conf: "moves db w (case import_conf legacy text (db w) of (r, st) \<Rightarrow> (r, w\<lparr>db := st\<rparr>))"
  using import_conf_step [where st = "db w"] by (auto simp: moves_def split: prod.split)

section \<open>Commands\<close>

lemma moves_quiet [moves_ops]: "moves db w (p w) \<Longrightarrow> moves db w (quiet p w)"
  unfolding quiet_def by (intro moves_rules)

lemma moves_texts [moves_ops]:
  "moves db w (parseParams path w)" "moves db w (ovpnGenTLSCrypt os w)" "moves db w (readFileStr path w)"
  by (simp_all add: moves_def parseParams_def ovpnGenTLSCrypt_def readFileStr_def split: option.split prod.split)

lemma moves_configs [moves_ops]: "moves db w (clientConfig cfg p w)" "moves db w (ovpnConfigForPeer cfg p w)"
  unfolding clientConfig_def ovpnConfigForPeer_def by (intro moves_rules moves_ops)+

lemma moves_cmdStatus [moves_ops]: "moves db w (cmdStatus os w)"
  unfolding cmdStatus_def state_line_def Let_def by (intro moves_rules moves_ops) simp_all

lemma moves_cmdRestart [moves_ops]: "moves db w (cmdRestart os args w)"
  unfolding cmdRestart_def Let_def by (intro moves_rules) simp_all

lemma moves_cmdReinstall [moves_ops]: "moves db w (cmdReinstall os answer args w)"
  unfolding cmdReinstall_def Let_def by (intro moves_rules moves_ops) simp_all

lemma moves_exports [moves_ops]:
  "moves db w (cmdExportUsers os cd args w)" "moves db w (cmdExportBundle os cd args w)"
  unfolding cmdExportUsers_def cmdExportBundle_def writeMigrationFile_def writeMigrationBundleFile_def write_export_def
  by (intro moves_rules moves_ops; simp)+

lemma moves_imports [moves_ops]:
  "moves db w (cmdImportUsers os cd args w)" "moves db w (cmdImportBundle os cd args w)"
  unfolding cmdImportUsers_def cmdImportBundle_def read_arg_def by (intro moves_rules moves_ops; simp)+

lemma moves_cmdImport [moves_ops]: "moves db w (cmdImport legacy args w)"
  unfolding cmdImport_def read_arg_def
  by (intro moves_import_conf moves_rules moves_ops) simp_all

lemma moves_cmdInit [moves_ops]: "moves db w (cmdInit os cr args w)"
  unfolding cmdInit_def init_secrets_def Let_def by (intro moves_rules moves_ops) simp_all

lemma moves_cmdAdd [moves_ops]: "moves db w (cmdAdd os pki pf args w)"
  unfolding cmdAdd_def add_ovpn_def add_wg_def by (intro moves_rules moves_ops) simp_all

lemma moves_reading [moves_ops]:
  "moves db w (cmdRemove os args w)" "moves db w (cmdList w)" "moves db w (cmdShow args w)" "moves db w (cmdConfig args w)"
  unfolding cmdRemove_def cmdList_def cmdShow_def cmdConfig_def Let_def by (intro moves_rules moves_ops; simp)+

lemma moves_passing [moves_ops]: "moves db w (cmd_render os w)" "moves db w (cmd_enforce os w)"
  unfolding cmd_render_def cmd_enforce_def by (intro moves_rules moves_ops; simp add: enforceTick_step)+

lemma moves_configuring [moves_ops]: "moves db w (set_login os cr args w)" "moves db w (set_base_path os args w)"
  unfolding set_login_def set_base_path_def by (intro moves_rules moves_ops; simp)+

lemma moves_cmdOvpnInit [moves_ops]: "moves db w (cmdOvpnInit os pki is_ip6 addrs args w)"
  unfolding cmdOvpnInit_def setup_ovpn_def ensure_server_cert_def ensure_tls_crypt_def refuse_overlap_def Let_def
  by (intro moves_rules moves_ops) simp_all

lemma moves_ovpn_commands [moves_ops]:
  "moves db w (cmdOvpnAdd os pki args w)" "moves db w (cmdOvpnConfig os args w)" "moves db w (cmdOvpnRm os args w)"
  unfolding cmdOvpnAdd_def cmdOvpnConfig_def cmdOvpnRm_def under_defaults_def by (intro moves_rules moves_ops; simp)+

lemma delete_ghosts_step: "table_step\<^sup>*\<^sup>* st (fold delete_ghost us st)"
proof (induction us arbitrary: st)
  case (Cons u us)
  have "table_step st (delete_ghost u st)" unfolding delete_ghost_def by (rule stmt_delete)
  then show ?case using Cons.IH [of "delete_ghost u st"] by (simp add: converse_rtranclp_into_rtranclp)
qed simp

lemma moves_cleaning [moves_ops]: "moves db w (cmdOvpnOrphans os rd args w)" "moves db w (cmdGhostUsers args w)"
  unfolding cmdOvpnOrphans_def purge_orphans_def cmdGhostUsers_def Let_def
  by (intro moves_rules moves_ops; simp add: delete_ghosts_step)+

lemma moves_fields [moves_ops]:
  "moves db w (cli_quota pf args w)" "moves db w (cli_recharge pf args w)" "moves db w (cli_renew args w)"
  "moves db w (cli_enable args w)" "moves db w (cli_disable args w)"
  unfolding cli_quota_def cli_recharge_def cli_renew_def cli_enable_def cli_disable_def setField_def Let_def
  by (intro moves_rules moves_ops; simp add: cli_reset_def update_ign_step)+

lemma command_moves:
  assumes "command e cmd args = Some p" "cmd \<noteq> ''uninstall''"
  shows "moves db w (p w)"
proof (cases "cmd \<in> {''menu'', ''help'', ''-h'', ''--help'', ''serve''}")
  case False
  show ?thesis
    using assms(1) unfolding command_def Let_def if_not_P [OF False] option.inject
    by (elim subst) (intro moves_rules moves_ops, simp_all only: assms(2))
qed (use assms(1) in \<open>simp add: command_def\<close>)

section \<open>The menu\<close>

lemma moves_stay [moves_ops]: "moves db w (p w) \<Longrightarrow> moves db w (stay p ls w)"
  unfolding stay_def by (intro moves_rules)

lemma moves_caught [moves_ops]: "moves db w (p w) \<Longrightarrow> moves db w (caught p ls w)"
  by (simp add: caught_def moves_def)

lemma moves_choices [moves_ops]:
  "moves db w (menu_login e ls w)" "moves db w (menu_path e ls w)" "moves db w (menu_add e ls w)"
  "moves db w (menu_remove e ls w)" "moves db w (menu_reinstall e ls w)" "moves db w (menu_export e ls w)"
  "moves db w (menu_import e ls w)" "moves db w (menu_export_bundle e ls w)" "moves db w (menu_import_bundle e ls w)"
  unfolding menu_login_def menu_path_def menu_add_def menu_remove_def menu_reinstall_def menu_export_def
    menu_import_def menu_export_bundle_def menu_import_bundle_def Let_def
  by (intro moves_rules moves_ops; simp)+

lemma moves_menu_expand [moves_ops]: "moves db w (menu_expand e ls w)"
proof -
  obtain plen r1 ok r2 where l: "readDefault ''16'' ls = (plen, r1)" "confirm r1 = (ok, r2)" by fastforce
  obtain r w' where e: "expandSubnet (e_os e) None [''--prefix'', plen] w = (r, w')" by fastforce
  have "moves db w (r, w')" unfolding e [symmetric] by (rule moves_ops)
  moreover have "moves db w (caught (expandSubnet (e_os e) (Some ok) [''--prefix'', plen]) r2 w)" by (intro moves_ops)
  ultimately show ?thesis by (simp add: menu_expand_def l e moves_def)
qed

lemma menu_moves:
  assumes "readLine ls = (c, r)" "c \<noteq> ''16''"
  shows "moves db w (menu_step e ls w)"
  unfolding menu_step_def assms(1) Let_def prod.case
  by (intro moves_rules moves_ops, simp_all only: assms(2))

section \<open>The panel\<close>

abbreviation panel_table :: "'k panel \<Rightarrow> store" where
  "panel_table s \<equiv> db (sys s)"

lemma moves_locking [moves_ops]: "(\<And>s. moves panel_table s (p s)) \<Longrightarrow> moves panel_table s (locking p s)"
  unfolding locking_def by (intro moves_rules) simp_all

text \<open>A function of the world runs in the panel, which goes on with the world it leaves.\<close>

lemma moves_sys_case:
  assumes "moves db (sys s) (f (sys s))" "\<And>a w. moves panel_table (s\<lparr>sys := w\<rparr>) (g a w)"
  shows "moves panel_table s (case f (sys s) of (a, w) \<Rightarrow> g a w)"
proof -
  obtain a w where r: "f (sys s) = (a, w)" by fastforce
  with assms(1) have "table_step\<^sup>*\<^sup>* (panel_table s) (panel_table (s\<lparr>sys := w\<rparr>))" by (simp add: moves_def)
  then have "moves panel_table s (g a w)" using assms(2) by (rule moves_step)
  then show ?thesis by (simp add: r)
qed

lemma moves_and_then_later [moves_rules]:
  "tab s' = tab s \<Longrightarrow> moves tab s' (p s') \<Longrightarrow> (\<And>a s'. moves tab s' (f a s')) \<Longrightarrow> moves tab s (and_then p f s')"
  by (rule moves_from [OF moves_and_then])

lemma moves_mustPeer [moves_ops]: "moves panel_table s (mustPeer r s)"
  unfolding mustPeer_def by (intro moves_rules moves_ops)

lemma moves_enforceNow [moves_ops]: "moves panel_table s (enforceNow os s)"
  unfolding enforceNow_def by (intro moves_rules) (simp add: enforceTick_step)

lemma moves_reply [moves_ops]: "moves panel_table s (reply_peer r s)"
  unfolding reply_peer_def by (intro moves_rules moves_ops)

lemma moves_store_setting [moves_ops]: "moves panel_table s (store_setting os f s)"
  unfolding store_setting_def by (intro moves_rules moves_ops) simp_all

lemma moves_update_user [moves_ops]:
  "(\<And>r. ID (f r) = ID r \<and> Username (f r) = Username r) \<Longrightarrow> moves panel_table s (update_user os f r p s)"
  unfolding update_user_def by (intro moves_rules moves_ops) (simp add: update_ign_step)

lemma moves_wgHandshakes [moves_ops]: "moves db w (wgHandshakes os i w)"
  unfolding wgHandshakes_def by (intro moves_rules moves_ops) simp_all

lemma moves_updating [moves_ops]:
  "moves panel_table s (renew os r s)" "moves panel_table s (setQuota os r s)" "moves panel_table s (enableH os r s)"
  "moves panel_table s (disableH os r s)" "moves panel_table s (syncH os r s)"
  unfolding renew_def setQuota_def enableH_def disableH_def syncH_def by (intro moves_rules moves_ops; simp)+

lemma moves_recharge [moves_ops]: "moves panel_table s (recharge os r s)"
  unfolding recharge_def rechargeWith_def by (intro moves_rules moves_ops) simp_all

lemma moves_secrets [moves_ops]:
  "moves panel_table s (getAPIToken r s)" "moves panel_table s (regenAPIToken os r s)"
  "moves panel_table s (changePassword os cr r s)" "moves panel_table s (login cr r s)"
  unfolding getAPIToken_def regenAPIToken_def changePassword_def login_def Let_def
  by (intro moves_rules moves_ops; simp)+

lemma moves_with_ovpn_config [moves_ops]:
  "(\<And>cfg s. moves panel_table s (f cfg s)) \<Longrightarrow> moves panel_table s (with_ovpn_config os f s)"
  unfolding with_ovpn_config_def by (intro moves_sys_case moves_rules moves_ops)

lemma moves_showing [moves_ops]:
  "moves panel_table s (listPeers os is_ip6 addrs r s)" "moves panel_table s (showPeer os r s)"
  "moves panel_table s (getConfig os r s)" "moves panel_table s (qrPeer qr r s)"
  "moves panel_table s (ovpnConfigH os r s)" "moves panel_table s (updateServer os hr r s)"
  unfolding listPeers_def showPeer_def getConfig_def qrPeer_def ovpnConfigH_def updateServer_def startUpdateAsync_def Let_def
  by (intro moves_sys_case moves_rules moves_ops; simp)+

lemma moves_creating [moves_ops]:
  "moves panel_table s (createPeer os pki r s)" "moves panel_table s (deletePeerH os r s)"
  "moves panel_table s (ovpnAddH os pki r s)" "moves panel_table s (ovpnRemoveH os r s)"
  unfolding createPeer_def create_ovpn_only_def reply_created_def deletePeerH_def ovpnAddH_def ovpnRemoveH_def Let_def
  by (intro moves_sys_case moves_rules moves_ops; simp)+

lemma moves_migrating [moves_ops]:
  "moves panel_table s (exportMigrationH cd r s)" "moves panel_table s (exportMigrationBundleH os cd r s)"
  "moves panel_table s (importMigrationH os cd up r s)" "moves panel_table s (importMigrationBundleH os cd up ep r s)"
  unfolding exportMigrationH_def exportMigrationBundleH_def importMigrationH_def importMigrationBundleH_def
  by (intro moves_sys_case moves_rules moves_ops; simp)+

lemma guarded_moves: "(m, p, h) \<in> set (guarded a c) \<Longrightarrow> moves panel_table s (h r s)"
  unfolding guarded_def Let_def by (auto intro: moves_ops)

lemma guard_moves: "(\<And>s. moves panel_table s (h r s)) \<Longrightarrow> moves panel_table s (guard h r s)"
  unfolding guard_def by (intro moves_rules) simp_all

lemma versionH_table: "versionH inst get c s = (resp, c', s') \<Longrightarrow> panel_table s' = panel_table s"
  by (auto simp: versionH_def split: prod.splits)

abbreviation daemon_table :: "'k daemon \<Rightarrow> store" where
  "daemon_table d \<equiv> db (sys (fst d))"

lemma dispatch_moves: "moves daemon_table d (dispatch a c d)"
proof -
  obtain s vc where d: "d = (s, vc)" by (cases d)
  have g: "moves daemon_table (s, vc) (case guard h r s of (resp, s') \<Rightarrow> (resp, (s', vc)))"
    if "(m, p, h) \<in> set (guarded a (named c))" for m p h r
  proof -
    have "moves panel_table s (guard h r s)" by (rule guard_moves, rule guarded_moves, rule that)
    then show ?thesis by (auto simp: moves_def split: prod.split)
  qed
  have f: "find P xs = Some x \<Longrightarrow> x \<in> set xs" for P and xs :: "'b list" and x
    using find_Some_iff2 by metis
  have v: "moves daemon_table (s, vc) (case versionH i gt vc s of (resp, vc', s') \<Rightarrow> (Some resp, (s', vc')))" for i gt
    by (auto simp: moves_def split: prod.split dest: versionH_table)
  have l: "moves daemon_table (s, vc) (case login cr r s of (resp, s') \<Rightarrow> (Some resp, (s', vc)))" for cr r
  proof -
    have "moves panel_table s (login cr r s)" by (rule moves_secrets)
    then show ?thesis by (auto simp: moves_def split: prod.split)
  qed
  have st: "moves daemon_table (s, vc) (x, (s, vc))" for x :: "response option" by (simp add: moves_def)
  show ?thesis unfolding dispatch_def d Let_def prod.case
    by (cases "find (\<lambda>(m, p, h). serves m (c_method (named c)) \<and> p = c_path (named c) \<and> [] \<notin> set p) (guarded a (named c))")
       (auto intro: g v l st dest!: f)
qed

end
