(* ===== verification/System.thy ===== *)
theory System
  imports Statements Operations
begin

text \<open>
  The whole system: the daemon with its panel, the loop's passes, the commands and menu choices other processes run
  on the same table, and everything else that happens on the host and leaves the table alone (time, traffic, other
  files, a restart of the daemon).  A running system takes these steps in any order; uninstalling and the rebuild of
  an old table are apart.  The step relation is refined by the statements of Store, and what those keep holds of
  every table the system can reach.
\<close>

section \<open>Steps\<close>

inductive running_step :: "'k app \<Rightarrow> 'k daemon \<Rightarrow> 'k daemon \<Rightarrow> bool" for a where
  run_request: "startAPI a segs cfg path c d = (resp, d') \<Longrightarrow> running_step a d d'"
| run_pass: "running_step a (s, vc) (s\<lparr>sys := enforceTick os cfg (sys s)\<rparr>, vc)"
| run_command: "command e cmd args = Some p \<Longrightarrow> cmd \<noteq> ''uninstall'' \<Longrightarrow> p (sys s) = (r, w) \<Longrightarrow>
    running_step a (s, vc) (s\<lparr>sys := w\<rparr>, vc)"
| run_choice: "readLine ls = (choice, rest) \<Longrightarrow> choice \<noteq> ''16'' \<Longrightarrow> menu_step e ls (sys s) = (r, w) \<Longrightarrow>
    running_step a (s, vc) (s\<lparr>sys := w\<rparr>, vc)"
| run_host: "daemon_table d' = daemon_table d \<Longrightarrow> running_step a d d'"

inductive system_step :: "'k app \<Rightarrow> 'k daemon \<Rightarrow> 'k daemon \<Rightarrow> bool" for a where
  sys_running: "running_step a d d' \<Longrightarrow> system_step a d d'"
| sys_uninstall: "cmdUninstall os answers args (sys s) = (r, w) \<Longrightarrow> system_step a (s, vc) (s\<lparr>sys := w\<rparr>, vc)"
| sys_rebuild: "daemon_table d' = migratePeersRelaxWG (daemon_table d) \<Longrightarrow> system_step a d d'"

section \<open>Every step keeps the table\<close>

lemma startAPI_moves: "moves daemon_table d (startAPI a segs cfg path c d)"
  unfolding startAPI_def by (auto split: option.split intro: dispatch_moves simp: moves_refl)

lemma running_step_statements: "running_step a d d' \<Longrightarrow> table_step\<^sup>*\<^sup>* (daemon_table d) (daemon_table d')"
proof (induction rule: running_step.induct)
  case (run_request segs cfg path c d resp d')
  then show ?case using startAPI_moves [of d a segs cfg path c] by (simp add: moves_def)
next
  case (run_pass s vc os cfg)
  show ?case by (simp add: enforceTick_step)
next
  case (run_command e cmd args p s r w vc)
  then show ?case using command_moves [of e cmd args p "sys s"] by (simp add: moves_def)
next
  case (run_choice ls choice rest e s r w vc)
  then show ?case using menu_moves [of ls choice rest "sys s" e] by (simp add: moves_def)
qed simp

lemma running_statements: "(running_step a)\<^sup>*\<^sup>* d d' \<Longrightarrow> table_step\<^sup>*\<^sup>* (daemon_table d) (daemon_table d')"
  by (induction rule: rtranclp_induct) (auto intro: rtranclp_trans running_step_statements)

lemma uninstall_table: "db (uninstall os cfg pg w) \<in> {db w, empty_store}"
proof -
  have r: "db (removePath os d w) \<in> {db w, empty_store}" for d and w
    by (simp add: removePath_def split: option.split)
  have f: "db (fold (removePath os) ds w) \<in> {db w, empty_store}" for ds and w
  proof (induction ds arbitrary: w)
    case (Cons d ds)
    show ?case using Cons.IH [of "removePath os d w"] r [of d w] by auto
  qed simp
  have c: "db (fold (\<lambda>(c, as). runq os c as) cs w) = db w" for cs and w
    by (induction cs arbitrary: w) (auto split: prod.split)
  show ?thesis
    using r [of "''/usr/local/bin/wgmgr''"] f [of "uninstall_paths pg"] c [of "uninstall_cmds cfg pg" w]
    unfolding uninstall_def insert_iff empty_iff by (metis runq_frame(1))
qed

lemma cmdUninstall_cases: "P w \<Longrightarrow> (\<And>cfg pg. P (uninstall os cfg pg w)) \<Longrightarrow> P (snd (cmdUninstall os answers args w))"
  by (auto simp: cmdUninstall_def Let_def split: option.split prod.split)

lemma rebuild_inv: "store_inv st \<Longrightarrow> store_inv (migratePeersRelaxWG st)"
proof -
  have "\<forall>r\<in>set rs. ID r \<le> foldr max (map ID rs) 0" for rs :: "peer list"
    by (induction rs) (auto simp: le_max_iff_disj)
  then show "store_inv st \<Longrightarrow> store_inv (migratePeersRelaxWG st)"
    by (simp add: store_inv_def migratePeersRelaxWG_def list_all_iff)
qed

lemma system_step_inv: "system_step a d d' \<Longrightarrow> store_inv (daemon_table d) \<Longrightarrow> store_inv (daemon_table d')"
proof (induction rule: system_step.induct)
  case (sys_running d d')
  then show ?case using running_step_statements table_steps_inv by blast
next
  case (sys_uninstall os answers args s r w vc)
  have "store_inv (db (uninstall os cfg pg (sys s)))" for cfg pg
    using sys_uninstall.prems uninstall_table [of os cfg pg "sys s"] by auto
  then have "store_inv (db (snd (cmdUninstall os answers args (sys s))))"
    using sys_uninstall.prems by (simp add: cmdUninstall_cases [where P = "\<lambda>w. store_inv (db w)"])
  then show ?case using sys_uninstall.hyps by simp
next
  case (sys_rebuild d' d)
  then show ?case by (simp add: rebuild_inv)
qed

section \<open>Properties\<close>

text \<open>
  C8. A running system only executes statements on the table, whatever requests, passes, commands and menu choices
  come in which order, and an id once given out names the same user ever after.  So an update or a deletion by the
  id of a user read earlier, however late it comes, leaves every other user alone, also one made under the old name.
\<close>

theorem running_system_refines_statements:
  assumes "(running_step a)\<^sup>*\<^sup>* d d'" and "store_inv (daemon_table d)" and "p \<in> set (allPeers (daemon_table d))"
  shows "table_step\<^sup>*\<^sup>* (daemon_table d) (daemon_table d') \<and> same_users (daemon_table d) (daemon_table d') \<and>
    (\<forall>q\<in>set (allPeers (daemon_table d')). ID q > row_seq (daemon_table d) \<or> Username q \<noteq> Username p \<longrightarrow>
       (\<forall>f. q \<in> set (allPeers (sql_update_ign (ID p) f (daemon_table d')))) \<and>
       q \<in> set (allPeers (sql_delete (ID p) (daemon_table d'))))"
proof -
  have s: "table_step\<^sup>*\<^sup>* (daemon_table d) (daemon_table d')" by (rule running_statements [OF assms(1)])
  have u: "same_users (daemon_table d) (daemon_table d')" by (rule table_steps_same_users [OF s])
  have "ID q \<noteq> ID p" if "q \<in> set (allPeers (daemon_table d'))" "ID q > row_seq (daemon_table d) \<or> Username q \<noteq> Username p" for q
    using late_id [OF u assms(2,3)] that by auto
  then show ?thesis using s u by (blast intro: other_row_kept)
qed

lemma running_system_refines_statements_witness:
  "\<forall>vc. \<exists>s. (running_step demo_app)\<^sup>*\<^sup>* (guest_panel sample_store, vc) (s, vc) \<and>
     table_step\<^sup>*\<^sup>* sample_store (panel_table s) \<and>
     (\<forall>q\<in>set (allPeers (panel_table s)). Username q = ''bob'' \<longrightarrow> q \<in> set (allPeers (sql_delete (ID ann) (panel_table s))))"
proof
  fix vc
  let ?s = "(guest_panel sample_store)\<lparr>sys := enforceTick demo_os sample_config (demo_world sample_store)\<rparr>"
  have r: "(running_step demo_app)\<^sup>*\<^sup>* (guest_panel sample_store, vc) (?s, vc)"
    using run_pass [of demo_app "guest_panel sample_store" vc demo_os sample_config] by (simp add: guest_panel_def)
  have t: "daemon_table (guest_panel sample_store, vc) = sample_store" by (simp add: guest_panel_def demo_world_def)
  have a: "ann \<in> set (allPeers sample_store)" "Username ann = ''ann''"
    by (simp_all add: allPeers_def sample_store_def ann_def)
  from running_system_refines_statements [OF r, unfolded t, OF sample_store_inv a(1)] a(2) r
  show "\<exists>s. (running_step demo_app)\<^sup>*\<^sup>* (guest_panel sample_store, vc) (s, vc) \<and>
     table_step\<^sup>*\<^sup>* sample_store (panel_table s) \<and>
     (\<forall>q\<in>set (allPeers (panel_table s)). Username q = ''bob'' \<longrightarrow> q \<in> set (allPeers (sql_delete (ID ann) (panel_table s))))"
    by (intro exI [of _ ?s] conjI ballI impI) auto
qed


lemma demo_choice: "running_step a (guest_panel empty_store, vc)
  ((guest_panel empty_store)\<lparr>sys := snd (menu_step demo_env [''9'', ''eve'', [], [], []] (demo_world empty_store))\<rparr>, vc)"
proof (rule run_choice)
  show "readLine [''9'', ''eve'', [], [], []] = (''9'', [''eve'', [], [], []])"
    by (simp add: readLine_def tight_def printable_def)
  show "menu_step demo_env [''9'', ''eve'', [], [], []] (sys (guest_panel empty_store)) =
    (fst (menu_step demo_env [''9'', ''eve'', [], [], []] (demo_world empty_store)),
     snd (menu_step demo_env [''9'', ''eve'', [], [], []] (demo_world empty_store)))"
    by (simp add: guest_panel_def)
qed simp


end
