(* ===== verification/Spec2Isabelle.thy ===== *)
theory Spec2Isabelle
  imports OvpnUsers Reset Metering Widening Repair Bundles Operations Serving Profiles System
begin

text \<open>
  Verification library of WG-Manager, a Go program that manages the users of a WireGuard and an OpenVPN server
  on one host: a table of users with one traffic quota and one expiry for both protocols, a daemon that measures
  and enforces them, a web panel, a command line and a menu.

  \<^bold>\<open>How the program is modelled.\<close>  An unrecoverable error is a call of \<^verbatim>\<open>die\<close>, a panic that \<^verbatim>\<open>main\<close>, the panel's
  guard or the menu recovers, with all effects so far in place.  A stateful Go function is therefore a program
  \<open>'s \<Rightarrow> (string + 'a) \<times> 's\<close> (Prelude): the message or the result, and in both cases the state.  The state is a
  \<open>world\<close> (World): the table, the configuration file, the other files, an abstract state of the operating system
  and the clock.  Commands, the OpenVPN management socket, random bytes and file errors are a parameter \<open>os\<close>.
  The panel adds its copy of the configuration and its mutex (Api).  Integers are \<open>int\<close>, wrapped to 64 bits by
  \<open>i64\<close> where Go's wrap; texts are lists of bytes, so UTF-8 in messages is written out; floating-point numbers
  are exact rationals with the infinities, rounded only where the code converts from an integer.

  \<^bold>\<open>Theories, in the order they build on each other.\<close>
  \<^item> Prelude, GoStrings, GoStrconv, GoTime: dying programs, and what the code uses of \<^verbatim>\<open>strings\<close>, \<^verbatim>\<open>strconv\<close> and
    \<^verbatim>\<open>time\<close> (RFC 3339 with its round trip), with the lemmas the components share.
  \<^item> Types, Store, Addr, Pool, World: the records \<^verbatim>\<open>Config\<close> and \<^verbatim>\<open>Peer\<close>; the table and its indexes with the
    interface \<open>keyed_table\<close>, interpreted on it, and what its statements keep; IPv4 arithmetic; the
    allocator of subnet.go with the interface \<open>address_pool\<close>, interpreted on the host's pools; files, commands
    and paths.
  \<^item> Usage, Enforce, Blocking, Metering: enforce.go and ovpn.go.  The readers of counters, one pass
    (\<open>enforceTick\<close>), what it does to the block set under the laws of \<^verbatim>\<open>ipset\<close>, and that billing is exact over
    restarts and reconnects, through the interface \<open>usage_meter\<close> of the two counters.
  \<^item> Reset: reset.go and the recharge of the command line.
  \<^item> WgConf, WgRender, WgUsers: the WireGuard parts of main.go: heads, rendering with its guard, creating users,
    importing an existing file.
  \<^item> Certs: the keys and certificates of ovpn_pki.go and the panel's own: what the code asks the crypto library for.
  \<^item> Ovpn, OvpnUsers: ovpn_pki.go: attaching, detaching, server and client texts; creation is all or nothing, and
    what overlapping requests can do.
  \<^item> Host, Subnet, Widening: flags, units, uninstalling; subnet.go and its properties.
  \<^item> Repair: ghosts.go and ovpn_orphans.go.
  \<^item> ServerIp, Version, Api, Panel, Ranges: serverip.go, version.go, the handlers of api.go and login.go, what a
    request changes, ranges of the columns and paths of users.
  \<^item> Migration, Bundles: migration.go and its properties.
  \<^item> Cli, Commands, Service: the commands of main.go and ovpn_pki.go, the switch of \<^verbatim>\<open>main\<close>, the menu, the routes
    of \<^verbatim>\<open>startAPI\<close>, the loop of \<^verbatim>\<open>cmdServe\<close> and the rebuild of an old table.
  \<^item> Profiles, Access, Operations, Serving: what a new user's profile authenticates, what a request without the token
    can do, what the commands promise, and the daemon over time.
  \<^item> Statements, System: every operation as the statements it runs on the table (\<open>moves\<close>), with rules that follow the
    structure of programs; and the whole system as a step relation over requests, passes, commands, menu choices and
    whatever else the host does.

  \<^bold>\<open>What is shown.\<close>  A pass blocks exactly the addresses of the users it must and writes nothing but usage and
  verdicts; every expiry is enforced after a bounded number of passes; a panel change is in force when it is
  answered.  Usage is never billed twice.  The running system is refined by the statements of the table: in every
  state it can reach, names, keys and addresses are unique, and an id names one user for ever.  New users get the
  lowest free address; creations, recharges and imports are all or nothing where the code means them to be, and the
  theorems on errors show where they are not.  Files are written only where they should be: rendering, bundles,
  widening, setting up again and uninstalling.  Exports are read back.  A request without the token changes nothing.
  A new profile authenticates its user and nobody else.

  \<^bold>\<open>Recursion and bounds.\<close>  Loops over lists and texts are structural or end by the length of what is left; the
  allocator's search over a pool with prefix k is given the 2^(32-k) addresses of the pool as fuel, and shown to find
  the lowest free one; the menu, which may run for ever, is a partial function whose missing result is \<open>None\<close>.

  \<^bold>\<open>Not modelled.\<close>  SQLite, JSON, zip, the crypto library (keys, signatures, DER, \<^verbatim>\<open>pem.Decode\<close>), bcrypt, the QR
  encoder, TLS and the HTTP server are parameters or taken at their documented behaviour; \<^verbatim>\<open>strconv.ParseFloat\<close> is a
  parameter.  A request, pass or command is one step; that two of them can interleave between their statements is
  modelled for the attaches of OvpnUsers only, though what the table keeps it keeps under any order of statements
  (\<open>reachable_table\<close>).  File modes, directories, most of what is only printed, and the
  columns \<^verbatim>\<open>created_at\<close>, \<^verbatim>\<open>updated_at\<close> and \<^verbatim>\<open>notes\<close>, which nothing reads, are left out, as are the page of the
  panel and the installer, which are not Go.
\<close>

end
